(* ===== verification/Prelude.thy ===== *)
theory Prelude
  imports "HOL-Library.Word"
begin

unbundle bit_operations_syntax

text \<open>
  Shared vocabulary of the development.

  \<^item> Rust's machine integers are words (\<open>u8\<close> \<dots> \<open>u64\<close>); \<open>usize\<close>, an index or a length of
    something in memory, is \<^typ>\<open>nat\<close> (the target is 64-bit: \<open>usize::try_from\<close> of a
    \<open>u64\<close> never fails).
  \<^item> A fallible Rust function returns a \<open>result\<close>: \<open>Ok\<close>, \<open>Err\<close>, or \<open>Panic\<close> where Rust would
    panic (an index or a slice out of range).
  \<^item> Slices, checked arithmetic and the byte order conversions of the standard library.
\<close>

named_theorems dec_safe \<open>decoding steps that neither panic nor leave their buffer\<close>
named_theorems dec_reads \<open>decoding steps that read a given byte layout\<close>
named_theorems enc_writes \<open>encoding steps that write a given byte layout\<close>
named_theorems zio_intro \<open>contracts of pool-reading steps\<close>

section \<open>Machine types\<close>

type_synonym u8 = "8 word"
type_synonym u16 = "16 word"
type_synonym u32 = "32 word"
type_synonym u64 = "64 word"
type_synonym bytes = "8 word list"

section \<open>Results\<close>

datatype ('e, 'a) result = Ok 'a | Err 'e | Panic

fun and_then :: "('e, 'a) result \<Rightarrow> ('a \<Rightarrow> ('e, 'b) result) \<Rightarrow> ('e, 'b) result" where
  "and_then (Ok x) f = f x"
| "and_then (Err e) f = Err e"
| "and_then Panic f = Panic"

fun map_err :: "('e \<Rightarrow> 'g) \<Rightarrow> ('e, 'a) result \<Rightarrow> ('g, 'a) result" where
  "map_err f (Ok x) = Ok x"
| "map_err f (Err e) = Err (f e)"
| "map_err f Panic = Panic"

fun ok_or :: "'e \<Rightarrow> 'a option \<Rightarrow> ('e, 'a) result" where
  "ok_or e None = Err e"
| "ok_or e (Some x) = Ok x"

fun is_ok :: "('e, 'a) result \<Rightarrow> bool" where
  "is_ok (Ok x) = True"
| "is_ok (Err e) = False"
| "is_ok Panic = False"

lemma and_then_Ok_iff:
  "and_then m f = Ok y \<longleftrightarrow> (\<exists>x. m = Ok x \<and> f x = Ok y)"
  by (cases m) auto

lemma and_then_Panic_iff:
  "and_then m f = Panic \<longleftrightarrow> m = Panic \<or> (\<exists>x. m = Ok x \<and> f x = Panic)"
  by (cases m) auto

lemma map_err_Ok_iff [simp]: "map_err f m = Ok x \<longleftrightarrow> m = Ok x"
  by (cases m) auto

lemma map_err_Panic_iff [simp]: "map_err f m = Panic \<longleftrightarrow> m = Panic"
  by (cases m) auto

lemma map_err_Err_iff: "map_err f m = Err e \<longleftrightarrow> (\<exists>e'. m = Err e' \<and> e = f e')"
  by (cases m) auto

lemma ok_or_Ok_iff [simp]: "ok_or e m = Ok x \<longleftrightarrow> m = Some x"
  by (cases m) auto

lemma ok_or_not_Panic [simp]: "ok_or e m \<noteq> Panic"
  by (cases m) auto

lemma is_ok_iff: "is_ok m \<longleftrightarrow> (\<exists>x. m = Ok x)"
  by (cases m) auto

section \<open>Slices\<close>

text \<open>\<open>xs.get(a..b)\<close>: \<^const>\<open>None\<close> unless \<open>a \<le> b \<le> xs.len()\<close>.\<close>

definition slice_get :: "'a list \<Rightarrow> nat \<Rightarrow> nat \<Rightarrow> 'a list option" where
  "slice_get xs a b = (if a \<le> b \<and> b \<le> length xs then Some (take (b - a) (drop a xs)) else None)"

text \<open>\<open>xs.get(i)\<close>.\<close>

definition index_get :: "'a list \<Rightarrow> nat \<Rightarrow> 'a option" where
  "index_get xs i = (if i < length xs then Some (xs ! i) else None)"

text \<open>\<open>&xs[a..b]\<close> and \<open>xs[i]\<close>, which panic where \<open>get\<close> gives \<^const>\<open>None\<close>.\<close>

definition slice :: "'a list \<Rightarrow> nat \<Rightarrow> nat \<Rightarrow> ('e, 'a list) result" where
  "slice xs a b = (case slice_get xs a b of None \<Rightarrow> Panic | Some ys \<Rightarrow> Ok ys)"

definition index :: "'a list \<Rightarrow> nat \<Rightarrow> ('e, 'a) result" where
  "index xs i = (case index_get xs i of None \<Rightarrow> Panic | Some y \<Rightarrow> Ok y)"

text \<open>\<open>dst[i..i + src.len()].copy_from_slice(src)\<close> for a range inside \<open>dst\<close>.\<close>

definition overwrite :: "'a list \<Rightarrow> nat \<Rightarrow> 'a list \<Rightarrow> 'a list" where
  "overwrite dst i src = take i dst @ src @ drop (i + length src) dst"

lemma slice_get_Some_iff:
  "slice_get xs a b = Some ys \<longleftrightarrow> a \<le> b \<and> b \<le> length xs \<and> ys = take (b - a) (drop a xs)"
  by (auto simp: slice_get_def)

lemma slice_get_length: "slice_get xs a b = Some ys \<Longrightarrow> length ys = b - a"
  by (auto simp: slice_get_def split: if_splits)

lemma slice_get_nth:
  "slice_get xs a b = Some ys \<Longrightarrow> i < b - a \<Longrightarrow> ys ! i = xs ! (a + i)"
  by (auto simp: slice_get_def split: if_splits)

lemma slice_get_append:
  "slice_get (pre @ xs @ post) (length pre) (length pre + length xs) = Some xs"
  by (simp add: slice_get_def)

lemma index_get_Some_iff: "index_get xs i = Some x \<longleftrightarrow> i < length xs \<and> x = xs ! i"
  by (auto simp: index_get_def)

lemma index_get_append: "index_get (pre @ x # post) (length pre) = Some x"
  by (simp add: index_get_def)

lemma slice_Ok_iff: "slice xs a b = Ok ys \<longleftrightarrow> slice_get xs a b = Some ys"
  by (auto simp: slice_def split: option.splits)

lemma slice_Panic_iff: "slice xs a b = Panic \<longleftrightarrow> slice_get xs a b = None"
  by (auto simp: slice_def split: option.splits)

lemma slice_not_Err [simp]: "slice xs a b \<noteq> Err e"
  by (auto simp: slice_def split: option.splits)

lemma length_overwrite:
  "i + length src \<le> length dst \<Longrightarrow> length (overwrite dst i src) = length dst"
  by (simp add: overwrite_def)

lemma overwrite_overwrite:
  "i + length xs + length ys \<le> length dst \<Longrightarrow>
   overwrite (overwrite dst i xs) (i + length xs) ys = overwrite dst i (xs @ ys)"
  by (simp add: overwrite_def take_drop add.assoc add.commute add.left_commute)

lemma overwrite_nth:
  "i + length src \<le> length dst \<Longrightarrow> k < length dst \<Longrightarrow>
   overwrite dst i src ! k = (if i \<le> k \<and> k < i + length src then src ! (k - i) else dst ! k)"
  by (auto simp: overwrite_def nth_append min_def)

text \<open>\<open>xs.chunks_exact(n)\<close> for \<open>n > 0\<close>: the full chunks, a shorter rest is left out.\<close>

function chunks_exact :: "nat \<Rightarrow> 'a list \<Rightarrow> 'a list list" where
  "chunks_exact n xs =
     (if n = 0 \<or> length xs < n then [] else take n xs # chunks_exact n (drop n xs))"
  by pat_completeness auto
termination by (relation "measure (\<lambda>(n, xs). length xs)") auto

declare chunks_exact.simps [simp del]

lemma chunks_exact_short [simp]: "length xs < n \<Longrightarrow> chunks_exact n xs = []"
  by (simp add: chunks_exact.simps)

lemma chunks_exact_Cons:
  "0 < n \<Longrightarrow> length x = n \<Longrightarrow> chunks_exact n (x @ xs) = x # chunks_exact n xs"
  by (subst chunks_exact.simps) auto

lemma chunks_exact_append:
  assumes "0 < n" "n dvd length xs"
  shows "chunks_exact n (xs @ ys) = chunks_exact n xs @ chunks_exact n ys"
  using assms(2)
proof (induction "length xs div n" arbitrary: xs)
  case 0
  then have "xs = []" using assms(1) by (auto simp: dvd_def)
  then show ?case using assms(1) by simp
next
  case (Suc k)
  have le: "n \<le> length xs" using Suc.hyps(2) by (metis Suc_neq_Zero div_less not_less)
  have "length (drop n xs) div n = k" using Suc.hyps(2) assms(1) le by (simp add: le_div_geq)
  moreover have "n dvd length (drop n xs)" using Suc.prems le by (simp add: dvd_diff_nat)
  ultimately have IH: "chunks_exact n (drop n xs @ ys) = chunks_exact n (drop n xs) @ chunks_exact n ys"
    using Suc.hyps(1) by blast
  have "chunks_exact n (xs @ ys) = chunks_exact n (take n xs @ (drop n xs @ ys))"
    by (metis append.assoc append_take_drop_id)
  also have "\<dots> = take n xs # chunks_exact n (drop n xs @ ys)"
    using assms(1) le by (intro chunks_exact_Cons) auto
  also have "\<dots> = chunks_exact n xs @ chunks_exact n ys"
    using IH assms(1) le by (simp add: chunks_exact.simps[of n xs])
  finally show ?case .
qed

lemma chunks_exact_length: "x \<in> set (chunks_exact n xs) \<Longrightarrow> length x = n"
proof (induction n xs rule: chunks_exact.induct)
  case (1 n xs)
  from 1(2) 1(1) show ?case unfolding chunks_exact.simps[of n xs] by (auto split: if_splits)
qed

lemma chunks_exact_take:
  assumes "0 < n"
  shows "chunks_exact n (take (length xs - length xs mod n) xs) = chunks_exact n xs"
proof -
  let ?k = "length xs - length xs mod n"
  have "chunks_exact n (take ?k xs @ drop ?k xs) = chunks_exact n (take ?k xs) @ chunks_exact n (drop ?k xs)"
    using assms by (intro chunks_exact_append) (auto simp: dvd_minus_mod)
  moreover have "chunks_exact n (drop ?k xs) = []" using assms by simp
  ultimately show ?thesis by simp
qed

lemma chunks_exact_nil [simp]: "0 < n \<Longrightarrow> chunks_exact n [] = []"
  by simp

section \<open>Checked arithmetic\<close>

definition checked_add :: "'a::len word \<Rightarrow> 'a word \<Rightarrow> 'a word option" where
  "checked_add a b = (if unat a + unat b < 2 ^ LENGTH('a) then Some (a + b) else None)"

definition checked_mul :: "'a::len word \<Rightarrow> 'a word \<Rightarrow> 'a word option" where
  "checked_mul a b = (if unat a * unat b < 2 ^ LENGTH('a) then Some (a * b) else None)"

lemma checked_add_Some_iff:
  fixes a b c :: "'a::len word"
  shows "checked_add a b = Some c \<longleftrightarrow> unat c = unat a + unat b"
proof
  assume "checked_add a b = Some c"
  then show "unat c = unat a + unat b"
    by (auto simp: checked_add_def unat_add_lem[THEN iffD1] split: if_splits)
next
  assume *: "unat c = unat a + unat b"
  have lt: "unat a + unat b < 2 ^ LENGTH('a)" unfolding *[symmetric] by (rule unsigned_less)
  then have "c = a + b"
    using * by (metis unat_add_lem word_unat_eq_iff)
  with lt show "checked_add a b = Some c" by (simp add: checked_add_def)
qed

lemma checked_mul_Some_iff:
  fixes a b c :: "'a::len word"
  shows "checked_mul a b = Some c \<longleftrightarrow> unat c = unat a * unat b"
proof
  assume "checked_mul a b = Some c"
  then show "unat c = unat a * unat b"
    by (auto simp: checked_mul_def unat_mult_lem[THEN iffD1] split: if_splits)
next
  assume *: "unat c = unat a * unat b"
  have lt: "unat a * unat b < 2 ^ LENGTH('a)" unfolding *[symmetric] by (rule unsigned_less)
  then have "c = a * b"
    using * by (metis unat_mult_lem word_unat_eq_iff)
  with lt show "checked_mul a b = Some c" by (simp add: checked_mul_def)
qed

section \<open>Width conversions\<close>

lemma unat_less: "unat (w :: 'a::len word) < 2 ^ LENGTH('a)"
  by (rule unsigned_less)

lemma unat_ucast_up:
  assumes "LENGTH('a) \<le> LENGTH('b)"
  shows "unat (ucast (w :: 'a::len word) :: 'b::len word) = unat w"
proof -
  have "(2 :: nat) ^ LENGTH('a) \<le> 2 ^ LENGTH('b)" using assms by (simp add: power_increasing)
  then have "unat w < 2 ^ LENGTH('b)" using unat_less[of w] by (rule order_less_le_trans[rotated])
  then show ?thesis by (simp add: unsigned_ucast_eq take_bit_nat_eq_self)
qed

lemma ucast_ucast_up:
  "LENGTH('a) \<le> LENGTH('b) \<Longrightarrow> ucast (ucast (w :: 'a::len word) :: 'b::len word) = w"
  by (rule bit_word_eqI) (simp add: bit_simps)

text \<open>A word below a power of two has no bit from there on.\<close>

lemma not_bit_above:
  fixes w :: "'a::len word"
  assumes "unat w < 2 ^ n" "n \<le> i"
  shows "\<not> bit w i"
proof
  assume "bit w i"
  then have "bit (unat w) i" by (simp add: bit_unsigned_iff)
  then have "odd (unat w div 2 ^ i)" by (simp add: bit_iff_odd)
  then have "2 ^ i \<le> unat w" by (metis div_less even_zero not_less)
  moreover have "(2 :: nat) ^ n \<le> 2 ^ i" using assms(2) by (simp add: power_increasing)
  ultimately show False using assms(1) by linarith
qed

lemma bit_below: "unat (w :: 'a::len word) < 2 ^ n \<Longrightarrow> bit w i \<Longrightarrow> i < n"
  using not_bit_above[of w n i] by (auto simp: not_less[symmetric])

lemma flag_bit: "((w :: 'a::len word) AND 2 ^ n \<noteq> 0) = bit w n"
  by (simp add: and_exp_eq_0_iff_not_bit)

section \<open>Byte order\<close>

text \<open>
  \<open>to_le_bytes\<close>, \<open>from_le_bytes\<close> and their big-endian duals, for a word of \<open>n\<close> bytes.
\<close>

fun le_bytes :: "nat \<Rightarrow> 'a::len word \<Rightarrow> bytes" where
  "le_bytes 0 w = []"
| "le_bytes (Suc n) w = ucast w # le_bytes n (drop_bit 8 w)"

fun le_word :: "bytes \<Rightarrow> 'a::len word" where
  "le_word [] = 0"
| "le_word (b # bs) = ucast b OR push_bit 8 (le_word bs)"

definition be_bytes :: "nat \<Rightarrow> 'a::len word \<Rightarrow> bytes" where
  "be_bytes n w = rev (le_bytes n w)"

definition be_word :: "bytes \<Rightarrow> 'a::len word" where
  "be_word bs = le_word (rev bs)"

lemma length_le_bytes [simp]: "length (le_bytes n w) = n"
  by (induction n arbitrary: w) auto

lemma length_be_bytes [simp]: "length (be_bytes n w) = n"
  by (simp add: be_bytes_def)

lemma bit_le_word:
  "bit (le_word bs :: 'a::len word) i \<longleftrightarrow>
     i < LENGTH('a) \<and> i div 8 < length bs \<and> bit (bs ! (i div 8)) (i mod 8)"
proof (induction bs arbitrary: i)
  case Nil
  then show ?case by simp
next
  case (Cons b bs)
  show ?case
  proof (cases "i < 8")
    case True
    then show ?thesis by (auto simp: bit_simps)
  next
    case False
    then obtain j where i: "i = j + 8" by (metis add.commute le_Suc_ex not_less)
    have "\<not> bit b (j + 8)" using bit_imp_le_length[of b "j + 8"] by auto
    moreover have "(j + 8) div 8 = Suc (j div 8)" by simp
    ultimately show ?thesis using Cons.IH[of j] i by (auto simp: bit_simps simp del: div_add_self2)
  qed
qed

lemma le_word_le_bytes_take: "le_word (le_bytes n w) = take_bit (8 * n) w"
proof (induction n arbitrary: w)
  case 0
  then show ?case by simp
next
  case (Suc n)
  show ?case
  proof (rule bit_word_eqI)
    fix i assume i: "i < LENGTH('a)"
    have "bit (le_word (le_bytes (Suc n) w) :: 'a word) i \<longleftrightarrow>
          bit ((ucast (ucast w :: u8) :: 'a word) OR push_bit 8 (take_bit (8 * n) (drop_bit 8 w))) i"
      by (simp add: Suc.IH)
    also have "\<dots> \<longleftrightarrow> bit (take_bit (8 * Suc n) w) i"
      using i by (auto simp: bit_simps)
    finally show "bit (le_word (le_bytes (Suc n) w) :: 'a word) i \<longleftrightarrow> bit (take_bit (8 * Suc n) w) i" .
  qed
qed

lemma le_word_le_bytes:
  "LENGTH('a) \<le> 8 * n \<Longrightarrow> le_word (le_bytes n w) = (w :: 'a::len word)"
  by (simp add: le_word_le_bytes_take take_bit_word_eq_self)

lemma be_word_be_bytes:
  "LENGTH('a) \<le> 8 * n \<Longrightarrow> be_word (be_bytes n w) = (w :: 'a::len word)"
  by (simp add: be_word_def be_bytes_def le_word_le_bytes)

lemma nth_le_bytes: "i < n \<Longrightarrow> le_bytes n w ! i = ucast (drop_bit (8 * i) w)"
proof (induction n arbitrary: w i)
  case 0
  then show ?case by simp
next
  case (Suc n)
  then show ?case by (cases i) (simp_all add: add.commute)
qed

lemma le_bytes_le_word:
  assumes "8 * length bs \<le> LENGTH('a)"
  shows "le_bytes (length bs) (le_word bs :: 'a::len word) = bs"
proof (rule nth_equalityI)
  show "length (le_bytes (length bs) (le_word bs :: 'a word)) = length bs" by simp
next
  fix i assume "i < length (le_bytes (length bs) (le_word bs :: 'a word))"
  then have i: "i < length bs" by simp
  show "le_bytes (length bs) (le_word bs :: 'a word) ! i = bs ! i"
  proof (rule bit_word_eqI)
    fix j assume "j < LENGTH(8)"
    then have j: "j < 8" by simp
    then have "8 * i + j < LENGTH('a)" using i assms by linarith
    then show "bit (le_bytes (length bs) (le_word bs :: 'a word) ! i) j = bit (bs ! i) j"
      using i j by (simp add: nth_le_bytes bit_simps bit_le_word)
  qed
qed

lemma be_bytes_be_word:
  assumes "8 * length bs \<le> LENGTH('a)"
  shows "be_bytes (length bs) (be_word bs :: 'a::len word) = bs"
  using le_bytes_le_word[of "rev bs", where 'a = 'a] assms
  by (simp add: be_word_def be_bytes_def)

end
