(* ===== verification/Utf8.thy ===== *)
theory Utf8
  imports Prelude
begin

text \<open>
  UTF-8 as the standard library checks it. A \<open>&str\<close> of the program is a byte list that
  \<open>from_utf8\<close> accepts; \<open>from_utf8_lossy\<close> replaces every maximal ill-formed subpart by the
  encoding of U+FFFD.
\<close>

text \<open>
  One step of the validation loop, on a first byte and what follows it. \<open>Utf8_char n\<close>: a
  character with \<open>n\<close> continuation bytes. \<open>Utf8_bad n eof\<close>: ill-formed, with \<open>n\<close> further bytes
  consumed before the error was seen, \<open>eof\<close> when the input ended inside the character.
\<close>

datatype utf8_step = Utf8_char nat | Utf8_bad nat bool

definition utf8_cont :: "u8 \<Rightarrow> bool" where
  "utf8_cont b \<longleftrightarrow> 0x80 \<le> b \<and> b \<le> 0xBF"

text \<open>The second byte a first byte admits.\<close>

definition utf8_second :: "u8 \<Rightarrow> u8 \<Rightarrow> bool" where
  "utf8_second b c \<longleftrightarrow>
     (if b = 0xE0 then 0xA0 \<le> c \<and> c \<le> 0xBF
      else if b = 0xED then 0x80 \<le> c \<and> c \<le> 0x9F
      else if b = 0xF0 then 0x90 \<le> c \<and> c \<le> 0xBF
      else if b = 0xF4 then 0x80 \<le> c \<and> c \<le> 0x8F
      else utf8_cont c)"

text \<open>The number of bytes of the character a first byte announces, 0 for none.\<close>

definition utf8_width :: "u8 \<Rightarrow> nat" where
  "utf8_width b =
     (if b < 0x80 then 1
      else if 0xC2 \<le> b \<and> b \<le> 0xDF then 2
      else if 0xE0 \<le> b \<and> b \<le> 0xEF then 3
      else if 0xF0 \<le> b \<and> b \<le> 0xF4 then 4
      else 0)"

fun utf8_conts :: "nat \<Rightarrow> nat \<Rightarrow> bytes \<Rightarrow> utf8_step" where
  "utf8_conts n 0 bs = Utf8_char n"
| "utf8_conts n (Suc k) [] = Utf8_bad n True"
| "utf8_conts n (Suc k) (c # cs) =
     (if utf8_cont c then utf8_conts (Suc n) k cs else Utf8_bad n False)"

definition utf8_first :: "u8 \<Rightarrow> bytes \<Rightarrow> utf8_step" where
  "utf8_first b bs =
     (if utf8_width b = 0 then Utf8_bad 0 False
      else if utf8_width b = 1 then Utf8_char 0
      else (case bs of
         [] \<Rightarrow> Utf8_bad 0 True
       | c # cs \<Rightarrow>
           if utf8_second b c then utf8_conts 1 (utf8_width b - 2) cs else Utf8_bad 0 False))"

text \<open>\<open>core::str::Utf8Error\<close> and \<open>core::str::from_utf8\<close>.\<close>

record utf8_error =
  valid_up_to :: nat
  error_len :: "nat option"

fun utf8_check :: "nat \<Rightarrow> bytes \<Rightarrow> (utf8_error, unit) result" where
  "utf8_check pos [] = Ok ()"
| "utf8_check pos (b # bs) =
     (case utf8_first b bs of
        Utf8_char n \<Rightarrow> utf8_check (pos + Suc n) (drop n bs)
      | Utf8_bad n eof \<Rightarrow>
          Err \<lparr>valid_up_to = pos, error_len = (if eof then None else Some (Suc n))\<rparr>)"

definition from_utf8 :: "bytes \<Rightarrow> (utf8_error, bytes) result" where
  "from_utf8 bs = and_then (utf8_check 0 bs) (\<lambda>_. Ok bs)"

fun utf8_valid :: "bytes \<Rightarrow> bool" where
  "utf8_valid [] = True"
| "utf8_valid (b # bs) =
     (case utf8_first b bs of Utf8_char n \<Rightarrow> utf8_valid (drop n bs) | Utf8_bad n eof \<Rightarrow> False)"

text \<open>\<open>String::from_utf8_lossy\<close>.\<close>

fun from_utf8_lossy :: "bytes \<Rightarrow> bytes" where
  "from_utf8_lossy [] = []"
| "from_utf8_lossy (b # bs) =
     (case utf8_first b bs of
        Utf8_char n \<Rightarrow> b # take n bs @ from_utf8_lossy (drop n bs)
      | Utf8_bad n eof \<Rightarrow> [0xEF, 0xBF, 0xBD] @ from_utf8_lossy (drop n bs))"

lemma utf8_check_not_Panic [simp]: "utf8_check pos bs \<noteq> Panic"
  by (induction pos bs rule: utf8_check.induct) (auto split: utf8_step.split)

lemma utf8_check_valid [simp]: "is_ok (utf8_check pos bs) \<longleftrightarrow> utf8_valid bs"
  by (induction pos bs rule: utf8_check.induct) (auto split: utf8_step.splits)

lemma from_utf8_Ok_iff: "from_utf8 bs = Ok s \<longleftrightarrow> utf8_valid bs \<and> s = bs"
  using utf8_check_valid[of 0 bs] by (cases "utf8_check 0 bs") (auto simp: from_utf8_def)

lemma from_utf8_not_Panic [simp]: "from_utf8 bs \<noteq> Panic"
  by (simp add: from_utf8_def and_then_Panic_iff)

lemma utf8_conts_local:
  "utf8_conts n k bs = Utf8_char m \<Longrightarrow>
   m = n + k \<and> k \<le> length bs \<and> utf8_conts n k (take k bs @ r) = Utf8_char m"
  by (induction n k bs rule: utf8_conts.induct) (auto split: if_splits)

lemma utf8_first_local:
  assumes "utf8_first b bs = Utf8_char n"
  shows "n \<le> length bs \<and> utf8_first b (take n bs @ r) = Utf8_char n"
proof (cases "utf8_width b = 1")
  case True
  then show ?thesis using assms by (simp add: utf8_first_def)
next
  case False
  with assms obtain c cs where bs: "bs = c # cs" "utf8_second b c" "utf8_width b \<noteq> 0"
    "utf8_conts 1 (utf8_width b - 2) cs = Utf8_char n"
    by (auto simp: utf8_first_def split: list.splits if_splits)
  with utf8_conts_local[OF bs(4), of r] False show ?thesis
    by (auto simp: utf8_first_def)
qed

text \<open>Decoding loses nothing on a valid string.\<close>

lemma from_utf8_lossy_valid: "utf8_valid bs \<Longrightarrow> from_utf8_lossy bs = bs"
  by (induction bs rule: utf8_valid.induct) (auto split: utf8_step.splits)

text \<open>What the replacement decoding returns is always a valid string.\<close>

lemma from_utf8_lossy_is_utf8: "utf8_valid (from_utf8_lossy bs)"
proof (induction bs rule: from_utf8_lossy.induct)
  case 1
  then show ?case by simp
next
  case (2 b bs)
  show ?case
  proof (cases "utf8_first b bs")
    case (Utf8_char n)
    then show ?thesis
      using 2(1)[OF Utf8_char] utf8_first_local[OF Utf8_char] by simp
  next
    case (Utf8_bad n eof)
    have "utf8_first 0xEF (0xBF # 0xBD # r) = Utf8_char (Suc 1)" for r
      by (simp add: utf8_first_def utf8_width_def utf8_second_def utf8_cont_def)
    then show ?thesis using 2(2)[OF Utf8_bad] Utf8_bad by simp
  qed
qed

end
