(* ===== verification/Binary.thy ===== *)
theory Binary
  imports Utf8
begin

text \<open>
  \<open>phys/binary.rs\<close>: the buffers behind all decoders and encoders, and the three encodings of
  the program (big endian, little endian and XDR).

  A trait object \<open>&mut dyn BinaryDecoder\<close> is a record of its methods over the shared buffer
  state, one record value per \<open>impl\<close> block. A decoding function threads the buffer and returns
  it with its value; the buffer is lost on an error, which no caller of the program continues
  after. The floating point values are kept as their bit patterns.

  What the decoders and encoders promise is stated and proved in theory \<open>Codec\<close>.
\<close>

section \<open>Steps over a buffer\<close>

type_synonym ('s, 'e, 'a) step = "'s \<Rightarrow> ('e, 'a \<times> 's) result"

definition returnD :: "'a \<Rightarrow> ('s, 'e, 'a) step" where
  "returnD x s = Ok (x, s)"

definition failD :: "'e \<Rightarrow> ('s, 'e, 'a) step" where
  "failD e s = Err e"

definition bindD :: "('s, 'e, 'a) step \<Rightarrow> ('a \<Rightarrow> ('s, 'e, 'b) step) \<Rightarrow> ('s, 'e, 'b) step" where
  "bindD m f s = and_then (m s) (\<lambda>(x, s'). f x s')"

definition liftD :: "('e \<Rightarrow> 'g) \<Rightarrow> ('s, 'e, 'a) step \<Rightarrow> ('s, 'g, 'a) step" where
  "liftD C m s = map_err C (m s)"

definition resultD :: "('e, 'a) result \<Rightarrow> ('s, 'e, 'a) step" where
  "resultD r s = and_then r (\<lambda>x. Ok (x, s))"

text \<open>\<open>for i in 0..n { out[i] = f()? }\<close>.\<close>

fun repeatD :: "nat \<Rightarrow> ('s, 'e, 'a) step \<Rightarrow> ('s, 'e, 'a list) step" where
  "repeatD 0 m = returnD []"
| "repeatD (Suc n) m = bindD m (\<lambda>x. bindD (repeatD n m) (\<lambda>xs. returnD (x # xs)))"

text \<open>\<open>for v in vs { f(v)?; }\<close>.\<close>

fun forD :: "'a list \<Rightarrow> ('a \<Rightarrow> ('s, 'e, unit) step) \<Rightarrow> ('s, 'e, unit) step" where
  "forD [] f = returnD ()"
| "forD (v # vs) f = bindD (f v) (\<lambda>_. forD vs f)"

section \<open>Byte order tag\<close>

datatype endian_order = Big | Little

section \<open>The decoder buffer\<close>

datatype binary_decode_error =
    EndOfInput (eoi_offset: nat) (eoi_max_offset: nat) (eoi_capacity: nat) (eoi_count: nat)
  | I32toI8Conversion nat "32 word"
  | I32toI16Conversion nat "32 word"
  | InvalidBoolean nat u64
  | InvalidClamp nat nat nat
  | InvalidU64Magic u64 bytes
  | InvalidStr nat nat utf8_error
  | NonZero nat nat
  | NotSupported string
  | MissingNull nat
  | RewindAlignment nat nat
  | RewindPastStart nat nat nat
  | SeekAlignment nat nat
  | SeekPastEnd nat nat nat
  | SeekPastStart nat nat nat
  | SkipAlignment nat nat
  | U32toU8Conversion nat u32
  | U32toU16Conversion nat u32
  | UsizeConversion nat u64

record buffer =
  buf_data :: bytes
  buf_offset :: nat
  buf_min_offset :: nat
  buf_max_offset :: nat

type_synonym 'a dec = "(buffer, binary_decode_error, 'a) step"

definition buf_from_bytes :: "bytes \<Rightarrow> buffer" where
  "buf_from_bytes bs =
     \<lparr>buf_data = bs, buf_offset = 0, buf_min_offset = 0, buf_max_offset = length bs\<rparr>"

definition buf_from_bytes_clamped ::
  "bytes \<Rightarrow> nat \<Rightarrow> nat \<Rightarrow> (binary_decode_error, buffer) result" where
  "buf_from_bytes_clamped bs off len =
     (if off > length bs \<or> length bs - off < len then Err (InvalidClamp (length bs) off len)
      else Ok \<lparr>buf_data = bs, buf_offset = off, buf_min_offset = off,
               buf_max_offset = off + len\<rparr>)"

definition buf_capacity :: "buffer \<Rightarrow> nat" where
  "buf_capacity b = buf_max_offset b - buf_min_offset b"

definition buf_len :: "buffer \<Rightarrow> nat" where
  "buf_len b = buf_max_offset b - buf_offset b"

definition buf_is_empty :: "buffer \<Rightarrow> bool" where
  "buf_is_empty b \<longleftrightarrow> buf_len b = 0"

definition buf_check_need :: "nat \<Rightarrow> unit dec" where
  "buf_check_need count b =
     (if buf_len b \<ge> count then Ok ((), b)
      else Err (EndOfInput (buf_offset b) (buf_max_offset b) (buf_capacity b) count))"

definition buf_reset :: "buffer \<Rightarrow> buffer" where
  "buf_reset b = b\<lparr>buf_offset := buf_min_offset b\<rparr>"

definition buf_rewind :: "nat \<Rightarrow> unit dec" where
  "buf_rewind count b =
     (if count > buf_offset b \<or> buf_offset b - count < buf_min_offset b
      then Err (RewindPastStart (buf_offset b) (buf_min_offset b) count)
      else Ok ((), b\<lparr>buf_offset := buf_offset b - count\<rparr>))"

definition buf_seek :: "nat \<Rightarrow> unit dec" where
  "buf_seek off b =
     (if off < buf_min_offset b then Err (SeekPastStart off (buf_min_offset b) (buf_capacity b))
      else if off > buf_max_offset b then Err (SeekPastEnd off (buf_max_offset b) (buf_capacity b))
      else Ok ((), b\<lparr>buf_offset := off\<rparr>))"

definition buf_skip :: "nat \<Rightarrow> unit dec" where
  "buf_skip count =
     bindD (buf_check_need count) (\<lambda>_ b. Ok ((), b\<lparr>buf_offset := buf_offset b + count\<rparr>))"

definition buf_get_bytes :: "nat \<Rightarrow> bytes dec" where
  "buf_get_bytes len =
     bindD (buf_check_need len) (\<lambda>_ b.
       and_then (slice (buf_data b) (buf_offset b) (buf_offset b + len)) (\<lambda>v.
         Ok (v, b\<lparr>buf_offset := buf_offset b + len\<rparr>)))"

definition buf_skip_zeros :: "nat \<Rightarrow> unit dec" where
  "buf_skip_zeros count b =
     bindD (buf_get_bytes count) (\<lambda>bs b'.
       if \<exists>x \<in> set bs. x \<noteq> 0 then Err (NonZero (buf_offset b) count) else Ok ((), b')) b"

definition buf_is_skip_zeros :: "nat \<Rightarrow> bool dec" where
  "buf_is_skip_zeros count b =
     bindD (buf_get_bytes count) (\<lambda>bs b'.
       if \<exists>x \<in> set bs. x \<noteq> 0 then Ok (False, b'\<lparr>buf_offset := buf_offset b\<rparr>)
       else Ok (True, b')) b"

definition buf_get_1_byte :: "u8 dec" where
  "buf_get_1_byte =
     bindD (buf_check_need 1) (\<lambda>_ b.
       and_then (index (buf_data b) (buf_offset b)) (\<lambda>v.
         Ok (v, b\<lparr>buf_offset := buf_offset b + 1\<rparr>)))"

definition buf_get_2_bytes :: "bytes dec" where
  "buf_get_2_bytes =
     bindD (buf_check_need 2) (\<lambda>_ b.
       and_then (slice (buf_data b) (buf_offset b) (buf_offset b + 2)) (\<lambda>v.
         Ok (v, b\<lparr>buf_offset := buf_offset b + 2\<rparr>)))"

definition buf_get_4_bytes :: "bytes dec" where
  "buf_get_4_bytes =
     bindD (buf_check_need 4) (\<lambda>_ b.
       and_then (slice (buf_data b) (buf_offset b) (buf_offset b + 4)) (\<lambda>v.
         Ok (v, b\<lparr>buf_offset := buf_offset b + 4\<rparr>)))"

definition buf_get_8_bytes :: "bytes dec" where
  "buf_get_8_bytes =
     bindD (buf_check_need 8) (\<lambda>_ b.
       and_then (slice (buf_data b) (buf_offset b) (buf_offset b + 8)) (\<lambda>v.
         Ok (v, b\<lparr>buf_offset := buf_offset b + 8\<rparr>)))"

definition buf_get_str :: "nat \<Rightarrow> bytes dec" where
  "buf_get_str len b =
     bindD (buf_get_bytes len) (\<lambda>bs b'.
       map_err (InvalidStr (buf_offset b) len) (and_then (from_utf8 bs) (\<lambda>s. Ok (s, b')))) b"

text \<open>
  \<open>get_str_null\<close> looks for a NUL from the offset to \<open>max_offset\<close>; \<open>k\<close> bytes have been seen.
\<close>

fun buf_find_null :: "nat \<Rightarrow> buffer \<Rightarrow> nat \<Rightarrow> (binary_decode_error, nat) result" where
  "buf_find_null 0 b k = Err (MissingNull (buf_offset b))"
| "buf_find_null (Suc n) b k =
     and_then (index (buf_data b) (buf_offset b + k)) (\<lambda>x.
       if x = 0 then Ok (buf_offset b + k) else buf_find_null n b (Suc k))"

definition buf_get_str_null :: "bytes dec" where
  "buf_get_str_null b =
     and_then (buf_find_null (buf_len b) b 0) (\<lambda>null_offset.
     and_then (slice (buf_data b) (buf_offset b) null_offset) (\<lambda>bs.
     map_err (InvalidStr (buf_offset b) (null_offset - buf_offset b))
       (and_then (from_utf8 bs) (\<lambda>s. Ok (s, b\<lparr>buf_offset := null_offset + 1\<rparr>)))))"

section \<open>The decoders\<close>

record binary_decoder =
  rewind :: "nat \<Rightarrow> unit dec"
  seek :: "nat \<Rightarrow> unit dec"
  skip :: "nat \<Rightarrow> unit dec"
  skip_zeros :: "nat \<Rightarrow> unit dec"
  is_skip_zeros :: "nat \<Rightarrow> bool dec"
  get_bool :: "bool dec"
  get_bytes :: "bytes dec"
  get_bytes_n :: "nat \<Rightarrow> bytes dec"
  get_str :: "bytes dec"
  get_str_n :: "nat \<Rightarrow> bytes dec"
  get_f32 :: "32 word dec"
  get_f64 :: "64 word dec"
  get_i8 :: "8 word dec"
  get_i16 :: "16 word dec"
  get_i32 :: "32 word dec"
  get_i64 :: "64 word dec"
  get_u8 :: "u8 dec"
  get_u16 :: "u16 dec"
  get_u32 :: "u32 dec"
  get_u64 :: "u64 dec"

text \<open>The body all three \<open>get_bool\<close> share, over their own \<open>get_u32\<close>.\<close>

definition bool_of_u32 :: "u32 dec \<Rightarrow> bool dec" where
  "bool_of_u32 m b =
     bindD m (\<lambda>value b'.
       if value = 0 then Ok (False, b')
       else if value = 1 then Ok (True, b')
       else Err (InvalidBoolean (buf_offset b) (ucast value))) b"

definition wordD :: "(bytes \<Rightarrow> 'a) \<Rightarrow> bytes dec \<Rightarrow> 'a dec" where
  "wordD conv m = bindD m (\<lambda>bs. returnD (conv bs))"

definition BigEndianDecoder :: binary_decoder where
  "BigEndianDecoder = \<lparr>
     rewind = buf_rewind,
     seek = buf_seek,
     skip = buf_skip,
     skip_zeros = buf_skip_zeros,
     is_skip_zeros = buf_is_skip_zeros,
     get_bool = bool_of_u32 (wordD be_word buf_get_4_bytes),
     get_bytes = failD (NotSupported ''get_bytes''),
     get_bytes_n = buf_get_bytes,
     get_str = buf_get_str_null,
     get_str_n = buf_get_str,
     get_f32 = wordD be_word buf_get_4_bytes,
     get_f64 = wordD be_word buf_get_8_bytes,
     get_i8 = buf_get_1_byte,
     get_i16 = wordD be_word buf_get_2_bytes,
     get_i32 = wordD be_word buf_get_4_bytes,
     get_i64 = wordD be_word buf_get_8_bytes,
     get_u8 = buf_get_1_byte,
     get_u16 = wordD be_word buf_get_2_bytes,
     get_u32 = wordD be_word buf_get_4_bytes,
     get_u64 = wordD be_word buf_get_8_bytes\<rparr>"

definition LittleEndianDecoder :: binary_decoder where
  "LittleEndianDecoder = \<lparr>
     rewind = buf_rewind,
     seek = buf_seek,
     skip = buf_skip,
     skip_zeros = buf_skip_zeros,
     is_skip_zeros = buf_is_skip_zeros,
     get_bool = bool_of_u32 (wordD le_word buf_get_4_bytes),
     get_bytes = failD (NotSupported ''get_bytes''),
     get_bytes_n = buf_get_bytes,
     get_str = buf_get_str_null,
     get_str_n = buf_get_str,
     get_f32 = wordD le_word buf_get_4_bytes,
     get_f64 = wordD le_word buf_get_8_bytes,
     get_i8 = buf_get_1_byte,
     get_i16 = wordD le_word buf_get_2_bytes,
     get_i32 = wordD le_word buf_get_4_bytes,
     get_i64 = wordD le_word buf_get_8_bytes,
     get_u8 = buf_get_1_byte,
     get_u16 = wordD le_word buf_get_2_bytes,
     get_u32 = wordD le_word buf_get_4_bytes,
     get_u64 = wordD le_word buf_get_8_bytes\<rparr>"

text \<open>XDR pads every datum to four bytes and widens the small integers to 32 bits.\<close>

definition xdr_consume_padding :: "nat \<Rightarrow> unit dec" where
  "xdr_consume_padding len =
     (if len mod 4 \<noteq> 0 then buf_skip_zeros (4 - len mod 4) else returnD ())"

definition xdr_aligned :: "(nat \<Rightarrow> binary_decode_error) \<Rightarrow> (nat \<Rightarrow> 'a dec) \<Rightarrow> nat \<Rightarrow> 'a dec" where
  "xdr_aligned err m n = (if n mod 4 \<noteq> 0 then failD (err n) else m n)"

definition xdr_get_u32 :: "u32 dec" where
  "xdr_get_u32 = wordD be_word buf_get_4_bytes"

definition xdr_get_bytes_n :: "nat \<Rightarrow> bytes dec" where
  "xdr_get_bytes_n len =
     bindD (buf_get_bytes len) (\<lambda>v. bindD (xdr_consume_padding len) (\<lambda>_. returnD v))"

definition xdr_get_str_n :: "nat \<Rightarrow> bytes dec" where
  "xdr_get_str_n len =
     bindD (buf_get_str len) (\<lambda>v. bindD (xdr_consume_padding len) (\<lambda>_. returnD v))"

definition xdr_get_i8 :: "8 word dec" where
  "xdr_get_i8 b =
     bindD (wordD be_word buf_get_4_bytes) (\<lambda>value :: 32 word.
       if - 128 \<le> sint value \<and> sint value \<le> 127 then returnD (ucast value)
       else failD (I32toI8Conversion (buf_offset b) value)) b"

definition xdr_get_i16 :: "16 word dec" where
  "xdr_get_i16 b =
     bindD (wordD be_word buf_get_4_bytes) (\<lambda>value :: 32 word.
       if - 32768 \<le> sint value \<and> sint value \<le> 32767 then returnD (ucast value)
       else failD (I32toI16Conversion (buf_offset b) value)) b"

definition xdr_get_u8 :: "u8 dec" where
  "xdr_get_u8 b =
     bindD xdr_get_u32 (\<lambda>value.
       let value = (if value \<ge> 0xffffff80 then value - 0xffffff00 else value) in
       if value \<le> 0xff then returnD (ucast value)
       else failD (U32toU8Conversion (buf_offset b) value)) b"

definition xdr_get_u16 :: "u16 dec" where
  "xdr_get_u16 b =
     bindD xdr_get_u32 (\<lambda>value.
       if value \<le> 0xffff then returnD (ucast value)
       else failD (U32toU16Conversion (buf_offset b) value)) b"

text \<open>\<open>get_usize_32\<close>: on a 64-bit target the conversion from \<open>u32\<close> always succeeds.\<close>

definition xdr_get_usize_32 :: "nat dec" where
  "xdr_get_usize_32 = bindD xdr_get_u32 (\<lambda>value. returnD (unat value))"

definition XdrDecoder :: binary_decoder where
  "XdrDecoder = \<lparr>
     rewind = xdr_aligned (\<lambda>n. RewindAlignment n 4) buf_rewind,
     seek = xdr_aligned (\<lambda>n. SeekAlignment n 4) buf_seek,
     skip = xdr_aligned (\<lambda>n. SkipAlignment n 4) buf_skip,
     skip_zeros = xdr_aligned (\<lambda>n. SkipAlignment n 4) buf_skip_zeros,
     is_skip_zeros = xdr_aligned (\<lambda>n. SkipAlignment n 4) buf_is_skip_zeros,
     get_bool = bool_of_u32 xdr_get_u32,
     get_bytes = bindD xdr_get_usize_32 xdr_get_bytes_n,
     get_bytes_n = xdr_get_bytes_n,
     get_str = bindD xdr_get_usize_32 xdr_get_str_n,
     get_str_n = xdr_get_str_n,
     get_f32 = wordD be_word buf_get_4_bytes,
     get_f64 = wordD be_word buf_get_8_bytes,
     get_i8 = xdr_get_i8,
     get_i16 = xdr_get_i16,
     get_i32 = wordD be_word buf_get_4_bytes,
     get_i64 = wordD be_word buf_get_8_bytes,
     get_u8 = xdr_get_u8,
     get_u16 = xdr_get_u16,
     get_u32 = xdr_get_u32,
     get_u64 = wordD be_word buf_get_8_bytes\<rparr>"

text \<open>The default methods of the trait.\<close>

definition get_usize_16 :: "binary_decoder \<Rightarrow> nat dec" where
  "get_usize_16 d = bindD (get_u16 d) (\<lambda>value. returnD (unat value))"

definition get_usize_32 :: "binary_decoder \<Rightarrow> nat dec" where
  "get_usize_32 d = bindD (get_u32 d) (\<lambda>value. returnD (unat value))"

definition get_usize_64 :: "binary_decoder \<Rightarrow> nat dec" where
  "get_usize_64 d = bindD (get_u64 d) (\<lambda>value. returnD (unat value))"

text \<open>
  \<open>BigLittleEndianDecoder\<close> is its byte order together with a buffer;
  \<open>decoder_as_mut\<close> selects the methods.
\<close>

definition endian_decoder :: "endian_order \<Rightarrow> binary_decoder" where
  "endian_decoder ord = (case ord of Big \<Rightarrow> BigEndianDecoder | Little \<Rightarrow> LittleEndianDecoder)"

definition from_u64_magic :: "bytes \<Rightarrow> u64 \<Rightarrow> (binary_decode_error, endian_order \<times> buffer) result" where
  "from_u64_magic bs magic =
     and_then (get_u64 LittleEndianDecoder (buf_from_bytes bs)) (\<lambda>(data_magic, b).
     if data_magic = magic then Ok (Little, b)
     else and_then (get_u64 BigEndianDecoder (buf_from_bytes bs)) (\<lambda>(data_magic, b).
       if data_magic = magic then Ok (Big, b)
       else Err (InvalidU64Magic magic (le_bytes 8 data_magic))))"


section \<open>The encoders\<close>

datatype binary_encode_error =
    EndOfOutput nat nat nat
  | EncNotSupported string
  | EncRewindPastStart nat nat
  | EncSeekPastEnd nat nat
  | EncUsizeConversion nat nat

record enc_buffer =
  enc_data :: bytes
  enc_offset :: nat

type_synonym 'a enc = "(enc_buffer, binary_encode_error, 'a) step"

definition enc_to_bytes :: "bytes \<Rightarrow> enc_buffer" where
  "enc_to_bytes bs = \<lparr>enc_data = bs, enc_offset = 0\<rparr>"

definition enc_available :: "enc_buffer \<Rightarrow> nat" where
  "enc_available b = length (enc_data b) - enc_offset b"

definition enc_check_need :: "nat \<Rightarrow> unit enc" where
  "enc_check_need count b =
     (if enc_available b \<ge> count then Ok ((), b)
      else Err (EndOfOutput (enc_offset b) (length (enc_data b)) count))"

definition enc_finish :: "enc_buffer \<Rightarrow> (binary_encode_error, bytes) result" where
  "enc_finish b = slice (enc_data b) 0 (enc_offset b)"

definition enc_reset :: "enc_buffer \<Rightarrow> enc_buffer" where
  "enc_reset b = b\<lparr>enc_offset := 0\<rparr>"

definition enc_rewind :: "nat \<Rightarrow> unit enc" where
  "enc_rewind count b =
     (if count > enc_offset b then Err (EncRewindPastStart (enc_offset b) count)
      else Ok ((), b\<lparr>enc_offset := enc_offset b - count\<rparr>))"

definition enc_seek :: "nat \<Rightarrow> unit enc" where
  "enc_seek off b =
     (if off > length (enc_data b) then Err (EncSeekPastEnd off (length (enc_data b)))
      else Ok ((), b\<lparr>enc_offset := off\<rparr>))"

definition enc_skip :: "nat \<Rightarrow> unit enc" where
  "enc_skip count =
     bindD (enc_check_need count) (\<lambda>_ b. Ok ((), b\<lparr>enc_offset := enc_offset b + count\<rparr>))"

text \<open>
  \<open>put_1_byte\<close>, \<open>put_2_bytes\<close>, \<open>put_4_bytes\<close>, \<open>put_8_bytes\<close> and \<open>put_bytes\<close> are the same code
  at different lengths; \<open>put_zeros\<close> fills instead of copying.
\<close>

definition enc_put_bytes :: "bytes \<Rightarrow> unit enc" where
  "enc_put_bytes v =
     bindD (enc_check_need (length v)) (\<lambda>_ b.
       Ok ((), b\<lparr>enc_data := overwrite (enc_data b) (enc_offset b) v,
                 enc_offset := enc_offset b + length v\<rparr>))"

definition enc_put_zeros :: "nat \<Rightarrow> unit enc" where
  "enc_put_zeros count =
     bindD (enc_check_need count) (\<lambda>_ b.
       Ok ((), b\<lparr>enc_data := overwrite (enc_data b) (enc_offset b) (replicate count 0),
                 enc_offset := enc_offset b + count\<rparr>))"

record binary_encoder =
  put_bool :: "bool \<Rightarrow> unit enc"
  put_bytes :: "bytes \<Rightarrow> unit enc"
  put_bytes_n :: "bytes \<Rightarrow> unit enc"
  put_str :: "bytes \<Rightarrow> unit enc"
  put_str_n :: "bytes \<Rightarrow> unit enc"
  put_f32 :: "32 word \<Rightarrow> unit enc"
  put_f64 :: "64 word \<Rightarrow> unit enc"
  put_i8 :: "8 word \<Rightarrow> unit enc"
  put_i16 :: "16 word \<Rightarrow> unit enc"
  put_i32 :: "32 word \<Rightarrow> unit enc"
  put_i64 :: "64 word \<Rightarrow> unit enc"
  put_u8 :: "u8 \<Rightarrow> unit enc"
  put_u16 :: "u16 \<Rightarrow> unit enc"
  put_u32 :: "u32 \<Rightarrow> unit enc"
  put_u64 :: "u64 \<Rightarrow> unit enc"
  put_zeros :: "nat \<Rightarrow> unit enc"

definition BigEndianEncoder :: binary_encoder where
  "BigEndianEncoder = \<lparr>
     put_bool = (\<lambda>v. enc_put_bytes (be_bytes 4 (if v then 1 else 0 :: u32))),
     put_bytes = (\<lambda>_. failD (EncNotSupported ''put_bytes'')),
     put_bytes_n = enc_put_bytes,
     put_str = (\<lambda>v. bindD (enc_put_bytes v) (\<lambda>_. enc_put_bytes [0])),
     put_str_n = enc_put_bytes,
     put_f32 = (\<lambda>v. enc_put_bytes (be_bytes 4 v)),
     put_f64 = (\<lambda>v. enc_put_bytes (be_bytes 8 v)),
     put_i8 = (\<lambda>v. enc_put_bytes [v]),
     put_i16 = (\<lambda>v. enc_put_bytes (be_bytes 2 v)),
     put_i32 = (\<lambda>v. enc_put_bytes (be_bytes 4 v)),
     put_i64 = (\<lambda>v. enc_put_bytes (be_bytes 8 v)),
     put_u8 = (\<lambda>v. enc_put_bytes [v]),
     put_u16 = (\<lambda>v. enc_put_bytes (be_bytes 2 v)),
     put_u32 = (\<lambda>v. enc_put_bytes (be_bytes 4 v)),
     put_u64 = (\<lambda>v. enc_put_bytes (be_bytes 8 v)),
     put_zeros = enc_put_zeros\<rparr>"

definition LittleEndianEncoder :: binary_encoder where
  "LittleEndianEncoder = \<lparr>
     put_bool = (\<lambda>v. enc_put_bytes (le_bytes 4 (if v then 1 else 0 :: u32))),
     put_bytes = (\<lambda>_. failD (EncNotSupported ''put_bytes'')),
     put_bytes_n = enc_put_bytes,
     put_str = (\<lambda>v. bindD (enc_put_bytes v) (\<lambda>_. enc_put_bytes [0])),
     put_str_n = enc_put_bytes,
     put_f32 = (\<lambda>v. enc_put_bytes (le_bytes 4 v)),
     put_f64 = (\<lambda>v. enc_put_bytes (le_bytes 8 v)),
     put_i8 = (\<lambda>v. enc_put_bytes [v]),
     put_i16 = (\<lambda>v. enc_put_bytes (le_bytes 2 v)),
     put_i32 = (\<lambda>v. enc_put_bytes (le_bytes 4 v)),
     put_i64 = (\<lambda>v. enc_put_bytes (le_bytes 8 v)),
     put_u8 = (\<lambda>v. enc_put_bytes [v]),
     put_u16 = (\<lambda>v. enc_put_bytes (le_bytes 2 v)),
     put_u32 = (\<lambda>v. enc_put_bytes (le_bytes 4 v)),
     put_u64 = (\<lambda>v. enc_put_bytes (le_bytes 8 v)),
     put_zeros = enc_put_zeros\<rparr>"

definition xdr_produce_padding :: "nat \<Rightarrow> unit enc" where
  "xdr_produce_padding len =
     (if len mod 4 \<noteq> 0 then enc_put_zeros (4 - len mod 4) else returnD ())"

definition xdr_put_bytes_n :: "bytes \<Rightarrow> unit enc" where
  "xdr_put_bytes_n v = bindD (enc_put_bytes v) (\<lambda>_. xdr_produce_padding (length v))"

definition xdr_put_usize_32 :: "nat \<Rightarrow> unit enc" where
  "xdr_put_usize_32 v b =
     (if v < 2 ^ 32 then enc_put_bytes (be_bytes 4 (word_of_nat v :: u32)) b
      else Err (EncUsizeConversion (enc_offset b) v))"

definition xdr_put_bytes :: "bytes \<Rightarrow> unit enc" where
  "xdr_put_bytes v = bindD (xdr_put_usize_32 (length v)) (\<lambda>_. xdr_put_bytes_n v)"

definition xdr_put_u8 :: "u8 \<Rightarrow> unit enc" where
  "xdr_put_u8 v =
     (let value = (ucast v :: u32);
          value = (if value > 127 then value + 0xffffff00 else value) in
      enc_put_bytes (be_bytes 4 value))"

definition XdrEncoder :: binary_encoder where
  "XdrEncoder = \<lparr>
     put_bool = (\<lambda>v. enc_put_bytes (be_bytes 4 (if v then 1 else 0 :: u32))),
     put_bytes = xdr_put_bytes,
     put_bytes_n = xdr_put_bytes_n,
     put_str = xdr_put_bytes,
     put_str_n = xdr_put_bytes_n,
     put_f32 = (\<lambda>v. enc_put_bytes (be_bytes 4 v)),
     put_f64 = (\<lambda>v. enc_put_bytes (be_bytes 8 v)),
     put_i8 = (\<lambda>v. enc_put_bytes (be_bytes 4 (scast v :: 32 word))),
     put_i16 = (\<lambda>v. enc_put_bytes (be_bytes 4 (scast v :: 32 word))),
     put_i32 = (\<lambda>v. enc_put_bytes (be_bytes 4 v)),
     put_i64 = (\<lambda>v. enc_put_bytes (be_bytes 8 v)),
     put_u8 = xdr_put_u8,
     put_u16 = (\<lambda>v. enc_put_bytes (be_bytes 4 (ucast v :: u32))),
     put_u32 = (\<lambda>v. enc_put_bytes (be_bytes 4 v)),
     put_u64 = (\<lambda>v. enc_put_bytes (be_bytes 8 v)),
     put_zeros = enc_put_zeros\<rparr>"

definition endian_encoder :: "endian_order \<Rightarrow> binary_encoder" where
  "endian_encoder ord = (case ord of Big \<Rightarrow> BigEndianEncoder | Little \<Rightarrow> LittleEndianEncoder)"

end
