(* ===== verification/Codec.thy ===== *)
theory Codec
  imports Binary
begin

text \<open>
  The contracts of the decoders and encoders of \<open>phys/binary.rs\<close>.

  \<^item> The locale \<open>decoder_contract\<close>: no method of a \<open>BinaryDecoder\<close> panics on a well-formed
    buffer, and each leaves a well-formed buffer over the same data. It is interpreted on the
    three decoders, so that every structure decoder proved safe over the contract is safe for
    each of them.
  \<^item> The locale \<open>codec\<close>: what the methods of an encoder write is what the methods of a
    decoder read. It is interpreted on the two byte orders and, for the integers, on XDR.
  \<^item> The laws that compose the contracts along \<^const>\<open>bindD\<close>, in the collections
    \<open>dec_safe\<close>, \<open>dec_reads\<close> and \<open>enc_writes\<close>.
\<close>

text \<open>The invariant of a decoder buffer, and the parts of it no operation changes.\<close>

definition wf_buf :: "buffer \<Rightarrow> bool" where
  "wf_buf b \<longleftrightarrow> buf_min_offset b \<le> buf_offset b \<and> buf_offset b \<le> buf_max_offset b \<and>
     buf_max_offset b \<le> length (buf_data b)"

definition same_frame :: "buffer \<Rightarrow> buffer \<Rightarrow> bool" where
  "same_frame b b' \<longleftrightarrow> buf_data b' = buf_data b \<and> buf_min_offset b' = buf_min_offset b \<and>
     buf_max_offset b' = buf_max_offset b"

definition safe_dec :: "(buffer, 'e, 'a) step \<Rightarrow> bool" where
  "safe_dec m \<longleftrightarrow> (\<forall>b. wf_buf b \<longrightarrow>
     (case m b of Ok (x, b') \<Rightarrow> wf_buf b' \<and> same_frame b b' | Err e \<Rightarrow> True | Panic \<Rightarrow> False))"

text \<open>A decoding step that finds the bytes \<open>bs\<close> at its offset returns \<open>x\<close> and moves past them.\<close>

definition reads :: "(buffer, 'e, 'a) step \<Rightarrow> bytes \<Rightarrow> 'a \<Rightarrow> bool" where
  "reads m bs x \<longleftrightarrow> (\<forall>b. wf_buf b \<longrightarrow> buf_offset b + length bs \<le> buf_max_offset b \<longrightarrow>
     take (length bs) (drop (buf_offset b) (buf_data b)) = bs \<longrightarrow>
     m b = Ok (x, b\<lparr>buf_offset := buf_offset b + length bs\<rparr>))"

text \<open>An encoding step with room for the bytes \<open>bs\<close> puts them at its offset.\<close>

definition writes :: "(enc_buffer, 'e, unit) step \<Rightarrow> bytes \<Rightarrow> bool" where
  "writes m bs \<longleftrightarrow> (\<forall>b. enc_offset b + length bs \<le> length (enc_data b) \<longrightarrow>
     m b = Ok ((), b\<lparr>enc_data := overwrite (enc_data b) (enc_offset b) bs,
                     enc_offset := enc_offset b + length bs\<rparr>))"

section \<open>Composition\<close>

lemma safe_decD:
  assumes "safe_dec m" "wf_buf b"
  shows "m b \<noteq> Panic" and "m b = Ok (x, b') \<Longrightarrow> wf_buf b' \<and> same_frame b b'"
  using assms by (auto simp: safe_dec_def split: result.splits)

lemma same_frame_refl [simp]: "same_frame b b"
  by (simp add: same_frame_def)

lemma same_frame_trans: "same_frame a b \<Longrightarrow> same_frame b c \<Longrightarrow> same_frame a c"
  by (simp add: same_frame_def)

lemma safe_returnD [dec_safe, simp]: "safe_dec (returnD x)"
  by (simp add: safe_dec_def returnD_def)

lemma safe_failD [dec_safe, simp]: "safe_dec (failD e)"
  by (simp add: safe_dec_def failD_def)

lemma safe_resultD [dec_safe]: "r \<noteq> Panic \<Longrightarrow> safe_dec (resultD r)"
  by (cases r) (simp_all add: safe_dec_def resultD_def)

lemma safe_bindD [dec_safe]:
  assumes "safe_dec m" "\<And>x. safe_dec (f x)"
  shows "safe_dec (bindD m f)"
  unfolding safe_dec_def
proof (intro allI impI)
  fix b assume wf: "wf_buf b"
  show "case bindD m f b of Ok (x, b') \<Rightarrow> wf_buf b' \<and> same_frame b b' | Err e \<Rightarrow> True | Panic \<Rightarrow> False"
  proof (cases "m b")
    case (Ok y)
    obtain x b1 where y: "y = (x, b1)" by (cases y)
    then have "wf_buf b1" "same_frame b b1" using safe_decD[OF assms(1) wf] Ok by auto
    with assms(2)[of x] show ?thesis
      by (auto simp: bindD_def Ok y safe_dec_def split: result.splits intro: same_frame_trans)
  next
    case Panic
    then show ?thesis using safe_decD[OF assms(1) wf] by simp
  qed (simp add: bindD_def)
qed

lemma safe_liftD [dec_safe]: "safe_dec m \<Longrightarrow> safe_dec (liftD C m)"
  unfolding safe_dec_def liftD_def by (auto split: result.splits simp: map_err_Err_iff)

lemma safe_if [dec_safe]: "(c \<Longrightarrow> safe_dec m) \<Longrightarrow> (\<not> c \<Longrightarrow> safe_dec n) \<Longrightarrow> safe_dec (if c then m else n)"
  by simp

lemma safe_repeatD [dec_safe]: "safe_dec m \<Longrightarrow> safe_dec (repeatD n m)"
  by (induction n) (auto intro!: safe_bindD)

lemma readsD:
  "reads m bs x \<Longrightarrow> wf_buf b \<Longrightarrow> buf_offset b + length bs \<le> buf_max_offset b \<Longrightarrow>
   take (length bs) (drop (buf_offset b) (buf_data b)) = bs \<Longrightarrow>
   m b = Ok (x, b\<lparr>buf_offset := buf_offset b + length bs\<rparr>)"
  by (simp add: reads_def)

lemma reads_returnD [dec_reads]: "reads (returnD x) [] x"
  by (simp add: reads_def returnD_def)

lemma reads_returnD_eq: "x = y \<Longrightarrow> reads (returnD x) [] y"
  by (simp add: reads_returnD)

lemma reads_bindD [dec_reads]:
  assumes "reads m bs x" "reads (f x) cs y"
  shows "reads (bindD m f) (bs @ cs) y"
  unfolding reads_def
proof (intro allI impI)
  fix b :: buffer
  assume b: "wf_buf b" "buf_offset b + length (bs @ cs) \<le> buf_max_offset b"
    "take (length (bs @ cs)) (drop (buf_offset b) (buf_data b)) = bs @ cs"
  let ?b = "b\<lparr>buf_offset := buf_offset b + length bs\<rparr>"
  have bs: "take (length bs) (drop (buf_offset b) (buf_data b)) = bs"
    using arg_cong[OF b(3), of "take (length bs)"] by simp
  have cs: "take (length cs) (drop (buf_offset ?b) (buf_data ?b)) = cs"
    using arg_cong[OF b(3), of "drop (length bs)"] by (simp add: drop_take add.commute)
  have "m b = Ok (x, ?b)" using assms(1) b bs by (simp add: reads_def)
  moreover have "f x ?b = Ok (y, ?b\<lparr>buf_offset := buf_offset ?b + length cs\<rparr>)"
    using assms(2) b cs unfolding reads_def by (auto simp: add.assoc wf_buf_def)
  ultimately show "bindD m f b = Ok (y, b\<lparr>buf_offset := buf_offset b + length (bs @ cs)\<rparr>)"
    by (simp add: bindD_def add.assoc)
qed

lemma reads_bindD_last [dec_reads]:
  "reads m bs x \<Longrightarrow> reads (f x) [] y \<Longrightarrow> reads (bindD m f) bs y"
  using reads_bindD[of m bs x f "[]" y] by simp

lemma reads_liftD [dec_reads]: "reads m bs x \<Longrightarrow> reads (liftD C m) bs x"
  by (simp add: reads_def liftD_def)

lemma reads_resultD: "r = Ok x \<Longrightarrow> reads (resultD r) [] x"
  by (simp add: reads_def resultD_def)

lemma reads_bindD_nil: "reads m [] x \<Longrightarrow> reads (f x) cs y \<Longrightarrow> reads (bindD m f) cs y"
  using reads_bindD[of m "[]" x f cs y] by simp

lemma writes_returnD [enc_writes]: "writes (returnD ()) []"
  by (simp add: writes_def returnD_def overwrite_def)

lemma writes_bindD [enc_writes]:
  assumes "writes m bs" "writes (f ()) cs"
  shows "writes (bindD m f) (bs @ cs)"
  unfolding writes_def
proof (intro allI impI)
  fix b :: enc_buffer assume b: "enc_offset b + length (bs @ cs) \<le> length (enc_data b)"
  let ?b = "b\<lparr>enc_data := overwrite (enc_data b) (enc_offset b) bs, enc_offset := enc_offset b + length bs\<rparr>"
  have "m b = Ok ((), ?b)" using assms(1) b by (simp add: writes_def)
  moreover have "f () ?b = Ok ((), ?b\<lparr>enc_data := overwrite (enc_data ?b) (enc_offset ?b) cs,
                     enc_offset := enc_offset ?b + length cs\<rparr>)"
    using assms(2)[unfolded writes_def, rule_format, of ?b] b by (simp add: length_overwrite)
  ultimately show "bindD m f b = Ok ((), b\<lparr>enc_data := overwrite (enc_data b) (enc_offset b) (bs @ cs),
                     enc_offset := enc_offset b + length (bs @ cs)\<rparr>)"
    using b by (simp add: bindD_def overwrite_overwrite add.assoc)
qed

lemma writes_liftD [enc_writes]: "writes m bs \<Longrightarrow> writes (liftD C m) bs"
  by (simp add: writes_def liftD_def)

lemma writes_put_bytes [enc_writes]: "writes (enc_put_bytes bs) bs"
  by (auto simp: writes_def enc_put_bytes_def bindD_def enc_check_need_def enc_available_def)

lemma writes_put_zeros [enc_writes]: "writes (enc_put_zeros n) (replicate n 0)"
  by (auto simp: writes_def enc_put_zeros_def bindD_def enc_check_need_def enc_available_def)

text \<open>
  Writing a layout into a fresh buffer of exactly its length and reading it back: what the
  round trip properties of the structures are instances of.
\<close>

lemma writes_reads_roundtrip:
  assumes "writes m bs" "reads n bs x" "length bs = length dst"
  shows "\<exists>eb. m (enc_to_bytes dst) = Ok ((), eb) \<and> enc_finish eb = Ok bs \<and>
         (\<exists>b. n (buf_from_bytes bs) = Ok (x, b) \<and> buf_is_empty b)"
proof -
  have "m (enc_to_bytes dst) = Ok ((), \<lparr>enc_data = bs, enc_offset = length bs\<rparr>)"
    using assms(1,3) by (simp add: writes_def enc_to_bytes_def overwrite_def)
  moreover have "n (buf_from_bytes bs) = Ok (x, (buf_from_bytes bs)\<lparr>buf_offset := length bs\<rparr>)"
    using assms(2) by (simp add: reads_def buf_from_bytes_def wf_buf_def)
  ultimately show ?thesis
    by (simp add: enc_finish_def slice_def slice_get_def buf_is_empty_def buf_len_def buf_from_bytes_def)
qed

section \<open>The buffer operations\<close>

lemma wf_buf_from_bytes [simp]: "wf_buf (buf_from_bytes bs)"
  by (simp add: wf_buf_def buf_from_bytes_def)

lemma wf_buf_from_bytes_clamped: "buf_from_bytes_clamped bs off len = Ok b \<Longrightarrow> wf_buf b"
  by (auto simp: wf_buf_def buf_from_bytes_clamped_def split: if_splits)

lemmas buffer_defs = bindD_def buf_check_need_def buf_len_def slice_def slice_get_def
  index_def index_get_def wf_buf_def same_frame_def

lemma safe_buffer_ops [dec_safe]:
  "safe_dec (buf_rewind n)" "safe_dec (buf_seek n)" "safe_dec (buf_skip n)"
  "safe_dec (buf_get_bytes n)" "safe_dec buf_get_1_byte" "safe_dec buf_get_2_bytes"
  "safe_dec buf_get_4_bytes" "safe_dec buf_get_8_bytes"
  by (auto simp: safe_dec_def buffer_defs buf_rewind_def buf_seek_def buf_skip_def buf_get_bytes_def
      buf_get_1_byte_def buf_get_2_bytes_def buf_get_4_bytes_def buf_get_8_bytes_def)

text \<open>The operations that look back at the offset they started from.\<close>

lemma safe_from_start:
  assumes "safe_dec m"
    and "\<And>b x b'. wf_buf b \<Longrightarrow> wf_buf b' \<Longrightarrow> same_frame b b' \<Longrightarrow> m b = Ok (x, b') \<Longrightarrow>
          (case f b x b' of Ok (y, c) \<Rightarrow> wf_buf c \<and> same_frame b' c | Err e \<Rightarrow> True | Panic \<Rightarrow> False)"
  shows "safe_dec (\<lambda>b. bindD m (f b) b)"
  unfolding safe_dec_def
proof (intro allI impI)
  fix b assume wf: "wf_buf b"
  show "case bindD m (f b) b of Ok (x, b') \<Rightarrow> wf_buf b' \<and> same_frame b b' | Err e \<Rightarrow> True | Panic \<Rightarrow> False"
  proof (cases "m b")
    case (Ok y)
    obtain x b1 where y: "y = (x, b1)" by (cases y)
    then have b1: "wf_buf b1" "same_frame b b1" using safe_decD[OF assms(1) wf] Ok by auto
    with assms(2)[OF wf b1] show ?thesis
      by (auto simp: bindD_def Ok y split: result.splits intro: same_frame_trans)
  next
    case Panic
    then show ?thesis using safe_decD[OF assms(1) wf] by simp
  qed (simp add: bindD_def)
qed

lemma safe_buf_skip_zeros [dec_safe]: "safe_dec (buf_skip_zeros n)"
  unfolding buf_skip_zeros_def[abs_def] by (rule safe_from_start) (auto intro: dec_safe)

lemma safe_buf_is_skip_zeros [dec_safe]: "safe_dec (buf_is_skip_zeros n)"
  unfolding buf_is_skip_zeros_def[abs_def]
  by (rule safe_from_start) (auto intro: dec_safe simp: wf_buf_def same_frame_def)

lemma safe_buf_get_str [dec_safe]: "safe_dec (buf_get_str n)"
  unfolding buf_get_str_def[abs_def]
proof (rule safe_from_start)
  show "safe_dec (buf_get_bytes n)" by (rule safe_buffer_ops)
next
  fix b x b' assume "wf_buf b'"
  then show "case map_err (InvalidStr (buf_offset b) n) (and_then (from_utf8 x) (\<lambda>s. Ok (s, b'))) of
      Ok (y, c) \<Rightarrow> wf_buf c \<and> same_frame b' c | Err e \<Rightarrow> True | Panic \<Rightarrow> False"
    by (cases "from_utf8 x") auto
qed

lemma buf_find_null_bound:
  "buf_offset b + k + n \<le> length (buf_data b) \<Longrightarrow>
   (case buf_find_null n b k of
      Ok z \<Rightarrow> buf_offset b + k \<le> z \<and> z < buf_offset b + k + n | Err e \<Rightarrow> True | Panic \<Rightarrow> False)"
proof (induction n arbitrary: k)
  case (Suc n)
  show ?case using Suc.IH[of "Suc k"] Suc.prems
    by (auto simp: index_def index_get_def split: result.splits)
qed simp

lemma safe_buf_get_str_null [dec_safe]: "safe_dec buf_get_str_null"
  unfolding safe_dec_def
proof (intro allI impI)
  fix b :: buffer assume wf: "wf_buf b"
  let ?null = "buf_find_null (buf_len b) b 0"
  have null: "case ?null of
      Ok z \<Rightarrow> buf_offset b \<le> z \<and> z < buf_max_offset b | Err e \<Rightarrow> True | Panic \<Rightarrow> False"
    using buf_find_null_bound[of b 0 "buf_len b"] wf
    by (auto simp: wf_buf_def buf_len_def split: result.splits)
  show "case buf_get_str_null b of
      Ok (x, b') \<Rightarrow> wf_buf b' \<and> same_frame b b' | Err e \<Rightarrow> True | Panic \<Rightarrow> False"
  proof (cases ?null)
    case (Ok z)
    let ?bs = "take (z - buf_offset b) (drop (buf_offset b) (buf_data b))"
    have "slice (buf_data b) (buf_offset b) z = (Ok ?bs :: (binary_decode_error, _) result)"
      using Ok null wf by (simp add: slice_def slice_get_def wf_buf_def)
    with Ok null wf show ?thesis
      by (cases "from_utf8 ?bs") (auto simp: buf_get_str_null_def wf_buf_def same_frame_def)
  qed (use null in \<open>auto simp: buf_get_str_null_def\<close>)
qed

lemma safe_bool_of_u32 [dec_safe]: "safe_dec m \<Longrightarrow> safe_dec (bool_of_u32 m)"
  unfolding bool_of_u32_def[abs_def] by (rule safe_from_start) auto

lemma safe_wordD [dec_safe]: "safe_dec m \<Longrightarrow> safe_dec (wordD conv m)"
  unfolding wordD_def by (intro dec_safe)

lemma safe_xdr_ops [dec_safe]:
  "safe_dec (xdr_consume_padding n)" "safe_dec xdr_get_u32"
  "safe_dec (xdr_get_bytes_n n)" "safe_dec (xdr_get_str_n n)" "safe_dec xdr_get_usize_32"
  by (simp_all add: xdr_consume_padding_def xdr_get_u32_def xdr_get_bytes_n_def xdr_get_str_n_def
      xdr_get_usize_32_def dec_safe)

lemma safe_xdr_aligned [dec_safe]: "safe_dec (m n) \<Longrightarrow> safe_dec (xdr_aligned err m n)"
  by (simp add: xdr_aligned_def)

lemma safe_xdr_small [dec_safe]:
  "safe_dec xdr_get_i8" "safe_dec xdr_get_i16" "safe_dec xdr_get_u8" "safe_dec xdr_get_u16"
  unfolding xdr_get_i8_def[abs_def] xdr_get_i16_def[abs_def] xdr_get_u8_def[abs_def] xdr_get_u16_def[abs_def]
  by (rule safe_from_start; auto simp: Let_def returnD_def failD_def intro: dec_safe)+

section \<open>The contract of a decoder\<close>

locale decoder_contract =
  fixes d :: binary_decoder
  assumes rewind: "safe_dec (rewind d n)"
    and seek: "safe_dec (seek d n)"
    and skip: "safe_dec (skip d n)"
    and skip_zeros: "safe_dec (skip_zeros d n)"
    and is_skip_zeros: "safe_dec (is_skip_zeros d n)"
    and get_bool: "safe_dec (get_bool d)"
    and get_bytes: "safe_dec (get_bytes d)"
    and get_bytes_n: "safe_dec (get_bytes_n d n)"
    and get_str: "safe_dec (get_str d)"
    and get_str_n: "safe_dec (get_str_n d n)"
    and get_f32: "safe_dec (get_f32 d)"
    and get_f64: "safe_dec (get_f64 d)"
    and get_i8: "safe_dec (get_i8 d)"
    and get_i16: "safe_dec (get_i16 d)"
    and get_i32: "safe_dec (get_i32 d)"
    and get_i64: "safe_dec (get_i64 d)"
    and get_u8: "safe_dec (get_u8 d)"
    and get_u16: "safe_dec (get_u16 d)"
    and get_u32: "safe_dec (get_u32 d)"
    and get_u64: "safe_dec (get_u64 d)"
begin

lemmas methods = rewind seek skip skip_zeros is_skip_zeros get_bool get_bytes get_bytes_n get_str
  get_str_n get_f32 get_f64 get_i8 get_i16 get_i32 get_i64 get_u8 get_u16 get_u32 get_u64

lemma usize: "safe_dec (get_usize_16 d)" "safe_dec (get_usize_32 d)" "safe_dec (get_usize_64 d)"
  unfolding get_usize_16_def get_usize_32_def get_usize_64_def by (intro dec_safe methods)+

end

interpretation big: decoder_contract BigEndianDecoder
  by unfold_locales (simp_all add: BigEndianDecoder_def dec_safe)

interpretation little: decoder_contract LittleEndianDecoder
  by unfold_locales (simp_all add: LittleEndianDecoder_def dec_safe)

interpretation xdr: decoder_contract XdrDecoder
  by unfold_locales (simp_all add: XdrDecoder_def dec_safe)

lemma endian_decoder_contract: "decoder_contract (endian_decoder ord)"
  by (cases ord) (simp_all add: endian_decoder_def big.decoder_contract_axioms little.decoder_contract_axioms)

section \<open>What the buffer operations read\<close>

lemma reads_buf_get_bytes [dec_reads]:
  "n = length bs \<Longrightarrow> reads (buf_get_bytes n) bs bs"
  by (auto simp: reads_def buf_get_bytes_def buffer_defs)

lemma reads_fixed:
  "length bs = 2 \<Longrightarrow> reads buf_get_2_bytes bs bs"
  "length bs = 4 \<Longrightarrow> reads buf_get_4_bytes bs bs"
  "length bs = 8 \<Longrightarrow> reads buf_get_8_bytes bs bs"
  by (auto simp: reads_def buf_get_2_bytes_def buf_get_4_bytes_def buf_get_8_bytes_def buffer_defs)

lemma reads_buf_get_1_byte [dec_reads]: "reads buf_get_1_byte [v] v"
  by (auto simp: reads_def buf_get_1_byte_def buffer_defs take_Suc_conv_app_nth hd_drop_conv_nth
      take_Suc split: if_splits)

lemma reads_wordD [dec_reads]: "reads m bs cs \<Longrightarrow> conv cs = x \<Longrightarrow> reads (wordD conv m) bs x"
  unfolding wordD_def by (auto intro: reads_bindD_last reads_returnD)

lemma reads_buf_skip_zeros [dec_reads]: "reads (buf_skip_zeros n) (replicate n 0) ()"
  using reads_buf_get_bytes[of n "replicate n 0"]
  by (auto simp: reads_def buf_skip_zeros_def bindD_def)

lemma reads_buf_skip: "n = length bs \<Longrightarrow> reads (buf_skip n) bs ()"
  by (auto simp: reads_def buf_skip_def buffer_defs)

section \<open>Encoders and decoders agree\<close>

text \<open>The layout of a 16, 32 or 64-bit integer in a byte order.\<close>

definition word_bytes :: "endian_order \<Rightarrow> nat \<Rightarrow> 'a::len word \<Rightarrow> bytes" where
  "word_bytes ord n w = (case ord of Big \<Rightarrow> be_bytes n w | Little \<Rightarrow> le_bytes n w)"

lemma length_word_bytes [simp]: "length (word_bytes ord n w) = n"
  by (cases ord) (simp_all add: word_bytes_def)

locale codec =
  fixes e :: binary_encoder and d :: binary_decoder
    and b8 :: "u8 \<Rightarrow> bytes" and b16 :: "u16 \<Rightarrow> bytes" and b32 :: "u32 \<Rightarrow> bytes" and b64 :: "u64 \<Rightarrow> bytes"
  assumes put_u8 [enc_writes]: "writes (put_u8 e w8) (b8 w8)"
    and put_u16 [enc_writes]: "writes (put_u16 e w16) (b16 w16)"
    and put_u32 [enc_writes]: "writes (put_u32 e w32) (b32 w32)"
    and put_u64 [enc_writes]: "writes (put_u64 e w64) (b64 w64)"
    and get_u8 [dec_reads]: "reads (get_u8 d) (b8 w8) w8"
    and get_u16 [dec_reads]: "reads (get_u16 d) (b16 w16) w16"
    and get_u32 [dec_reads]: "reads (get_u32 d) (b32 w32) w32"
    and get_u64 [dec_reads]: "reads (get_u64 d) (b64 w64) w64"
begin

lemma put_all: "writes (forD vs (put_u64 e)) (concat (map b64 vs))"
  by (induction vs) (auto intro: enc_writes)

lemma get_all: "reads (repeatD (length vs) (get_u64 d)) (concat (map b64 vs)) vs"
proof (induction vs)
  case Nil
  then show ?case by (simp add: reads_returnD)
next
  case (Cons v vs)
  have "reads (bindD (repeatD (length vs) (get_u64 d)) (\<lambda>xs. returnD (v # xs)))
          (concat (map b64 vs)) (v # vs)"
    by (rule reads_bindD_last[OF Cons.IH]) (rule reads_returnD)
  then show ?case by (auto intro: reads_bindD get_u64)
qed

end

interpretation be: codec BigEndianEncoder BigEndianDecoder
  "\<lambda>v. [v]" "word_bytes Big 2" "word_bytes Big 4" "word_bytes Big 8"
  by unfold_locales
    (auto simp: BigEndianEncoder_def BigEndianDecoder_def word_bytes_def be_word_be_bytes
      intro!: enc_writes dec_reads reads_fixed)

interpretation le: codec LittleEndianEncoder LittleEndianDecoder
  "\<lambda>v. [v]" "word_bytes Little 2" "word_bytes Little 4" "word_bytes Little 8"
  by unfold_locales
    (auto simp: LittleEndianEncoder_def LittleEndianDecoder_def word_bytes_def le_word_le_bytes
      intro!: enc_writes dec_reads reads_fixed)

lemma endian_codec:
  "codec (endian_encoder ord) (endian_decoder ord)
     (\<lambda>v. [v]) (word_bytes ord 2) (word_bytes ord 4) (word_bytes ord 8)"
  by (cases ord)
    (simp_all add: endian_encoder_def endian_decoder_def be.codec_axioms le.codec_axioms)

text \<open>The methods that do not depend on the byte order.\<close>

lemma endian_methods [simp]:
  "skip (endian_decoder ord) = buf_skip" "seek (endian_decoder ord) = buf_seek"
  "skip_zeros (endian_decoder ord) = buf_skip_zeros" "is_skip_zeros (endian_decoder ord) = buf_is_skip_zeros"
  "rewind (endian_decoder ord) = buf_rewind" "get_bytes_n (endian_decoder ord) = buf_get_bytes"
  "put_zeros (endian_encoder ord) = enc_put_zeros" "put_bytes_n (endian_encoder ord) = enc_put_bytes"
  "put_bytes (endian_encoder ord) = (\<lambda>_. failD (EncNotSupported ''put_bytes''))"
  by (cases ord; simp add: endian_decoder_def endian_encoder_def BigEndianDecoder_def LittleEndianDecoder_def
      BigEndianEncoder_def LittleEndianEncoder_def)+

lemma endian_get_u64: "reads (get_u64 (endian_decoder ord)) (word_bytes ord 8 w) w"
  by (rule codec.get_u64[OF endian_codec])

lemma endian_put_u64: "writes (put_u64 (endian_encoder ord) w) (word_bytes ord 8 w)"
  by (rule codec.put_u64[OF endian_codec])

text \<open>
  XDR widens an \<open>u8\<close> to 32 bits as a C \<open>char\<close>, that is with the sign, and undoes it when
  reading.
\<close>

definition xdr_widen :: "u8 \<Rightarrow> u32" where
  "xdr_widen v = (if (ucast v :: u32) > 127 then ucast v + 0xffffff00 else ucast v)"

lemma xdr_widen_high:
  fixes v :: u8
  assumes "(ucast v :: u32) > 127"
  shows "xdr_widen v \<ge> 0xffffff80" "xdr_widen v - 0xffffff00 = ucast v"
proof -
  have v: "127 < unat v" "unat v < 256"
    using assms unat_less[of v] by (simp_all add: word_less_nat_alt unat_ucast_up)
  then have "unat (xdr_widen v) = unat v + 0xffffff00"
    using assms by (simp add: xdr_widen_def unat_word_ariths unat_ucast_up)
  then show "xdr_widen v \<ge> 0xffffff80" using v by (simp add: word_le_nat_alt)
  show "xdr_widen v - 0xffffff00 = ucast v" using assms by (simp add: xdr_widen_def)
qed

lemma ucast_u8_u32_bounds: "(ucast (v :: u8) :: u32) \<le> 0xff" "(ucast (v :: u8) :: u32) < 0xffffff80"
  using unat_less[of v] by (simp_all add: word_le_nat_alt word_less_nat_alt unat_ucast_up)

lemma xdr_get_u8_reads: "reads xdr_get_u8 (be_bytes 4 (xdr_widen v)) v"
proof -
  have "reads xdr_get_u32 (be_bytes 4 (xdr_widen v)) (xdr_widen v)"
    unfolding xdr_get_u32_def by (rule reads_wordD[OF reads_fixed(2)]) (simp_all add: be_word_be_bytes)
  moreover have "(if xdr_widen v \<ge> 0xffffff80 then xdr_widen v - 0xffffff00 else xdr_widen v) = ucast v"
    using xdr_widen_high[of v] ucast_u8_u32_bounds[of v]
    by (cases "(ucast v :: u32) > 127") (auto simp: xdr_widen_def)
  ultimately show ?thesis
    using ucast_u8_u32_bounds[of v]
    by (simp add: reads_def xdr_get_u8_def bindD_def Let_def returnD_def ucast_ucast_up)
qed

interpretation xdr_codec: codec XdrEncoder XdrDecoder
  "\<lambda>v. be_bytes 4 (xdr_widen v)" "\<lambda>v. be_bytes 4 (ucast v :: u32)" "be_bytes 4" "be_bytes 8"
proof unfold_locales
  show "writes (put_u8 XdrEncoder w) (be_bytes 4 (xdr_widen w))" for w
    by (auto simp: XdrEncoder_def xdr_put_u8_def xdr_widen_def Let_def intro: enc_writes)
  show "reads (get_u8 XdrDecoder) (be_bytes 4 (xdr_widen w)) w" for w
    by (simp add: XdrDecoder_def xdr_get_u8_reads)
  have *: "reads xdr_get_u32 (be_bytes 4 w) w" for w
    unfolding xdr_get_u32_def by (rule reads_wordD[OF reads_fixed(2)]) (simp_all add: be_word_be_bytes)
  then show "reads (get_u32 XdrDecoder) (be_bytes 4 w) w" for w by (simp add: XdrDecoder_def)
  have "(ucast (w :: u16) :: u32) \<le> 0xffff" for w
    using unat_less[of w] by (simp add: word_le_nat_alt unat_ucast_up)
  then show "reads (get_u16 XdrDecoder) (be_bytes 4 (ucast w :: u32)) w" for w
    using *[of "ucast w"] by (simp add: XdrDecoder_def xdr_get_u16_def reads_def bindD_def returnD_def ucast_ucast_up)
qed (auto simp: XdrEncoder_def XdrDecoder_def be_word_be_bytes intro!: enc_writes dec_reads reads_fixed)

end
