(* ===== verification/Dva.thy ===== *)
theory Dva
  imports Codec
begin

text \<open>
  \<open>phys/dva.rs\<close>: the data virtual address, sixteen bytes holding a virtual device, an
  allocated size, a sector offset and the gang bit. All zero bytes are \<open>None\<close>.
\<close>

record dva =
  dva_allocated :: u32
  dva_offset :: u64
  dva_is_gang :: bool
  dva_vdev :: u32

datatype dva_decode_error =
    DvaBinary binary_decode_error
  | DvaInvalidOffset u64
  | DvaNonZeroGrid u8
  | DvaNonZeroPadding u8

datatype dva_encode_error =
    DvaEncBinary binary_encode_error
  | DvaEncInvalidAllocated u32
  | DvaEncInvalidOffset u64
  | DvaEncInvalidVdev u32

definition dva_from_decoder :: "binary_decoder \<Rightarrow> (buffer, dva_decode_error, dva option) step" where
  "dva_from_decoder d =
     bindD (liftD DvaBinary (get_u64 d)) (\<lambda>a.
     bindD (liftD DvaBinary (get_u64 d)) (\<lambda>b.
     if a = 0 \<and> b = 0 then returnD None
     else
       let grid = (ucast (drop_bit 24 a) :: u8) in
       if grid \<noteq> 0 then failD (DvaNonZeroGrid grid)
       else
         let padding = (ucast (drop_bit 56 a) :: u8) in
         if padding \<noteq> 0 then failD (DvaNonZeroPadding padding)
         else returnD (Some \<lparr>
           dva_allocated = ucast (a AND 0xffffff),
           dva_offset = b AND 0x7fffffffffffffff,
           dva_is_gang = (b AND 0x8000000000000000) \<noteq> 0,
           dva_vdev = ucast (drop_bit 32 a AND 0xffffff)\<rparr>)))"

text \<open>The two words \<open>to_encoder\<close> writes.\<close>

definition dva_word_a :: "dva \<Rightarrow> u64" where
  "dva_word_a v = push_bit 32 (ucast (dva_vdev v)) OR 0 OR ucast (dva_allocated v)"

definition dva_word_b :: "dva \<Rightarrow> u64" where
  "dva_word_b v = (if dva_is_gang v then 0x8000000000000000 else 0) OR dva_offset v"

definition dva_to_encoder :: "binary_encoder \<Rightarrow> dva \<Rightarrow> (enc_buffer, dva_encode_error, unit) step" where
  "dva_to_encoder e v =
     (if dva_vdev v > 0xffffff then failD (DvaEncInvalidVdev (dva_vdev v))
      else if dva_allocated v > 0xffffff \<or> dva_allocated v < 1
        then failD (DvaEncInvalidAllocated (dva_allocated v))
      else if dva_offset v > 0x7fffffffffffffff then failD (DvaEncInvalidOffset (dva_offset v))
      else
        bindD (liftD DvaEncBinary (put_u64 e (dva_word_a v))) (\<lambda>_.
        liftD DvaEncBinary (put_u64 e (dva_word_b v))))"

definition dva_empty_to_encoder :: "binary_encoder \<Rightarrow> (enc_buffer, dva_encode_error, unit) step" where
  "dva_empty_to_encoder e = liftD DvaEncBinary (put_zeros e 16)"

definition dva_option_to_encoder ::
  "binary_encoder \<Rightarrow> dva option \<Rightarrow> (enc_buffer, dva_encode_error, unit) step" where
  "dva_option_to_encoder e v =
     (case v of Some w \<Rightarrow> dva_to_encoder e w | None \<Rightarrow> dva_empty_to_encoder e)"

text \<open>The values \<open>to_encoder\<close> accepts, and the sixteen bytes of one.\<close>

definition wf_dva :: "dva \<Rightarrow> bool" where
  "wf_dva v \<longleftrightarrow> dva_vdev v \<le> 0xffffff \<and> dva_allocated v \<le> 0xffffff \<and> 1 \<le> dva_allocated v \<and>
     dva_offset v \<le> 0x7fffffffffffffff"

definition dva_bytes :: "endian_order \<Rightarrow> dva option \<Rightarrow> bytes" where
  "dva_bytes ord v = (case v of None \<Rightarrow> replicate 16 0
     | Some w \<Rightarrow> word_bytes ord 8 (dva_word_a w) @ word_bytes ord 8 (dva_word_b w))"

lemma length_dva_bytes [simp]: "length (dva_bytes ord v) = 16"
  by (cases v) (simp_all add: dva_bytes_def)

context decoder_contract
begin

lemma dva_safe: "safe_dec (dva_from_decoder d)"
  unfolding dva_from_decoder_def Let_def by (intro dec_safe methods)

end

lemma and_masks:
  fixes w :: u64
  shows "w AND 0xffffff = take_bit 24 w" "w AND 0x7fffffffffffffff = take_bit 63 w"
  by (simp_all add: take_bit_eq_mask mask_numeral)

lemma gang_bit: "((w :: u64) AND 0x8000000000000000 \<noteq> 0) = bit w 63"
  using flag_bit[of w 63] by simp

lemma bit_gang_flag: "bit (0x8000000000000000 :: int) n \<longleftrightarrow> n = 63"
  using bit_exp_iff[of 63 n, where 'a = int] by auto

lemma wf_dva_bits:
  assumes "wf_dva v"
  shows "bit (dva_vdev v) i \<Longrightarrow> i < 24" "bit (dva_allocated v) i \<Longrightarrow> i < 24"
    "bit (dva_offset v) i \<Longrightarrow> i < 63"
  using assms bit_below[of "dva_vdev v" 24 i] bit_below[of "dva_allocated v" 24 i]
    bit_below[of "dva_offset v" 63 i]
  by (simp_all add: wf_dva_def word_le_nat_alt)

lemma dva_words_fields:
  assumes "wf_dva v"
  shows "(ucast (drop_bit 24 (dva_word_a v)) :: u8) = 0"
    "(ucast (drop_bit 56 (dva_word_a v)) :: u8) = 0"
    "ucast (dva_word_a v AND 0xffffff) = dva_allocated v"
    "ucast (drop_bit 32 (dva_word_a v) AND 0xffffff) = dva_vdev v"
    "dva_word_b v AND 0x7fffffffffffffff = dva_offset v"
    "(dva_word_b v AND 0x8000000000000000 \<noteq> 0) = dva_is_gang v"
    "dva_word_a v \<noteq> 0"
proof -
  note bits = wf_dva_bits[OF assms]
  show "(ucast (drop_bit 24 (dva_word_a v)) :: u8) = 0" "(ucast (drop_bit 56 (dva_word_a v)) :: u8) = 0"
    by (rule bit_word_eqI; auto simp: dva_word_a_def bit_simps dest: bits)+
  show al: "ucast (dva_word_a v AND 0xffffff) = dva_allocated v"
    unfolding and_masks by (rule bit_word_eqI) (auto simp: dva_word_a_def bit_simps dest: bits)
  show "ucast (drop_bit 32 (dva_word_a v) AND 0xffffff) = dva_vdev v"
    unfolding and_masks by (rule bit_word_eqI) (auto simp: dva_word_a_def bit_simps dest: bits)
  show "dva_word_b v AND 0x7fffffffffffffff = dva_offset v"
    unfolding and_masks by (rule bit_word_eqI) (auto simp: dva_word_b_def bit_simps bit_gang_flag dest: bits)
  show "(dva_word_b v AND 0x8000000000000000 \<noteq> 0) = dva_is_gang v"
    unfolding gang_bit by (auto simp: dva_word_b_def bit_simps bit_gang_flag dest: bits)
  show "dva_word_a v \<noteq> 0"
    using al assms by (auto simp: wf_dva_def)
qed

text \<open>
  What \<open>Dva::from_decoder\<close> and \<open>Dva::to_encoder\<close> read and write, for the decoder and encoder
  of either byte order.
\<close>

lemma dva_reads:
  assumes "\<And>w. v = Some w \<Longrightarrow> wf_dva w"
  shows "reads (dva_from_decoder (endian_decoder ord)) (dva_bytes ord v) v"
proof -
  note get = codec.get_u64[OF endian_codec, of ord, THEN reads_liftD]
  show ?thesis
  proof (cases v)
    case None
    have "dva_bytes ord None = word_bytes ord 8 (0 :: u64) @ word_bytes ord 8 (0 :: u64)"
      by (cases ord) (simp_all add: dva_bytes_def word_bytes_def be_bytes_def numeral_eq_Suc)
    then show ?thesis unfolding None dva_from_decoder_def
      by (simp, intro reads_bindD[OF get] reads_bindD_last[OF get]) (simp add: reads_returnD)
  next
    case (Some w)
    then have wf: "wf_dva w" using assms by simp
    show ?thesis unfolding Some dva_bytes_def option.case dva_from_decoder_def
      by (rule reads_bindD[OF get], rule reads_bindD_last[OF get])
        (simp add: dva_words_fields[OF wf] Let_def, rule reads_returnD_eq, simp)
  qed
qed

lemma dva_writes:
  assumes "\<And>w. v = Some w \<Longrightarrow> wf_dva w"
  shows "writes (dva_option_to_encoder (endian_encoder ord) v) (dva_bytes ord v)"
proof (cases v)
  case None
  then show ?thesis
    by (auto simp: None dva_option_to_encoder_def dva_empty_to_encoder_def dva_bytes_def intro: enc_writes)
next
  case (Some w)
  then have "wf_dva w" using assms by simp
  then show ?thesis
    by (auto simp: Some dva_option_to_encoder_def dva_to_encoder_def dva_bytes_def wf_dva_def not_less
        intro!: enc_writes codec.put_u64[OF endian_codec])
qed

end
