(* ===== verification/Phys_Types.thy ===== *)
theory Phys_Types
  imports Prelude
begin

text \<open>
  The one-byte enumerations of the on-disk structures: \<open>ChecksumType\<close>, \<open>CompressionType\<close> and
  \<open>DmuType\<close>, with the conversions to and from their codes. The error of a conversion is the
  unknown code.
\<close>

datatype (plugins only: code) checksum_type =
    Ck_Inherit
  | Ck_On
  | Ck_Off
  | Ck_Label
  | Ck_GangHeader
  | Ck_Zilog
  | Ck_Fletcher2
  | Ck_Fletcher4
  | Ck_Sha256
  | Ck_Zilog2
  | Ck_NoParity
  | Ck_Sha512_256
  | Ck_Skein
  | Ck_Edonr
  | Ck_Blake3

primrec checksum_type_to_u8 :: "checksum_type \<Rightarrow> u8" where
  "checksum_type_to_u8 Ck_Inherit = 0"
| "checksum_type_to_u8 Ck_On = 1"
| "checksum_type_to_u8 Ck_Off = 2"
| "checksum_type_to_u8 Ck_Label = 3"
| "checksum_type_to_u8 Ck_GangHeader = 4"
| "checksum_type_to_u8 Ck_Zilog = 5"
| "checksum_type_to_u8 Ck_Fletcher2 = 6"
| "checksum_type_to_u8 Ck_Fletcher4 = 7"
| "checksum_type_to_u8 Ck_Sha256 = 8"
| "checksum_type_to_u8 Ck_Zilog2 = 9"
| "checksum_type_to_u8 Ck_NoParity = 10"
| "checksum_type_to_u8 Ck_Sha512_256 = 11"
| "checksum_type_to_u8 Ck_Skein = 12"
| "checksum_type_to_u8 Ck_Edonr = 13"
| "checksum_type_to_u8 Ck_Blake3 = 14"

definition checksum_type_table :: "(u8 \<times> checksum_type) list" where
  "checksum_type_table =
    [(0, Ck_Inherit),
     (1, Ck_On),
     (2, Ck_Off),
     (3, Ck_Label),
     (4, Ck_GangHeader),
     (5, Ck_Zilog),
     (6, Ck_Fletcher2),
     (7, Ck_Fletcher4),
     (8, Ck_Sha256),
     (9, Ck_Zilog2),
     (10, Ck_NoParity),
     (11, Ck_Sha512_256),
     (12, Ck_Skein),
     (13, Ck_Edonr),
     (14, Ck_Blake3)]"

definition checksum_type_try_from :: "u8 \<Rightarrow> (u8, checksum_type) result" where
  "checksum_type_try_from v = ok_or v (map_of checksum_type_table v)"

datatype (plugins only: code) compression_type =
    Co_Inherit
  | Co_On
  | Co_Off
  | Co_Lzjb
  | Co_Empty
  | Co_Gzip1
  | Co_Gzip2
  | Co_Gzip3
  | Co_Gzip4
  | Co_Gzip5
  | Co_Gzip6
  | Co_Gzip7
  | Co_Gzip8
  | Co_Gzip9
  | Co_Zle
  | Co_Lz4
  | Co_Zstd

primrec compression_type_to_u8 :: "compression_type \<Rightarrow> u8" where
  "compression_type_to_u8 Co_Inherit = 0"
| "compression_type_to_u8 Co_On = 1"
| "compression_type_to_u8 Co_Off = 2"
| "compression_type_to_u8 Co_Lzjb = 3"
| "compression_type_to_u8 Co_Empty = 4"
| "compression_type_to_u8 Co_Gzip1 = 5"
| "compression_type_to_u8 Co_Gzip2 = 6"
| "compression_type_to_u8 Co_Gzip3 = 7"
| "compression_type_to_u8 Co_Gzip4 = 8"
| "compression_type_to_u8 Co_Gzip5 = 9"
| "compression_type_to_u8 Co_Gzip6 = 10"
| "compression_type_to_u8 Co_Gzip7 = 11"
| "compression_type_to_u8 Co_Gzip8 = 12"
| "compression_type_to_u8 Co_Gzip9 = 13"
| "compression_type_to_u8 Co_Zle = 14"
| "compression_type_to_u8 Co_Lz4 = 15"
| "compression_type_to_u8 Co_Zstd = 16"

definition compression_type_table :: "(u8 \<times> compression_type) list" where
  "compression_type_table =
    [(0, Co_Inherit),
     (1, Co_On),
     (2, Co_Off),
     (3, Co_Lzjb),
     (4, Co_Empty),
     (5, Co_Gzip1),
     (6, Co_Gzip2),
     (7, Co_Gzip3),
     (8, Co_Gzip4),
     (9, Co_Gzip5),
     (10, Co_Gzip6),
     (11, Co_Gzip7),
     (12, Co_Gzip8),
     (13, Co_Gzip9),
     (14, Co_Zle),
     (15, Co_Lz4),
     (16, Co_Zstd)]"

definition compression_type_try_from :: "u8 \<Rightarrow> (u8, compression_type) result" where
  "compression_type_try_from v = ok_or v (map_of compression_type_table v)"

datatype (plugins only: code) dmu_type =
    Dmu_None
  | Dmu_ObjectDirectory
  | Dmu_ObjectArray
  | Dmu_PackedNvList
  | Dmu_PackedNvListSize
  | Dmu_BpObject
  | Dmu_BpObjectHeader
  | Dmu_SpaceMapHeader
  | Dmu_SpaceMap
  | Dmu_IntentLog
  | Dmu_Dnode
  | Dmu_ObjectSet
  | Dmu_DslDirectory
  | Dmu_DslDirectoryChildMap
  | Dmu_DslDsSnapshotMap
  | Dmu_DslProperties
  | Dmu_DslDataSet
  | Dmu_Znode
  | Dmu_AclV0
  | Dmu_PlainFileContents
  | Dmu_DirectoryContents
  | Dmu_MasterNode
  | Dmu_UnlinkedSet
  | Dmu_Zvol
  | Dmu_ZvolProperty
  | Dmu_PlainOther
  | Dmu_Uint64Other
  | Dmu_ZapOther
  | Dmu_ErrorLog
  | Dmu_SpaHistory
  | Dmu_SpaHistoryOffsets
  | Dmu_PoolProperties
  | Dmu_DslPermissions
  | Dmu_AclV1
  | Dmu_SysAcl
  | Dmu_Fuid
  | Dmu_FuidSize
  | Dmu_NextClones
  | Dmu_ScanQueue
  | Dmu_UserGroupUsed
  | Dmu_UserGroupQuota
  | Dmu_UserRefs
  | Dmu_DdtZap
  | Dmu_DdtStats
  | Dmu_SystemAttribute
  | Dmu_SystemAttributeMasterNode
  | Dmu_SystemAttributeRegistration
  | Dmu_SystemAttributeLayouts
  | Dmu_ScanXlate
  | Dmu_Dedup
  | Dmu_DeadList
  | Dmu_DeadListHeader
  | Dmu_DslClones
  | Dmu_BpObjectSubObject
  | Dmu_Uint8Data
  | Dmu_Uint16Data
  | Dmu_Uint32Data
  | Dmu_Uint64Data
  | Dmu_ZapData
  | Dmu_Uint8DataEncrypted
  | Dmu_Uint16DataEncrypted
  | Dmu_Uint32DataEncrypted
  | Dmu_Uint64DataEncrypted
  | Dmu_ZapDataEncrypted
  | Dmu_Uint8Metadata
  | Dmu_Uint16Metadata
  | Dmu_Uint32Metadata
  | Dmu_Uint64Metadata
  | Dmu_ZapMetadata
  | Dmu_Uint8MetadataEncrypted
  | Dmu_Uint16MetadataEncrypted
  | Dmu_Uint32MetadataEncrypted
  | Dmu_Uint64MetadataEncrypted
  | Dmu_ZapMetadataEncrypted

primrec dmu_type_to_u8 :: "dmu_type \<Rightarrow> u8" where
  "dmu_type_to_u8 Dmu_None = 0"
| "dmu_type_to_u8 Dmu_ObjectDirectory = 1"
| "dmu_type_to_u8 Dmu_ObjectArray = 2"
| "dmu_type_to_u8 Dmu_PackedNvList = 3"
| "dmu_type_to_u8 Dmu_PackedNvListSize = 4"
| "dmu_type_to_u8 Dmu_BpObject = 5"
| "dmu_type_to_u8 Dmu_BpObjectHeader = 6"
| "dmu_type_to_u8 Dmu_SpaceMapHeader = 7"
| "dmu_type_to_u8 Dmu_SpaceMap = 8"
| "dmu_type_to_u8 Dmu_IntentLog = 9"
| "dmu_type_to_u8 Dmu_Dnode = 10"
| "dmu_type_to_u8 Dmu_ObjectSet = 11"
| "dmu_type_to_u8 Dmu_DslDirectory = 12"
| "dmu_type_to_u8 Dmu_DslDirectoryChildMap = 13"
| "dmu_type_to_u8 Dmu_DslDsSnapshotMap = 14"
| "dmu_type_to_u8 Dmu_DslProperties = 15"
| "dmu_type_to_u8 Dmu_DslDataSet = 16"
| "dmu_type_to_u8 Dmu_Znode = 17"
| "dmu_type_to_u8 Dmu_AclV0 = 18"
| "dmu_type_to_u8 Dmu_PlainFileContents = 19"
| "dmu_type_to_u8 Dmu_DirectoryContents = 20"
| "dmu_type_to_u8 Dmu_MasterNode = 21"
| "dmu_type_to_u8 Dmu_UnlinkedSet = 22"
| "dmu_type_to_u8 Dmu_Zvol = 23"
| "dmu_type_to_u8 Dmu_ZvolProperty = 24"
| "dmu_type_to_u8 Dmu_PlainOther = 25"
| "dmu_type_to_u8 Dmu_Uint64Other = 26"
| "dmu_type_to_u8 Dmu_ZapOther = 27"
| "dmu_type_to_u8 Dmu_ErrorLog = 28"
| "dmu_type_to_u8 Dmu_SpaHistory = 29"
| "dmu_type_to_u8 Dmu_SpaHistoryOffsets = 30"
| "dmu_type_to_u8 Dmu_PoolProperties = 31"
| "dmu_type_to_u8 Dmu_DslPermissions = 32"
| "dmu_type_to_u8 Dmu_AclV1 = 33"
| "dmu_type_to_u8 Dmu_SysAcl = 34"
| "dmu_type_to_u8 Dmu_Fuid = 35"
| "dmu_type_to_u8 Dmu_FuidSize = 36"
| "dmu_type_to_u8 Dmu_NextClones = 37"
| "dmu_type_to_u8 Dmu_ScanQueue = 38"
| "dmu_type_to_u8 Dmu_UserGroupUsed = 39"
| "dmu_type_to_u8 Dmu_UserGroupQuota = 40"
| "dmu_type_to_u8 Dmu_UserRefs = 41"
| "dmu_type_to_u8 Dmu_DdtZap = 42"
| "dmu_type_to_u8 Dmu_DdtStats = 43"
| "dmu_type_to_u8 Dmu_SystemAttribute = 44"
| "dmu_type_to_u8 Dmu_SystemAttributeMasterNode = 45"
| "dmu_type_to_u8 Dmu_SystemAttributeRegistration = 46"
| "dmu_type_to_u8 Dmu_SystemAttributeLayouts = 47"
| "dmu_type_to_u8 Dmu_ScanXlate = 48"
| "dmu_type_to_u8 Dmu_Dedup = 49"
| "dmu_type_to_u8 Dmu_DeadList = 50"
| "dmu_type_to_u8 Dmu_DeadListHeader = 51"
| "dmu_type_to_u8 Dmu_DslClones = 52"
| "dmu_type_to_u8 Dmu_BpObjectSubObject = 53"
| "dmu_type_to_u8 Dmu_Uint8Data = 0x80"
| "dmu_type_to_u8 Dmu_Uint16Data = 0x81"
| "dmu_type_to_u8 Dmu_Uint32Data = 0x82"
| "dmu_type_to_u8 Dmu_Uint64Data = 0x83"
| "dmu_type_to_u8 Dmu_ZapData = 0x84"
| "dmu_type_to_u8 Dmu_Uint8DataEncrypted = 0xa0"
| "dmu_type_to_u8 Dmu_Uint16DataEncrypted = 0xa1"
| "dmu_type_to_u8 Dmu_Uint32DataEncrypted = 0xa2"
| "dmu_type_to_u8 Dmu_Uint64DataEncrypted = 0xa3"
| "dmu_type_to_u8 Dmu_ZapDataEncrypted = 0xa4"
| "dmu_type_to_u8 Dmu_Uint8Metadata = 0xc0"
| "dmu_type_to_u8 Dmu_Uint16Metadata = 0xc1"
| "dmu_type_to_u8 Dmu_Uint32Metadata = 0xc2"
| "dmu_type_to_u8 Dmu_Uint64Metadata = 0xc3"
| "dmu_type_to_u8 Dmu_ZapMetadata = 0xc4"
| "dmu_type_to_u8 Dmu_Uint8MetadataEncrypted = 0xe0"
| "dmu_type_to_u8 Dmu_Uint16MetadataEncrypted = 0xe1"
| "dmu_type_to_u8 Dmu_Uint32MetadataEncrypted = 0xe2"
| "dmu_type_to_u8 Dmu_Uint64MetadataEncrypted = 0xe3"
| "dmu_type_to_u8 Dmu_ZapMetadataEncrypted = 0xe4"

definition dmu_type_table :: "(u8 \<times> dmu_type) list" where
  "dmu_type_table =
    [(0, Dmu_None),
     (1, Dmu_ObjectDirectory),
     (2, Dmu_ObjectArray),
     (3, Dmu_PackedNvList),
     (4, Dmu_PackedNvListSize),
     (5, Dmu_BpObject),
     (6, Dmu_BpObjectHeader),
     (7, Dmu_SpaceMapHeader),
     (8, Dmu_SpaceMap),
     (9, Dmu_IntentLog),
     (10, Dmu_Dnode),
     (11, Dmu_ObjectSet),
     (12, Dmu_DslDirectory),
     (13, Dmu_DslDirectoryChildMap),
     (14, Dmu_DslDsSnapshotMap),
     (15, Dmu_DslProperties),
     (16, Dmu_DslDataSet),
     (17, Dmu_Znode),
     (18, Dmu_AclV0),
     (19, Dmu_PlainFileContents),
     (20, Dmu_DirectoryContents),
     (21, Dmu_MasterNode),
     (22, Dmu_UnlinkedSet),
     (23, Dmu_Zvol),
     (24, Dmu_ZvolProperty),
     (25, Dmu_PlainOther),
     (26, Dmu_Uint64Other),
     (27, Dmu_ZapOther),
     (28, Dmu_ErrorLog),
     (29, Dmu_SpaHistory),
     (30, Dmu_SpaHistoryOffsets),
     (31, Dmu_PoolProperties),
     (32, Dmu_DslPermissions),
     (33, Dmu_AclV1),
     (34, Dmu_SysAcl),
     (35, Dmu_Fuid),
     (36, Dmu_FuidSize),
     (37, Dmu_NextClones),
     (38, Dmu_ScanQueue),
     (39, Dmu_UserGroupUsed),
     (40, Dmu_UserGroupQuota),
     (41, Dmu_UserRefs),
     (42, Dmu_DdtZap),
     (43, Dmu_DdtStats),
     (44, Dmu_SystemAttribute),
     (45, Dmu_SystemAttributeMasterNode),
     (46, Dmu_SystemAttributeRegistration),
     (47, Dmu_SystemAttributeLayouts),
     (48, Dmu_ScanXlate),
     (49, Dmu_Dedup),
     (50, Dmu_DeadList),
     (51, Dmu_DeadListHeader),
     (52, Dmu_DslClones),
     (53, Dmu_BpObjectSubObject),
     (0x80, Dmu_Uint8Data),
     (0x81, Dmu_Uint16Data),
     (0x82, Dmu_Uint32Data),
     (0x83, Dmu_Uint64Data),
     (0x84, Dmu_ZapData),
     (0xa0, Dmu_Uint8DataEncrypted),
     (0xa1, Dmu_Uint16DataEncrypted),
     (0xa2, Dmu_Uint32DataEncrypted),
     (0xa3, Dmu_Uint64DataEncrypted),
     (0xa4, Dmu_ZapDataEncrypted),
     (0xc0, Dmu_Uint8Metadata),
     (0xc1, Dmu_Uint16Metadata),
     (0xc2, Dmu_Uint32Metadata),
     (0xc3, Dmu_Uint64Metadata),
     (0xc4, Dmu_ZapMetadata),
     (0xe0, Dmu_Uint8MetadataEncrypted),
     (0xe1, Dmu_Uint16MetadataEncrypted),
     (0xe2, Dmu_Uint32MetadataEncrypted),
     (0xe3, Dmu_Uint64MetadataEncrypted),
     (0xe4, Dmu_ZapMetadataEncrypted)]"

definition dmu_type_try_from :: "u8 \<Rightarrow> (u8, dmu_type) result" where
  "dmu_type_try_from v = ok_or v (map_of dmu_type_table v)"

lemma checksum_type_try_from_to [simp]: "checksum_type_try_from (checksum_type_to_u8 t) = Ok t"
  by (cases t) (simp_all add: checksum_type_try_from_def checksum_type_table_def)

lemma checksum_type_table_sound: "(v, t) \<in> set checksum_type_table \<Longrightarrow> checksum_type_to_u8 t = v"
  by (auto simp: checksum_type_table_def)

lemma checksum_type_to_try_from: "checksum_type_try_from v = Ok t \<Longrightarrow> checksum_type_to_u8 t = v"
  using checksum_type_table_sound by (auto simp: checksum_type_try_from_def dest!: map_of_SomeD)

lemma checksum_type_try_from_safe [simp]: "checksum_type_try_from v \<noteq> Panic"
  by (simp add: checksum_type_try_from_def)

lemma compression_type_try_from_to [simp]: "compression_type_try_from (compression_type_to_u8 t) = Ok t"
  by (cases t) (simp_all add: compression_type_try_from_def compression_type_table_def)

lemma compression_type_table_sound: "(v, t) \<in> set compression_type_table \<Longrightarrow> compression_type_to_u8 t = v"
  by (auto simp: compression_type_table_def)

lemma compression_type_to_try_from: "compression_type_try_from v = Ok t \<Longrightarrow> compression_type_to_u8 t = v"
  using compression_type_table_sound by (auto simp: compression_type_try_from_def dest!: map_of_SomeD)

lemma compression_type_try_from_safe [simp]: "compression_type_try_from v \<noteq> Panic"
  by (simp add: compression_type_try_from_def)

lemma dmu_type_try_from_to [simp]: "dmu_type_try_from (dmu_type_to_u8 t) = Ok t"
  by (cases t) (simp_all add: dmu_type_try_from_def dmu_type_table_def)

lemma dmu_type_table_sound: "(v, t) \<in> set dmu_type_table \<Longrightarrow> dmu_type_to_u8 t = v"
  by (auto simp: dmu_type_table_def)

lemma dmu_type_to_try_from: "dmu_type_try_from v = Ok t \<Longrightarrow> dmu_type_to_u8 t = v"
  using dmu_type_table_sound by (auto simp: dmu_type_try_from_def dest!: map_of_SomeD)

lemma dmu_type_try_from_safe [simp]: "dmu_type_try_from v \<noteq> Panic"
  by (simp add: dmu_type_try_from_def)

end
