(* ===== verification/Block_Pointer.thy ===== *)
theory Block_Pointer
  imports Dva Phys_Types
begin

text \<open>
  \<open>phys/checksum.rs\<close> (the checksum value) and \<open>phys/block_pointer.rs\<close>: the 128-byte block
  pointer in its three forms, embedded, encrypted and regular, with decoding and encoding.
  An error enumeration with a single variant is the error it wraps.
\<close>

section \<open>Checksum values\<close>

type_synonym words4 = "u64 \<times> u64 \<times> u64 \<times> u64"

record checksum_value =
  cv_words :: words4

definition checksum_value_from_decoder ::
  "binary_decoder \<Rightarrow> (buffer, binary_decode_error, checksum_value) step" where
  "checksum_value_from_decoder d =
     bindD (get_u64 d) (\<lambda>w0. bindD (get_u64 d) (\<lambda>w1. bindD (get_u64 d) (\<lambda>w2. bindD (get_u64 d) (\<lambda>w3.
     returnD \<lparr>cv_words = (w0, w1, w2, w3)\<rparr>))))"

definition checksum_value_to_encoder ::
  "binary_encoder \<Rightarrow> checksum_value \<Rightarrow> (enc_buffer, binary_encode_error, unit) step" where
  "checksum_value_to_encoder e v =
     (case cv_words v of (w0, w1, w2, w3) \<Rightarrow>
        bindD (put_u64 e w0) (\<lambda>_. bindD (put_u64 e w1) (\<lambda>_. bindD (put_u64 e w2) (\<lambda>_. put_u64 e w3))))"

section \<open>Flag word\<close>

definition EMBEDDED_BIT_FLAG :: u64 where "EMBEDDED_BIT_FLAG = push_bit 39 1"
definition ENCRYPTED_BIT_FLAG :: u64 where "ENCRYPTED_BIT_FLAG = push_bit 61 1"
definition DEDUP_BIT_FLAG :: u64 where "DEDUP_BIT_FLAG = push_bit 62 1"
definition LITTLE_ENDIAN_BIT_FLAG :: u64 where "LITTLE_ENDIAN_BIT_FLAG = push_bit 63 1"

definition flags_order :: "u64 \<Rightarrow> endian_order" where
  "flags_order flags = (if flags AND LITTLE_ENDIAN_BIT_FLAG \<noteq> 0 then Little else Big)"

definition flags_level :: "u64 \<Rightarrow> u8" where
  "flags_level flags = ucast (drop_bit 56 flags AND 0x1f)"

definition flags_compression :: "u64 \<Rightarrow> u8" where
  "flags_compression flags = ucast (drop_bit 32 flags AND 0x1f)"

definition flags_logical_sectors :: "u64 \<Rightarrow> u32" where
  "flags_logical_sectors flags = ucast (flags AND 0xffff) + 1"

definition flags_physical_sectors :: "u64 \<Rightarrow> u32" where
  "flags_physical_sectors flags = ucast (drop_bit 16 flags AND 0xffff) + 1"

section \<open>Errors\<close>

datatype embedded_type = Emb_Data | Emb_Reserved | Emb_Redacted

definition embedded_type_try_from :: "u8 \<Rightarrow> (u8, embedded_type) result" where
  "embedded_type_try_from v =
     (if v = 0 then Ok Emb_Data else if v = 1 then Ok Emb_Reserved else if v = 2 then Ok Emb_Redacted
      else Err v)"

fun embedded_type_to_u8 :: "embedded_type \<Rightarrow> u8" where
  "embedded_type_to_u8 Emb_Data = 0"
| "embedded_type_to_u8 Emb_Reserved = 1"
| "embedded_type_to_u8 Emb_Redacted = 2"

datatype bp_decode_error =
    BpEmbeddedType u8
  | BpChecksumType u8
  | BpChecksumValue binary_decode_error
  | BpCompressionType u8
  | BpDmuType u8
  | BpDva dva_decode_error
  | BpBinary binary_decode_error
  | BpInvalidBlockPointerType bool bool
  | BpInvalidDedupValue bool
  | BpInvalidEmbeddedLength nat
  | BpLogicalSizeTooLarge u32

datatype bp_encode_error =
    BpEncChecksumValue binary_encode_error
  | BpEncDva dva_encode_error
  | BpEncEndian binary_encode_error
  | BpEncInvalidEmbeddedLength nat
  | BpEncInvalidLevel u8
  | BpEncInvalidLogicalSectors u32
  | BpEncInvalidLogicalSize nat
  | BpEncInvalidPhysicalSectors u32

type_synonym 'a bp_dec = "(buffer, bp_decode_error, 'a) step"
type_synonym bp_enc = "(enc_buffer, bp_encode_error, unit) step"

section \<open>Embedded block pointers\<close>

record bp_embedded =
  bpe_compression :: compression_type
  bpe_dmu :: dmu_type
  bpe_embedded_type :: embedded_type
  bpe_order :: endian_order
  bpe_level :: u8
  bpe_logical_birth_txg :: u64
  bpe_logical_size :: nat
  bpe_physical_size :: nat
  bpe_payload :: bytes

definition bp_embedded_from_decoder :: "binary_decoder \<Rightarrow> bp_embedded bp_dec" where
  "bp_embedded_from_decoder d =
     bindD (liftD BpBinary (get_bytes_n d 48)) (\<lambda>part_1.
     bindD (liftD BpBinary (get_u64 d)) (\<lambda>flags.
     bindD (liftD BpBinary (get_bytes_n d 24)) (\<lambda>part_2.
     bindD (liftD BpBinary (get_u64 d)) (\<lambda>logical_birth_txg.
     bindD (liftD BpBinary (get_bytes_n d 40)) (\<lambda>part_3.
     let embedded = (flags AND EMBEDDED_BIT_FLAG \<noteq> 0);
         encrypted = (flags AND ENCRYPTED_BIT_FLAG \<noteq> 0) in
     if (embedded, encrypted) \<noteq> (True, False)
     then failD (BpInvalidBlockPointerType embedded encrypted)
     else if flags AND DEDUP_BIT_FLAG \<noteq> 0 then failD (BpInvalidDedupValue True)
     else
     bindD (liftD BpDmuType (resultD (dmu_type_try_from (ucast (drop_bit 48 flags))))) (\<lambda>dmu.
     bindD (liftD BpEmbeddedType (resultD (embedded_type_try_from (ucast (drop_bit 40 flags))))) (\<lambda>embedded_type.
     bindD (liftD BpCompressionType (resultD (compression_type_try_from (flags_compression flags)))) (\<lambda>compression.
     let logical_size = unat ((ucast (flags AND 0x1ffffff) :: u32) + 1);
         physical_size = unat (ucast (drop_bit 25 flags AND 0x7f) :: u8) + 1 in
     if physical_size > 112 then failD (BpInvalidEmbeddedLength physical_size)
     else returnD \<lparr>
       bpe_compression = compression,
       bpe_dmu = dmu,
       bpe_embedded_type = embedded_type,
       bpe_order = flags_order flags,
       bpe_level = flags_level flags,
       bpe_logical_birth_txg = logical_birth_txg,
       bpe_logical_size = logical_size,
       bpe_physical_size = physical_size,
       bpe_payload = part_1 @ part_2 @ part_3\<rparr>))))))))"

text \<open>\<open>self.payload[a..b]\<close> of the 112-byte array.\<close>

definition bp_embedded_to_encoder :: "binary_encoder \<Rightarrow> bp_embedded \<Rightarrow> bp_enc" where
  "bp_embedded_to_encoder e p =
     (if bpe_physical_size p > length (bpe_payload p)
      then failD (BpEncInvalidEmbeddedLength (bpe_physical_size p))
      else
        bindD (liftD BpEncEndian (put_bytes e (take 48 (bpe_payload p)))) (\<lambda>_.
        if ucast (bpe_level p) > (0x1f :: u64) then failD (BpEncInvalidLevel (bpe_level p))
        else if bpe_logical_size p > 0x1ffffff then failD (BpEncInvalidLogicalSize (bpe_logical_size p))
        else
          let flags = (word_of_nat (bpe_logical_size p) :: u64)
            OR push_bit 25 (word_of_nat (bpe_physical_size p))
            OR push_bit 32 (ucast (compression_type_to_u8 (bpe_compression p)))
            OR EMBEDDED_BIT_FLAG
            OR push_bit 40 (ucast (embedded_type_to_u8 (bpe_embedded_type p)))
            OR push_bit 48 (ucast (dmu_type_to_u8 (bpe_dmu p)))
            OR push_bit 56 (ucast (bpe_level p))
            OR (case bpe_order p of Little \<Rightarrow> LITTLE_ENDIAN_BIT_FLAG | Big \<Rightarrow> 0) in
          bindD (liftD BpEncEndian (put_u64 e flags)) (\<lambda>_.
          bindD (liftD BpEncEndian (put_bytes e (take 24 (drop 48 (bpe_payload p))))) (\<lambda>_.
          bindD (liftD BpEncEndian (put_u64 e (bpe_logical_birth_txg p))) (\<lambda>_.
          liftD BpEncEndian (put_bytes e (take 40 (drop 72 (bpe_payload p)))))))))"

section \<open>Regular and encrypted block pointers\<close>

text \<open>
  The flag word \<open>to_encoder\<close> packs; \<open>kind\<close> is \<^const>\<open>ENCRYPTED_BIT_FLAG\<close> for an encrypted
  pointer and 0 for a regular one.
\<close>

definition bp_pack_flags ::
  "u32 \<Rightarrow> u32 \<Rightarrow> compression_type \<Rightarrow> checksum_type \<Rightarrow> dmu_type \<Rightarrow> u8 \<Rightarrow> u64 \<Rightarrow> bool \<Rightarrow> endian_order \<Rightarrow> u64" where
  "bp_pack_flags logical_sectors physical_sectors compression checksum dmu level kind dedup ord =
     ucast (logical_sectors - 1)
     OR push_bit 16 (ucast (physical_sectors - 1))
     OR push_bit 32 (ucast (compression_type_to_u8 compression))
     OR push_bit 40 (ucast (checksum_type_to_u8 checksum))
     OR push_bit 48 (ucast (dmu_type_to_u8 dmu))
     OR push_bit 56 (ucast level)
     OR kind
     OR (if dedup then DEDUP_BIT_FLAG else 0)
     OR (case ord of Little \<Rightarrow> LITTLE_ENDIAN_BIT_FLAG | Big \<Rightarrow> 0)"

record bp_encrypted =
  bpx_checksum_type :: checksum_type
  bpx_checksum_value :: "u64 \<times> u64"
  bpx_compression :: compression_type
  bpx_dedup :: bool
  bpx_dmu :: dmu_type
  bpx_dvas :: "dva option list"
  bpx_order :: endian_order
  bpx_fill_count :: u32
  bpx_iv_1 :: u64
  bpx_iv_2 :: u32
  bpx_level :: u8
  bpx_logical_birth_txg :: u64
  bpx_logical_sectors :: u32
  bpx_mac :: "u64 \<times> u64"
  bpx_physical_birth_txg :: u64
  bpx_physical_sectors :: u32
  bpx_salt :: u64

definition bp_encrypted_from_decoder :: "binary_decoder \<Rightarrow> bp_encrypted bp_dec" where
  "bp_encrypted_from_decoder d =
     bindD (liftD BpDva (dva_from_decoder d)) (\<lambda>dva0.
     bindD (liftD BpDva (dva_from_decoder d)) (\<lambda>dva1.
     bindD (liftD BpBinary (get_u64 d)) (\<lambda>salt.
     bindD (liftD BpBinary (get_u64 d)) (\<lambda>iv_1.
     bindD (liftD BpBinary (get_u64 d)) (\<lambda>flags.
     let embedded = (flags AND EMBEDDED_BIT_FLAG \<noteq> 0);
         encrypted = (flags AND ENCRYPTED_BIT_FLAG \<noteq> 0) in
     if (embedded, encrypted) \<noteq> (False, True)
     then failD (BpInvalidBlockPointerType embedded encrypted)
     else
     bindD (liftD BpDmuType (resultD (dmu_type_try_from (ucast (drop_bit 48 flags))))) (\<lambda>dmu.
     bindD (liftD BpChecksumType (resultD (checksum_type_try_from (ucast (drop_bit 40 flags))))) (\<lambda>checksum_type.
     bindD (liftD BpCompressionType (resultD (compression_type_try_from (flags_compression flags)))) (\<lambda>compression.
     bindD (liftD BpBinary (skip_zeros d 16)) (\<lambda>_.
     bindD (liftD BpBinary (get_u64 d)) (\<lambda>physical_birth_txg.
     bindD (liftD BpBinary (get_u64 d)) (\<lambda>logical_birth_txg.
     bindD (liftD BpBinary (get_u64 d)) (\<lambda>iv_fill.
     bindD (liftD BpBinary (get_u64 d)) (\<lambda>c0.
     bindD (liftD BpBinary (get_u64 d)) (\<lambda>c1.
     bindD (liftD BpBinary (get_u64 d)) (\<lambda>m0.
     bindD (liftD BpBinary (get_u64 d)) (\<lambda>m1.
     returnD \<lparr>
       bpx_checksum_type = checksum_type,
       bpx_checksum_value = (c0, c1),
       bpx_compression = compression,
       bpx_dedup = (flags AND DEDUP_BIT_FLAG \<noteq> 0),
       bpx_dmu = dmu,
       bpx_dvas = [dva0, dva1],
       bpx_order = flags_order flags,
       bpx_fill_count = ucast (iv_fill AND 0xffffffff),
       bpx_iv_1 = iv_1,
       bpx_iv_2 = ucast (drop_bit 32 iv_fill),
       bpx_level = flags_level flags,
       bpx_logical_birth_txg = logical_birth_txg,
       bpx_logical_sectors = flags_logical_sectors flags,
       bpx_mac = (m0, m1),
       bpx_physical_birth_txg = physical_birth_txg,
       bpx_physical_sectors = flags_physical_sectors flags,
       bpx_salt = salt\<rparr>))))))))))))))))"

definition bp_encrypted_to_encoder :: "binary_encoder \<Rightarrow> bp_encrypted \<Rightarrow> bp_enc" where
  "bp_encrypted_to_encoder e p =
     bindD (forD (bpx_dvas p) (\<lambda>v. liftD BpEncDva (dva_option_to_encoder e v))) (\<lambda>_.
     if bpx_logical_sectors p < 1 \<or> bpx_logical_sectors p > 65536
     then failD (BpEncInvalidLogicalSectors (bpx_logical_sectors p))
     else if bpx_physical_sectors p < 1 \<or> bpx_physical_sectors p > 65536
     then failD (BpEncInvalidPhysicalSectors (bpx_physical_sectors p))
     else
     bindD (liftD BpEncEndian (put_u64 e (bpx_salt p))) (\<lambda>_.
     bindD (liftD BpEncEndian (put_u64 e (bpx_iv_1 p))) (\<lambda>_.
     if ucast (bpx_level p) > (0x1f :: u64) then failD (BpEncInvalidLevel (bpx_level p))
     else
     bindD (liftD BpEncEndian (put_u64 e
       (bp_pack_flags (bpx_logical_sectors p) (bpx_physical_sectors p) (bpx_compression p)
          (bpx_checksum_type p) (bpx_dmu p) (bpx_level p) ENCRYPTED_BIT_FLAG (bpx_dedup p) (bpx_order p)))) (\<lambda>_.
     bindD (liftD BpEncEndian (put_zeros e 16)) (\<lambda>_.
     bindD (liftD BpEncEndian (put_u64 e (bpx_physical_birth_txg p))) (\<lambda>_.
     bindD (liftD BpEncEndian (put_u64 e (bpx_logical_birth_txg p))) (\<lambda>_.
     bindD (liftD BpEncEndian (put_u64 e
       (ucast (bpx_fill_count p) OR push_bit 32 (ucast (bpx_iv_2 p))))) (\<lambda>_.
     bindD (liftD BpEncEndian (put_u64 e (fst (bpx_checksum_value p)))) (\<lambda>_.
     bindD (liftD BpEncEndian (put_u64 e (snd (bpx_checksum_value p)))) (\<lambda>_.
     bindD (liftD BpEncEndian (put_u64 e (fst (bpx_mac p)))) (\<lambda>_.
     liftD BpEncEndian (put_u64 e (snd (bpx_mac p))))))))))))))"

record bp_regular =
  bpr_checksum_type :: checksum_type
  bpr_checksum_value :: checksum_value
  bpr_compression :: compression_type
  bpr_dedup :: bool
  bpr_dmu :: dmu_type
  bpr_dvas :: "dva option list"
  bpr_order :: endian_order
  bpr_fill_count :: u64
  bpr_level :: u8
  bpr_logical_birth_txg :: u64
  bpr_logical_sectors :: u32
  bpr_physical_birth_txg :: u64
  bpr_physical_sectors :: u32

definition bp_regular_from_decoder :: "binary_decoder \<Rightarrow> bp_regular bp_dec" where
  "bp_regular_from_decoder d =
     bindD (liftD BpDva (dva_from_decoder d)) (\<lambda>dva0.
     bindD (liftD BpDva (dva_from_decoder d)) (\<lambda>dva1.
     bindD (liftD BpDva (dva_from_decoder d)) (\<lambda>dva2.
     bindD (liftD BpBinary (get_u64 d)) (\<lambda>flags.
     let embedded = (flags AND EMBEDDED_BIT_FLAG \<noteq> 0);
         encrypted = (flags AND ENCRYPTED_BIT_FLAG \<noteq> 0) in
     if (embedded, encrypted) \<noteq> (False, False)
     then failD (BpInvalidBlockPointerType embedded encrypted)
     else
     bindD (liftD BpDmuType (resultD (dmu_type_try_from (ucast (drop_bit 48 flags))))) (\<lambda>dmu.
     bindD (liftD BpChecksumType (resultD (checksum_type_try_from (ucast (drop_bit 40 flags))))) (\<lambda>checksum_type.
     bindD (liftD BpCompressionType (resultD (compression_type_try_from (flags_compression flags)))) (\<lambda>compression.
     bindD (liftD BpBinary (skip_zeros d 16)) (\<lambda>_.
     bindD (liftD BpBinary (get_u64 d)) (\<lambda>physical_birth_txg.
     bindD (liftD BpBinary (get_u64 d)) (\<lambda>logical_birth_txg.
     bindD (liftD BpBinary (get_u64 d)) (\<lambda>fill_count.
     bindD (liftD BpChecksumValue (checksum_value_from_decoder d)) (\<lambda>checksum_value.
     returnD \<lparr>
       bpr_checksum_type = checksum_type,
       bpr_checksum_value = checksum_value,
       bpr_compression = compression,
       bpr_dedup = (flags AND DEDUP_BIT_FLAG \<noteq> 0),
       bpr_dmu = dmu,
       bpr_dvas = [dva0, dva1, dva2],
       bpr_order = flags_order flags,
       bpr_fill_count = fill_count,
       bpr_level = flags_level flags,
       bpr_logical_birth_txg = logical_birth_txg,
       bpr_logical_sectors = flags_logical_sectors flags,
       bpr_physical_birth_txg = physical_birth_txg,
       bpr_physical_sectors = flags_physical_sectors flags\<rparr>))))))))))))"

definition bp_regular_to_encoder :: "binary_encoder \<Rightarrow> bp_regular \<Rightarrow> bp_enc" where
  "bp_regular_to_encoder e p =
     bindD (forD (bpr_dvas p) (\<lambda>v. liftD BpEncDva (dva_option_to_encoder e v))) (\<lambda>_.
     if bpr_logical_sectors p < 1 \<or> bpr_logical_sectors p > 65536
     then failD (BpEncInvalidLogicalSectors (bpr_logical_sectors p))
     else if bpr_physical_sectors p < 1 \<or> bpr_physical_sectors p > 65536
     then failD (BpEncInvalidPhysicalSectors (bpr_physical_sectors p))
     else if ucast (bpr_level p) > (0x1f :: u64) then failD (BpEncInvalidLevel (bpr_level p))
     else
     bindD (liftD BpEncEndian (put_u64 e
       (bp_pack_flags (bpr_logical_sectors p) (bpr_physical_sectors p) (bpr_compression p)
          (bpr_checksum_type p) (bpr_dmu p) (bpr_level p) 0 (bpr_dedup p) (bpr_order p)))) (\<lambda>_.
     bindD (liftD BpEncEndian (put_zeros e 16)) (\<lambda>_.
     bindD (liftD BpEncEndian (put_u64 e (bpr_physical_birth_txg p))) (\<lambda>_.
     bindD (liftD BpEncEndian (put_u64 e (bpr_logical_birth_txg p))) (\<lambda>_.
     bindD (liftD BpEncEndian (put_u64 e (bpr_fill_count p))) (\<lambda>_.
     liftD BpEncChecksumValue (checksum_value_to_encoder e (bpr_checksum_value p))))))))"

section \<open>Block pointers\<close>

datatype block_pointer =
    Embedded bp_embedded
  | Encrypted bp_encrypted
  | Regular bp_regular

definition block_pointer_from_decoder :: "binary_decoder \<Rightarrow> block_pointer option bp_dec" where
  "block_pointer_from_decoder d =
     bindD (liftD BpBinary (is_skip_zeros d 128)) (\<lambda>zero.
     if zero then returnD None
     else (\<lambda>b. bindD (liftD BpBinary (skip d 48)) (\<lambda>_.
       bindD (liftD BpBinary (get_u64 d)) (\<lambda>flags.
       bindD (liftD BpBinary (seek d (buf_offset b))) (\<lambda>_.
       let embedded = (flags AND EMBEDDED_BIT_FLAG \<noteq> 0);
           encrypted = (flags AND ENCRYPTED_BIT_FLAG \<noteq> 0) in
       case (embedded, encrypted) of
         (False, False) \<Rightarrow> bindD (bp_regular_from_decoder d) (\<lambda>p. returnD (Some (Regular p)))
       | (False, True) \<Rightarrow> bindD (bp_encrypted_from_decoder d) (\<lambda>p. returnD (Some (Encrypted p)))
       | (True, False) \<Rightarrow> bindD (bp_embedded_from_decoder d) (\<lambda>p. returnD (Some (Embedded p)))
       | (True, True) \<Rightarrow> failD (BpInvalidBlockPointerType embedded encrypted)))) b))"

definition block_pointer_to_encoder :: "binary_encoder \<Rightarrow> block_pointer \<Rightarrow> bp_enc" where
  "block_pointer_to_encoder e p =
     (case p of
        Embedded q \<Rightarrow> bp_embedded_to_encoder e q
      | Encrypted q \<Rightarrow> bp_encrypted_to_encoder e q
      | Regular q \<Rightarrow> bp_regular_to_encoder e q)"

definition block_pointer_empty_to_encoder :: "binary_encoder \<Rightarrow> bp_enc" where
  "block_pointer_empty_to_encoder e = liftD BpEncEndian (put_zeros e 128)"

definition block_pointer_option_to_encoder :: "binary_encoder \<Rightarrow> block_pointer option \<Rightarrow> bp_enc" where
  "block_pointer_option_to_encoder e p =
     (case p of Some v \<Rightarrow> block_pointer_to_encoder e v | None \<Rightarrow> block_pointer_empty_to_encoder e)"

definition block_pointer_order :: "block_pointer \<Rightarrow> endian_order" where
  "block_pointer_order p =
     (case p of Embedded q \<Rightarrow> bpe_order q | Encrypted q \<Rightarrow> bpx_order q | Regular q \<Rightarrow> bpr_order q)"

section \<open>Safety\<close>

context decoder_contract
begin

lemma checksum_value_safe: "safe_dec (checksum_value_from_decoder d)"
  unfolding checksum_value_from_decoder_def by (intro dec_safe methods)

lemma bp_embedded_safe: "safe_dec (bp_embedded_from_decoder d)"
  unfolding bp_embedded_from_decoder_def Let_def
  by (intro dec_safe methods) (simp_all add: embedded_type_try_from_def)

lemma bp_encrypted_safe: "safe_dec (bp_encrypted_from_decoder d)"
  unfolding bp_encrypted_from_decoder_def Let_def by (intro dec_safe methods dva_safe) simp_all

lemma bp_regular_safe: "safe_dec (bp_regular_from_decoder d)"
  unfolding bp_regular_from_decoder_def Let_def
  by (intro dec_safe methods dva_safe checksum_value_safe) simp_all

lemma block_pointer_safe: "safe_dec (block_pointer_from_decoder d)"
proof -
  let ?body = "\<lambda>b. bindD (liftD BpBinary (skip d 48)) (\<lambda>_.
       bindD (liftD BpBinary (get_u64 d)) (\<lambda>flags.
       bindD (liftD BpBinary (seek d (buf_offset b))) (\<lambda>_.
       let embedded = (flags AND EMBEDDED_BIT_FLAG \<noteq> 0);
           encrypted = (flags AND ENCRYPTED_BIT_FLAG \<noteq> 0) in
       case (embedded, encrypted) of
         (False, False) \<Rightarrow> bindD (bp_regular_from_decoder d) (\<lambda>p. returnD (Some (Regular p)))
       | (False, True) \<Rightarrow> bindD (bp_encrypted_from_decoder d) (\<lambda>p. returnD (Some (Encrypted p)))
       | (True, False) \<Rightarrow> bindD (bp_embedded_from_decoder d) (\<lambda>p. returnD (Some (Embedded p)))
       | (True, True) \<Rightarrow> failD (BpInvalidBlockPointerType embedded encrypted))))"
  have "safe_dec (?body b)" for b
    unfolding Let_def
    by (intro safe_bindD safe_liftD methods)
      (auto split: bool.split intro!: dec_safe bp_regular_safe bp_encrypted_safe bp_embedded_safe)
  then have "safe_dec (\<lambda>b. ?body b b)" unfolding safe_dec_def by blast
  then show ?thesis unfolding block_pointer_from_decoder_def
    by (intro safe_bindD safe_liftD safe_if methods safe_returnD)
qed

end

section \<open>Round trips\<close>

text \<open>The flag word and its fields.\<close>

lemma bit_flags [simp]:
  "bit EMBEDDED_BIT_FLAG n \<longleftrightarrow> n = 39" "bit ENCRYPTED_BIT_FLAG n \<longleftrightarrow> n = 61"
  "bit DEDUP_BIT_FLAG n \<longleftrightarrow> n = 62" "bit LITTLE_ENDIAN_BIT_FLAG n \<longleftrightarrow> n = 63"
  unfolding EMBEDDED_BIT_FLAG_def ENCRYPTED_BIT_FLAG_def DEDUP_BIT_FLAG_def LITTLE_ENDIAN_BIT_FLAG_def
  by (auto simp only: bit_push_bit_iff bit_1_iff possible_bit_word) auto

lemma zero_not_encrypted_flag: "(0 :: u64) \<noteq> ENCRYPTED_BIT_FLAG"
  by (metis bit_0_eq bit_flags(2) bot_apply bot_bool_def)

lemma and_flags:
  "(w AND EMBEDDED_BIT_FLAG \<noteq> 0) = bit w 39" "(w AND ENCRYPTED_BIT_FLAG \<noteq> 0) = bit w 61"
  "(w AND DEDUP_BIT_FLAG \<noteq> 0) = bit w 62" "(w AND LITTLE_ENDIAN_BIT_FLAG \<noteq> 0) = bit w 63"
  unfolding EMBEDDED_BIT_FLAG_def ENCRYPTED_BIT_FLAG_def DEDUP_BIT_FLAG_def LITTLE_ENDIAN_BIT_FLAG_def
  by (simp_all only: push_bit_of_1 flag_bit)

lemma and_field_masks:
  fixes w :: u64
  shows "w AND 0x1f = take_bit 5 w" "w AND 0xffff = take_bit 16 w" "w AND 0xffffffff = take_bit 32 w"
  by (simp_all add: take_bit_eq_mask mask_numeral)

lemma compression_code_bits: "bit (compression_type_to_u8 c) i \<Longrightarrow> i < 5"
proof (rule bit_below)
  show "unat (compression_type_to_u8 c) < 2 ^ 5" by (cases c) simp_all
qed

lemma sectors_bits:
  assumes "1 \<le> (n :: u32)" "n \<le> 65536" "bit (n - 1) i"
  shows "i < 16"
proof (rule bit_below)
  have "unat (n - 1) = unat n - 1" using assms(1) by (simp add: unat_sub word_le_nat_alt)
  then show "unat (n - 1) < 2 ^ 16" using assms(2) by (simp add: word_le_nat_alt)
qed (rule assms(3))

lemma level_bits: "ucast (l :: u8) \<le> (0x1f :: u64) \<Longrightarrow> bit l i \<Longrightarrow> i < 5"
  by (rule bit_below) (simp_all add: word_le_nat_alt unat_ucast_up)

lemma bp_pack_flags_fields:
  fixes c k t dedup ord
  assumes "1 \<le> ls" "ls \<le> 65536" "1 \<le> ps" "ps \<le> 65536" "ucast level \<le> (0x1f :: u64)"
    and kind: "kind = 0 \<or> kind = ENCRYPTED_BIT_FLAG"
  defines "flags \<equiv> bp_pack_flags ls ps c k t level kind dedup ord"
  shows "bit flags 39 = False" "bit flags 61 = (kind = ENCRYPTED_BIT_FLAG)"
    "bit flags 62 = dedup" "flags_order flags = ord" "flags_level flags = level"
    "ucast (drop_bit 48 flags) = dmu_type_to_u8 t" "ucast (drop_bit 40 flags) = checksum_type_to_u8 k"
    "flags_compression flags = compression_type_to_u8 c"
    "flags_logical_sectors flags = ls" "flags_physical_sectors flags = ps"
proof -
  note bits = sectors_bits[OF assms(1,2)] sectors_bits[OF assms(3,4)] level_bits[OF assms(5)] compression_code_bits
  have ord: "bit (case ord of Little \<Rightarrow> LITTLE_ENDIAN_BIT_FLAG | Big \<Rightarrow> 0) n \<longleftrightarrow> ord = Little \<and> n = 63" for n
    by (cases ord) auto
  have knd: "bit kind n \<longleftrightarrow> kind = ENCRYPTED_BIT_FLAG \<and> n = 61" for n
    using kind zero_not_encrypted_flag by auto
  have flags: "bit flags n \<longleftrightarrow>
      (if n < 16 then bit (ls - 1) n
       else if n < 32 then bit (ps - 1) (n - 16)
       else if n < 40 then bit (compression_type_to_u8 c) (n - 32)
       else if n < 48 then bit (checksum_type_to_u8 k) (n - 40)
       else if n < 56 then bit (dmu_type_to_u8 t) (n - 48)
       else if n < 61 then bit level (n - 56)
       else if n = 61 then kind = ENCRYPTED_BIT_FLAG
       else if n = 62 then dedup
       else n = 63 \<and> ord = Little)" for n
    unfolding flags_def bp_pack_flags_def
    by (auto simp: bit_simps ord knd dest: bits bit_imp_le_length)
  have no_comp: "\<not> bit (compression_type_to_u8 c) 7"
    using compression_code_bits[of c 7] by auto
  show "bit flags 39 = False" "bit flags 61 = (kind = ENCRYPTED_BIT_FLAG)" "bit flags 62 = dedup"
    by (simp_all add: flags no_comp)
  show "flags_order flags = ord" by (cases ord) (simp_all add: flags_order_def and_flags flags)
  show "flags_level flags = level" unfolding flags_level_def and_field_masks
    by (rule bit_word_eqI) (auto simp: bit_simps flags dest: bits)
  show "ucast (drop_bit 48 flags) = dmu_type_to_u8 t" "ucast (drop_bit 40 flags) = checksum_type_to_u8 k"
    by (rule bit_word_eqI; simp add: bit_simps flags)+
  show "flags_compression flags = compression_type_to_u8 c" unfolding flags_compression_def and_field_masks
    by (rule bit_word_eqI) (auto simp: bit_simps flags dest: bits)
  have "ucast (flags AND 0xffff) = ls - 1" unfolding and_field_masks
    by (rule bit_word_eqI) (auto simp: bit_simps flags dest: bits)
  then show "flags_logical_sectors flags = ls" by (simp add: flags_logical_sectors_def)
  have "ucast (drop_bit 16 flags AND 0xffff) = ps - 1" unfolding and_field_masks
    by (rule bit_word_eqI) (auto simp: bit_simps flags dest: bits)
  then show "flags_physical_sectors flags = ps" by (simp add: flags_physical_sectors_def)
qed

text \<open>The bytes of a checksum value, of a regular and of an encrypted block pointer.\<close>

definition checksum_value_bytes :: "endian_order \<Rightarrow> checksum_value \<Rightarrow> bytes" where
  "checksum_value_bytes ord v = (case cv_words v of (w0, w1, w2, w3) \<Rightarrow>
     word_bytes ord 8 w0 @ word_bytes ord 8 w1 @ word_bytes ord 8 w2 @ word_bytes ord 8 w3)"

definition bpr_flags :: "bp_regular \<Rightarrow> u64" where
  "bpr_flags p = bp_pack_flags (bpr_logical_sectors p) (bpr_physical_sectors p) (bpr_compression p)
     (bpr_checksum_type p) (bpr_dmu p) (bpr_level p) 0 (bpr_dedup p) (bpr_order p)"

definition bp_regular_bytes :: "endian_order \<Rightarrow> bp_regular \<Rightarrow> bytes" where
  "bp_regular_bytes ord p = concat (map (dva_bytes ord) (bpr_dvas p)) @ word_bytes ord 8 (bpr_flags p) @
     replicate 16 0 @ word_bytes ord 8 (bpr_physical_birth_txg p) @
     word_bytes ord 8 (bpr_logical_birth_txg p) @ word_bytes ord 8 (bpr_fill_count p) @
     checksum_value_bytes ord (bpr_checksum_value p)"

definition wf_bp_regular :: "bp_regular \<Rightarrow> bool" where
  "wf_bp_regular p \<longleftrightarrow> length (bpr_dvas p) = 3 \<and> (\<forall>v. Some v \<in> set (bpr_dvas p) \<longrightarrow> wf_dva v) \<and>
     1 \<le> bpr_logical_sectors p \<and> bpr_logical_sectors p \<le> 65536 \<and>
     1 \<le> bpr_physical_sectors p \<and> bpr_physical_sectors p \<le> 65536 \<and>
     ucast (bpr_level p) \<le> (0x1f :: u64)"

definition bpx_flags :: "bp_encrypted \<Rightarrow> u64" where
  "bpx_flags p = bp_pack_flags (bpx_logical_sectors p) (bpx_physical_sectors p) (bpx_compression p)
     (bpx_checksum_type p) (bpx_dmu p) (bpx_level p) ENCRYPTED_BIT_FLAG (bpx_dedup p) (bpx_order p)"

definition bp_encrypted_bytes :: "endian_order \<Rightarrow> bp_encrypted \<Rightarrow> bytes" where
  "bp_encrypted_bytes ord p = concat (map (dva_bytes ord) (bpx_dvas p)) @
     word_bytes ord 8 (bpx_salt p) @ word_bytes ord 8 (bpx_iv_1 p) @ word_bytes ord 8 (bpx_flags p) @
     replicate 16 0 @ word_bytes ord 8 (bpx_physical_birth_txg p) @
     word_bytes ord 8 (bpx_logical_birth_txg p) @
     word_bytes ord 8 (ucast (bpx_fill_count p) OR push_bit 32 (ucast (bpx_iv_2 p)) :: u64) @
     word_bytes ord 8 (fst (bpx_checksum_value p)) @ word_bytes ord 8 (snd (bpx_checksum_value p)) @
     word_bytes ord 8 (fst (bpx_mac p)) @ word_bytes ord 8 (snd (bpx_mac p))"

definition wf_bp_encrypted :: "bp_encrypted \<Rightarrow> bool" where
  "wf_bp_encrypted p \<longleftrightarrow> length (bpx_dvas p) = 2 \<and> (\<forall>v. Some v \<in> set (bpx_dvas p) \<longrightarrow> wf_dva v) \<and>
     1 \<le> bpx_logical_sectors p \<and> bpx_logical_sectors p \<le> 65536 \<and>
     1 \<le> bpx_physical_sectors p \<and> bpx_physical_sectors p \<le> 65536 \<and>
     ucast (bpx_level p) \<le> (0x1f :: u64)"

lemma length_checksum_value_bytes [simp]: "length (checksum_value_bytes ord v) = 32"
  by (simp add: checksum_value_bytes_def split: prod.split)

lemma checksum_value_reads:
  "reads (checksum_value_from_decoder (endian_decoder ord)) (checksum_value_bytes ord v) v"
proof -
  obtain w0 w1 w2 w3 where w: "cv_words v = (w0, w1, w2, w3)" by (cases "cv_words v")
  then show ?thesis unfolding checksum_value_bytes_def w prod.case checksum_value_from_decoder_def
    by (intro reads_bindD[OF endian_get_u64] reads_bindD_last[OF endian_get_u64] reads_returnD_eq)
      (use w in \<open>cases v; simp\<close>)
qed

lemma checksum_value_writes:
  "writes (checksum_value_to_encoder (endian_encoder ord) v) (checksum_value_bytes ord v)"
  unfolding checksum_value_to_encoder_def checksum_value_bytes_def
  by (auto split: prod.split intro!: writes_bindD endian_put_u64)

lemma concat_dva_bytes_length [simp]:
  "length (concat (map (dva_bytes ord) vs)) = 16 * length vs"
  by (induction vs) auto

lemma dvas_writes:
  "(\<And>v. Some v \<in> set vs \<Longrightarrow> wf_dva v) \<Longrightarrow>
   writes (forD vs (\<lambda>v. liftD C (dva_option_to_encoder (endian_encoder ord) v))) (concat (map (dva_bytes ord) vs))"
  by (induction vs) (auto intro!: enc_writes dva_writes)

lemma bp_regular_writes:
  "wf_bp_regular p \<Longrightarrow> writes (bp_regular_to_encoder (endian_encoder ord) p) (bp_regular_bytes ord p)"
  unfolding bp_regular_to_encoder_def bp_regular_bytes_def
  by (rule writes_bindD)
    (auto simp: wf_bp_regular_def not_less bpr_flags_def
      intro!: dvas_writes writes_bindD writes_liftD endian_put_u64 writes_put_zeros checksum_value_writes)

lemma bp_encrypted_writes:
  "wf_bp_encrypted p \<Longrightarrow> writes (bp_encrypted_to_encoder (endian_encoder ord) p) (bp_encrypted_bytes ord p)"
  unfolding bp_encrypted_to_encoder_def bp_encrypted_bytes_def
  by (rule writes_bindD)
    (auto simp: wf_bp_encrypted_def not_less bpx_flags_def
      intro!: dvas_writes writes_bindD writes_liftD endian_put_u64 writes_put_zeros)

lemma bp_regular_reads:
  assumes wf: "wf_bp_regular p"
  shows "reads (bp_regular_from_decoder (endian_decoder ord)) (bp_regular_bytes ord p) p"
proof -
  obtain v0 v1 v2 where dvas: "bpr_dvas p = [v0, v1, v2]"
    using wf by (auto simp: wf_bp_regular_def length_Suc_conv numeral_3_eq_3)
  have "wf_dva w" if "v0 = Some w \<or> v1 = Some w \<or> v2 = Some w" for w
    using wf that by (auto simp: wf_bp_regular_def dvas)
  then have dva: "reads (liftD BpDva (dva_from_decoder (endian_decoder ord))) (dva_bytes ord v) v"
    if "v \<in> {v0, v1, v2}" for v
    using that by (intro reads_liftD dva_reads) auto
  note flags = bp_pack_flags_fields[where kind = 0, of "bpr_logical_sectors p" "bpr_physical_sectors p" "bpr_level p"
      "bpr_compression p" "bpr_checksum_type p" "bpr_dmu p" "bpr_dedup p" "bpr_order p", folded bpr_flags_def]
  from flags wf zero_not_encrypted_flag have flags: "\<not> bit (bpr_flags p) 39" "\<not> bit (bpr_flags p) 61" "bit (bpr_flags p) 62 = bpr_dedup p"
    "flags_order (bpr_flags p) = bpr_order p" "flags_level (bpr_flags p) = bpr_level p"
    "ucast (drop_bit 48 (bpr_flags p)) = dmu_type_to_u8 (bpr_dmu p)"
    "ucast (drop_bit 40 (bpr_flags p)) = checksum_type_to_u8 (bpr_checksum_type p)"
    "flags_compression (bpr_flags p) = compression_type_to_u8 (bpr_compression p)"
    "flags_logical_sectors (bpr_flags p) = bpr_logical_sectors p"
    "flags_physical_sectors (bpr_flags p) = bpr_physical_sectors p"
    by (simp_all add: wf_bp_regular_def)
  note get = endian_get_u64[THEN reads_liftD]
  show ?thesis
    unfolding bp_regular_bytes_def bp_regular_from_decoder_def dvas list.map concat.simps append_Nil2 append_assoc
    apply (rule reads_bindD[OF dva], simp, rule reads_bindD[OF dva], simp, rule reads_bindD[OF dva], simp,
        rule reads_bindD[OF get])
    apply (simp add: and_flags flags)
    apply (rule reads_bindD_nil[OF reads_liftD[OF reads_resultD]], simp,
        rule reads_bindD_nil[OF reads_liftD[OF reads_resultD]], simp,
        rule reads_bindD_nil[OF reads_liftD[OF reads_resultD]], simp)
    apply (rule reads_bindD[OF reads_liftD[OF reads_buf_skip_zeros]])
    apply (intro reads_bindD[OF get])
    apply (rule reads_bindD_last[OF reads_liftD[OF checksum_value_reads]])
    apply (rule reads_returnD_eq, simp add: dvas[symmetric])
    done
qed

lemma iv_fill_fields:
  fixes f i :: u32
  shows "ucast ((ucast f OR push_bit 32 (ucast i) :: u64) AND 0xffffffff) = f"
    "ucast (drop_bit 32 (ucast f OR push_bit 32 (ucast i) :: u64)) = i"
  unfolding and_field_masks by (rule bit_word_eqI; auto simp: bit_simps dest: bit_imp_le_length)+

lemma bp_encrypted_reads:
  assumes wf: "wf_bp_encrypted p"
  shows "reads (bp_encrypted_from_decoder (endian_decoder ord)) (bp_encrypted_bytes ord p) p"
proof -
  obtain v0 v1 where dvas: "bpx_dvas p = [v0, v1]"
    using wf by (auto simp: wf_bp_encrypted_def length_Suc_conv numeral_2_eq_2)
  have "wf_dva w" if "v0 = Some w \<or> v1 = Some w" for w
    using wf that by (auto simp: wf_bp_encrypted_def dvas)
  then have dva: "reads (liftD BpDva (dva_from_decoder (endian_decoder ord))) (dva_bytes ord v) v"
    if "v \<in> {v0, v1}" for v
    using that by (intro reads_liftD dva_reads) auto
  note flags = bp_pack_flags_fields[where kind = ENCRYPTED_BIT_FLAG, of "bpx_logical_sectors p"
      "bpx_physical_sectors p" "bpx_level p" "bpx_compression p" "bpx_checksum_type p" "bpx_dmu p"
      "bpx_dedup p" "bpx_order p", folded bpx_flags_def]
  from flags wf have flags: "\<not> bit (bpx_flags p) 39" "bit (bpx_flags p) 61" "bit (bpx_flags p) 62 = bpx_dedup p"
    "flags_order (bpx_flags p) = bpx_order p" "flags_level (bpx_flags p) = bpx_level p"
    "ucast (drop_bit 48 (bpx_flags p)) = dmu_type_to_u8 (bpx_dmu p)"
    "ucast (drop_bit 40 (bpx_flags p)) = checksum_type_to_u8 (bpx_checksum_type p)"
    "flags_compression (bpx_flags p) = compression_type_to_u8 (bpx_compression p)"
    "flags_logical_sectors (bpx_flags p) = bpx_logical_sectors p"
    "flags_physical_sectors (bpx_flags p) = bpx_physical_sectors p"
    by (simp_all add: wf_bp_encrypted_def)
  note get = endian_get_u64[THEN reads_liftD]
  show ?thesis
    unfolding bp_encrypted_bytes_def bp_encrypted_from_decoder_def dvas list.map concat.simps append_Nil2 append_assoc
    apply (rule reads_bindD[OF dva], simp, rule reads_bindD[OF dva], simp)
    apply (intro reads_bindD[OF get])
    apply (simp add: and_flags flags)
    apply (rule reads_bindD_nil[OF reads_liftD[OF reads_resultD]], simp,
        rule reads_bindD_nil[OF reads_liftD[OF reads_resultD]], simp,
        rule reads_bindD_nil[OF reads_liftD[OF reads_resultD]], simp)
    apply (rule reads_bindD[OF reads_liftD[OF reads_buf_skip_zeros]])
    apply (intro reads_bindD[OF get] reads_bindD_last[OF get])
    apply (rule reads_returnD_eq, simp add: dvas[symmetric] iv_fill_fields del: drop_bit_or)
    done
qed

text \<open>
  The dispatch of \<open>BlockPointer::from_decoder\<close>: on 128 bytes that are not all zero, the two
  flag bits select the form that decodes them.
\<close>

lemma block_pointer_dispatch:
  fixes flags :: u64
  assumes len: "length bs = 128" and nz: "\<exists>x \<in> set bs. x \<noteq> 0"
    and flags: "take 8 (drop 48 bs) = word_bytes ord 8 flags"
    and form: "(\<not> bit flags 39 \<and> \<not> bit flags 61 \<and> v = Regular p \<and>
        reads (bp_regular_from_decoder (endian_decoder ord)) bs p) \<or>
      (\<not> bit flags 39 \<and> bit flags 61 \<and> v = Encrypted q \<and>
        reads (bp_encrypted_from_decoder (endian_decoder ord)) bs q) \<or>
      (bit flags 39 \<and> \<not> bit flags 61 \<and> v = Embedded r \<and>
        reads (bp_embedded_from_decoder (endian_decoder ord)) bs r)"
  shows "reads (block_pointer_from_decoder (endian_decoder ord)) bs (Some v)"
  unfolding reads_def
proof (intro allI impI)
  fix b :: buffer
  assume b: "wf_buf b" "buf_offset b + length bs \<le> buf_max_offset b"
    "take (length bs) (drop (buf_offset b) (buf_data b)) = bs"
  let ?b = "b\<lparr>buf_offset := buf_offset b + 48\<rparr>" and ?c = "b\<lparr>buf_offset := buf_offset b + 56\<rparr>"
  have zeros: "buf_is_skip_zeros 128 b = Ok (False, b)"
    using reads_buf_get_bytes[of 128 bs] b nz len
    by (auto simp: reads_def buf_is_skip_zeros_def bindD_def)
  have skip: "buf_skip 48 b = Ok ((), ?b)"
    using b len by (simp add: buf_skip_def buffer_defs)
  have "take 8 (drop (buf_offset ?b) (buf_data ?b)) = word_bytes ord 8 flags"
    using arg_cong[OF b(3), of "\<lambda>x. take 8 (drop 48 x)"] len flags
    by (simp add: drop_take take_take min_def add.commute)
  then have get: "get_u64 (endian_decoder ord) ?b = Ok (flags, ?c)"
    using endian_get_u64[of ord flags] b len by (simp add: reads_def add.commute wf_buf_def)
  have seek: "buf_seek (buf_offset b) ?c = Ok ((), b)"
    using b len by (simp add: buf_seek_def wf_buf_def)
  note read = readsD[OF _ b]
  from form show "block_pointer_from_decoder (endian_decoder ord) b =
      Ok (Some v, b\<lparr>buf_offset := buf_offset b + length bs\<rparr>)"
    by (auto simp: block_pointer_from_decoder_def bindD_def liftD_def zeros skip get seek and_flags returnD_def dest: read)
qed

lemma bp_bytes_length:
  "length (bpr_dvas p) = 3 \<Longrightarrow> length (bp_regular_bytes ord p) = 128"
  "length (bpx_dvas q) = 2 \<Longrightarrow> length (bp_encrypted_bytes ord q) = 128"
  by (simp_all add: bp_regular_bytes_def bp_encrypted_bytes_def)

text \<open>The pointers \<open>to_encoder\<close> accepts, and the bytes it writes for them.\<close>

definition block_pointer_bytes :: "endian_order \<Rightarrow> block_pointer \<Rightarrow> bytes" where
  "block_pointer_bytes ord v = (case v of
     Regular p \<Rightarrow> bp_regular_bytes ord p | Encrypted p \<Rightarrow> bp_encrypted_bytes ord p | Embedded p \<Rightarrow> [])"

definition wf_block_pointer :: "block_pointer \<Rightarrow> bool" where
  "wf_block_pointer v \<longleftrightarrow> (case v of
     Regular p \<Rightarrow> wf_bp_regular p | Encrypted p \<Rightarrow> wf_bp_encrypted p | Embedded p \<Rightarrow> False)"

lemma word_bytes_nonzero: "(w :: u64) \<noteq> 0 \<Longrightarrow> \<exists>x \<in> set (word_bytes ord 8 w). x \<noteq> 0"
proof (rule ccontr)
  assume w: "w \<noteq> 0" and "\<not> (\<exists>x \<in> set (word_bytes ord 8 w). x \<noteq> 0)"
  then have "\<forall>x \<in> set (le_bytes 8 w). x = 0"
    by (cases ord) (auto simp: word_bytes_def be_bytes_def)
  then have "le_bytes 8 w = replicate 8 0"
    by (metis length_le_bytes replicate_length_same)
  then have "le_bytes 8 w = le_bytes 8 (0 :: u64)" by (simp add: numeral_eq_Suc)
  then have "le_word (le_bytes 8 w) = (le_word (le_bytes 8 (0 :: u64)) :: u64)" by simp
  then show False using w by (simp add: le_word_le_bytes)
qed

lemma block_pointer_writes:
  "wf_block_pointer v \<Longrightarrow> writes (block_pointer_to_encoder (endian_encoder ord) v) (block_pointer_bytes ord v)"
  by (cases v) (simp_all add: wf_block_pointer_def block_pointer_to_encoder_def block_pointer_bytes_def
      bp_regular_writes bp_encrypted_writes)

lemma length_block_pointer_bytes: "wf_block_pointer v \<Longrightarrow> length (block_pointer_bytes ord v) = 128"
  by (cases v) (simp_all add: wf_block_pointer_def block_pointer_bytes_def bp_bytes_length
      wf_bp_regular_def wf_bp_encrypted_def)

lemma block_pointer_reads_zeros:
  "reads (block_pointer_from_decoder (endian_decoder ord)) (replicate 128 0) None"
  using reads_buf_get_bytes[of 128 "replicate 128 0"]
  by (auto simp: reads_def block_pointer_from_decoder_def bindD_def liftD_def buf_is_skip_zeros_def returnD_def)

lemma block_pointer_reads:
  assumes "wf_block_pointer v" "\<exists>x \<in> set (block_pointer_bytes ord v). x \<noteq> 0"
  shows "reads (block_pointer_from_decoder (endian_decoder ord)) (block_pointer_bytes ord v) (Some v)"
proof (cases v)
  case (Regular p)
  then have wf: "wf_bp_regular p" using assms by (simp add: wf_block_pointer_def)
  then have flags: "\<not> bit (bpr_flags p) 39" "\<not> bit (bpr_flags p) 61"
    using bp_pack_flags_fields(1,2)[where kind = 0] zero_not_encrypted_flag
    by (simp_all add: bpr_flags_def wf_bp_regular_def)
  show ?thesis
  proof (rule block_pointer_dispatch[where flags = "bpr_flags p" and p = p])
    show "take 8 (drop 48 (block_pointer_bytes ord v)) = word_bytes ord 8 (bpr_flags p)"
      using wf by (simp add: Regular block_pointer_bytes_def bp_regular_bytes_def wf_bp_regular_def)
  qed (use assms flags bp_regular_reads[OF wf] length_block_pointer_bytes[OF assms(1)] in
      \<open>simp_all add: Regular block_pointer_bytes_def\<close>)
next
  case (Encrypted p)
  then have wf: "wf_bp_encrypted p" using assms by (simp add: wf_block_pointer_def)
  then have flags: "\<not> bit (bpx_flags p) 39" "bit (bpx_flags p) 61"
    using bp_pack_flags_fields(1,2)[where kind = ENCRYPTED_BIT_FLAG]
    by (simp_all add: bpx_flags_def wf_bp_encrypted_def)
  show ?thesis
  proof (rule block_pointer_dispatch[where flags = "bpx_flags p" and q = p])
    show "take 8 (drop 48 (block_pointer_bytes ord v)) = word_bytes ord 8 (bpx_flags p)"
      using wf by (simp add: Encrypted block_pointer_bytes_def bp_encrypted_bytes_def wf_bp_encrypted_def)
  qed (use assms flags bp_encrypted_reads[OF wf] length_block_pointer_bytes[OF assms(1)] in
      \<open>simp_all add: Encrypted block_pointer_bytes_def\<close>)
qed (use assms in \<open>simp add: wf_block_pointer_def\<close>)

section \<open>Properties\<close>

text \<open>
  C4. Round trip of the block pointer: a regular or encrypted pointer whose fields are in range
  is encoded into its 128 bytes, in either byte order, and decoding those bytes gives back the
  same pointer; the only exception is an encoding of 128 zero bytes, which decodes as a hole.
\<close>

theorem block_pointer_roundtrip:
  assumes "wf_block_pointer v" "length dst = 128"
  shows "\<exists>eb bs. block_pointer_to_encoder (endian_encoder ord) v (enc_to_bytes dst) = Ok ((), eb) \<and>
           enc_finish eb = Ok bs \<and> length bs = 128 \<and>
           (\<exists>b. block_pointer_from_decoder (endian_decoder ord) (buf_from_bytes bs) =
                  Ok (if bs = replicate 128 0 then None else Some v, b) \<and> buf_is_empty b)"
proof -
  let ?bs = "block_pointer_bytes ord v"
  have len: "length ?bs = 128" by (rule length_block_pointer_bytes[OF assms(1)])
  have "reads (block_pointer_from_decoder (endian_decoder ord)) ?bs
      (if ?bs = replicate 128 0 then None else Some v)"
  proof (cases "?bs = replicate 128 0")
    case True
    then show ?thesis by (simp only: block_pointer_reads_zeros simp_thms if_True)
  next
    case False
    then have "\<exists>x \<in> set ?bs. x \<noteq> 0" using len by (metis replicate_length_same)
    with False block_pointer_reads[OF assms(1)] show ?thesis by simp
  qed
  from writes_reads_roundtrip[OF block_pointer_writes[OF assms(1)] this] len assms(2)
  show ?thesis by (intro exI[of _ ?bs] ex_comm[THEN iffD1]) (auto simp del: ex_simps)
qed

definition sample_bp_regular :: bp_regular where
  "sample_bp_regular = \<lparr>
     bpr_checksum_type = Ck_Fletcher4,
     bpr_checksum_value = \<lparr>cv_words = (1, 2, 3, 4)\<rparr>,
     bpr_compression = Co_Lz4,
     bpr_dedup = True,
     bpr_dmu = Dmu_Dnode,
     bpr_dvas = [Some \<lparr>dva_allocated = 8, dva_offset = 5, dva_is_gang = True, dva_vdev = 7\<rparr>, None, None],
     bpr_order = Little,
     bpr_fill_count = 9,
     bpr_level = 1,
     bpr_logical_birth_txg = 10,
     bpr_logical_sectors = 8,
     bpr_physical_birth_txg = 11,
     bpr_physical_sectors = 65536\<rparr>"

lemma block_pointer_roundtrip_witness:
  "wf_block_pointer (Regular sample_bp_regular) \<and>
   (\<exists>eb bs. block_pointer_to_encoder (endian_encoder Big) (Regular sample_bp_regular)
       (enc_to_bytes (replicate 128 0)) = Ok ((), eb) \<and>
     enc_finish eb = Ok bs \<and> length bs = 128 \<and>
     (\<exists>b. block_pointer_from_decoder (endian_decoder Big) (buf_from_bytes bs) =
        Ok (if bs = replicate 128 0 then None else Some (Regular sample_bp_regular), b) \<and> buf_is_empty b))"
proof
  show wf: "wf_block_pointer (Regular sample_bp_regular)"
    by (simp add: wf_block_pointer_def wf_bp_regular_def sample_bp_regular_def wf_dva_def word_le_nat_alt
        unat_ucast_up)
  show "\<exists>eb bs. block_pointer_to_encoder (endian_encoder Big) (Regular sample_bp_regular)
       (enc_to_bytes (replicate 128 0)) = Ok ((), eb) \<and>
     enc_finish eb = Ok bs \<and> length bs = 128 \<and>
     (\<exists>b. block_pointer_from_decoder (endian_decoder Big) (buf_from_bytes bs) =
        Ok (if bs = replicate 128 0 then None else Some (Regular sample_bp_regular), b) \<and> buf_is_empty b)"
    by (rule block_pointer_roundtrip[OF wf]) simp
qed

text \<open>
  C25. An embedded block pointer cannot be encoded: the big and little endian encoders do not
  support \<open>put_bytes\<close>, so \<open>to_encoder\<close> returns their error for every embedded pointer, whatever
  the buffer (the decoder reads the payload with \<open>get_bytes_n\<close>).
\<close>

theorem embedded_never_encodes:
  "block_pointer_to_encoder (endian_encoder ord) (Embedded p) eb =
     (if bpe_physical_size p > length (bpe_payload p)
      then Err (BpEncInvalidEmbeddedLength (bpe_physical_size p))
      else Err (BpEncEndian (EncNotSupported ''put_bytes'')))"
  by (simp add: block_pointer_to_encoder_def bp_embedded_to_encoder_def bindD_def liftD_def failD_def)

end
