(* ===== verification/Fletcher.thy ===== *)
theory Fletcher
  imports Block_Pointer
begin

text \<open>
  \<open>checksum/fletcher2.rs\<close> and \<open>checksum/fletcher4.rs\<close>: the streaming hashers and their three
  portable implementations (generic, superscalar 2 and superscalar 4). The vector
  implementations are never compiled: the crate does not declare their features.

  The state array of a hasher is a list; an update of its first registers keeps the rest.
  The locale \<open>stream_step\<close> is what a superscalar loop promises (interleaved streams that
  finish to the single stream), the locale \<open>block_hasher\<close> what buffering promises; both are
  interpreted for every implementation in theory \<open>Fletcher_Equiv\<close>.
\<close>

section \<open>Hashers\<close>

record fletcher_ctx =
  fc_block_size :: nat
  fc_update_blocks_big :: "u64 list \<Rightarrow> bytes \<Rightarrow> u64 list"
  fc_update_blocks_little :: "u64 list \<Rightarrow> bytes \<Rightarrow> u64 list"
  fc_finish_blocks :: "u64 list \<Rightarrow> words4"

record fletcher =
  fl_buffer_fill :: nat
  fl_buffer :: bytes
  fl_state :: "u64 list"
  fl_order :: endian_order
  fl_impl_ctx :: fletcher_ctx
  fl_update_blocks :: "u64 list \<Rightarrow> bytes \<Rightarrow> u64 list"

definition fletcher_ctx_update :: "fletcher_ctx \<Rightarrow> endian_order \<Rightarrow> u64 list \<Rightarrow> bytes \<Rightarrow> u64 list" where
  "fletcher_ctx_update ctx ord =
     (case ord of Big \<Rightarrow> fc_update_blocks_big ctx | Little \<Rightarrow> fc_update_blocks_little ctx)"

text \<open>
  \<open>reset\<close>, \<open>update\<close> and \<open>finalize\<close> of the \<open>Checksum\<close> trait, the same code in the two files: \<open>nbuf\<close>
  and \<open>nstate\<close> are the array sizes, \<open>unit\<close> is the block size of the generic implementation and
  \<open>generic\<close> its update.
\<close>

definition fletcher_reset :: "nat \<Rightarrow> nat \<Rightarrow> endian_order \<Rightarrow> fletcher \<Rightarrow> fletcher" where
  "fletcher_reset nbuf nstate ord f = f\<lparr>
     fl_buffer_fill := 0,
     fl_buffer := replicate nbuf 0,
     fl_state := replicate nstate 0,
     fl_order := ord,
     fl_update_blocks := fletcher_ctx_update (fl_impl_ctx f) ord\<rparr>"

definition fletcher_fill :: "fletcher \<Rightarrow> bytes \<Rightarrow> fletcher \<times> bytes" where
  "fletcher_fill f data =
     (if fl_buffer_fill f > 0 then
        let todo = min (fc_block_size (fl_impl_ctx f) - fl_buffer_fill f) (length data);
            buffer = overwrite (fl_buffer f) (fl_buffer_fill f) (take todo data);
            fill = fl_buffer_fill f + todo;
            data = drop todo data in
        if fill = fc_block_size (fl_impl_ctx f)
        then (f\<lparr>fl_buffer := buffer, fl_state := fl_update_blocks f (fl_state f) (take fill buffer),
                fl_buffer_fill := 0\<rparr>, data)
        else (f\<lparr>fl_buffer := buffer, fl_buffer_fill := fill\<rparr>, data)
      else (f, data))"

definition fletcher_tail :: "bytes \<Rightarrow> fletcher \<Rightarrow> fletcher" where
  "fletcher_tail data f =
     (let remainder = length data mod fc_block_size (fl_impl_ctx f);
          f = f\<lparr>fl_state := fl_update_blocks f (fl_state f) (take (length data - remainder) data)\<rparr> in
      if remainder > 0
      then f\<lparr>fl_buffer := overwrite (fl_buffer f) 0 (drop (length data - remainder) data),
             fl_buffer_fill := remainder\<rparr>
      else f)"

definition fletcher_update :: "bytes \<Rightarrow> fletcher \<Rightarrow> fletcher" where
  "fletcher_update data f = (let (f, data) = fletcher_fill f data in fletcher_tail data f)"

definition fletcher_finalize ::
  "nat \<Rightarrow> (endian_order \<Rightarrow> u64 list \<Rightarrow> bytes \<Rightarrow> u64 list) \<Rightarrow> fletcher \<Rightarrow> words4" where
  "fletcher_finalize unit generic f =
     (let result = fc_finish_blocks (fl_impl_ctx f) (fl_state f);
          remainder = fl_buffer_fill f mod unit;
          full_block_bytes = fl_buffer_fill f - remainder in
      if full_block_bytes > 0
      then (case result of (r0, r1, r2, r3) \<Rightarrow>
        let st = generic (fl_order f) [r0, r1, r2, r3] (take full_block_bytes (fl_buffer f)) in
        (st ! 0, st ! 1, st ! 2, st ! 3))
      else result)"

section \<open>Fletcher 4\<close>

text \<open>
  The loops, over the function that reads a 32-bit word from four bytes. Registers of one kind
  (\<open>a0\<close>, \<open>a1\<close>, \<dots>) are adjacent in the state.
\<close>

definition f4_step :: "words4 \<Rightarrow> u64 \<Rightarrow> words4" where
  "f4_step s value = (case s of (a, b, c, d) \<Rightarrow>
     let a = a + value; b = b + a; c = c + b; d = d + c in (a, b, c, d))"

definition f4_generic :: "(bytes \<Rightarrow> u32) \<Rightarrow> u64 list \<Rightarrow> bytes \<Rightarrow> u64 list" where
  "f4_generic conv st data =
     (let (a, b, c, d) = foldl (\<lambda>s block. f4_step s (ucast (conv block)))
            (st ! 0, st ! 1, st ! 2, st ! 3) (chunks_exact 4 data) in
      [a, b, c, d] @ drop 4 st)"

type_synonym dual = "u64 \<times> u64"

definition add2 :: "dual \<Rightarrow> dual \<Rightarrow> dual" where
  "add2 x y = (fst x + fst y, snd x + snd y)"

definition f4_step2 :: "dual \<times> dual \<times> dual \<times> dual \<Rightarrow> dual \<Rightarrow> dual \<times> dual \<times> dual \<times> dual" where
  "f4_step2 s vw = (case s of (a, b, c, d) \<Rightarrow>
     let a = add2 a vw; b = add2 b a; c = add2 c b; d = add2 d c in (a, b, c, d))"

definition f4_superscalar2 :: "(bytes \<Rightarrow> u32) \<Rightarrow> u64 list \<Rightarrow> bytes \<Rightarrow> u64 list" where
  "f4_superscalar2 conv st data =
     (let ((a0, a1), (b0, b1), (c0, c1), (d0, d1)) =
          foldl (\<lambda>s block. f4_step2 s
              (ucast (conv (take 4 block)), ucast (conv (take 4 (drop 4 block)))))
            ((st ! 0, st ! 1), (st ! 2, st ! 3), (st ! 4, st ! 5), (st ! 6, st ! 7))
            (chunks_exact 8 data) in
      [a0, a1, b0, b1, c0, c1, d0, d1] @ drop 8 st)"

definition add4 :: "words4 \<Rightarrow> words4 \<Rightarrow> words4" where
  "add4 x y = (case x of (x0, x1, x2, x3) \<Rightarrow> case y of (y0, y1, y2, y3) \<Rightarrow>
     (x0 + y0, x1 + y1, x2 + y2, x3 + y3))"

definition f4_step4 :: "words4 \<times> words4 \<times> words4 \<times> words4 \<Rightarrow> words4 \<Rightarrow> words4 \<times> words4 \<times> words4 \<times> words4" where
  "f4_step4 s vwxy = (case s of (a, b, c, d) \<Rightarrow>
     let a = add4 a vwxy; b = add4 b a; c = add4 c b; d = add4 d c in (a, b, c, d))"

definition f4_superscalar4 :: "(bytes \<Rightarrow> u32) \<Rightarrow> u64 list \<Rightarrow> bytes \<Rightarrow> u64 list" where
  "f4_superscalar4 conv st data =
     (let ((a0, a1, a2, a3), (b0, b1, b2, b3), (c0, c1, c2, c3), (d0, d1, d2, d3)) =
          foldl (\<lambda>s block. f4_step4 s
              (ucast (conv (take 4 block)), ucast (conv (take 4 (drop 4 block))),
               ucast (conv (take 4 (drop 8 block))), ucast (conv (take 4 (drop 12 block)))))
            ((st ! 0, st ! 1, st ! 2, st ! 3), (st ! 4, st ! 5, st ! 6, st ! 7),
             (st ! 8, st ! 9, st ! 10, st ! 11), (st ! 12, st ! 13, st ! 14, st ! 15))
            (chunks_exact 16 data) in
      [a0, a1, a2, a3, b0, b1, b2, b3, c0, c1, c2, c3, d0, d1, d2, d3] @ drop 16 st)"

definition f4_update_blocks_generic_big :: "u64 list \<Rightarrow> bytes \<Rightarrow> u64 list" where
  "f4_update_blocks_generic_big = f4_generic be_word"
definition f4_update_blocks_generic_little :: "u64 list \<Rightarrow> bytes \<Rightarrow> u64 list" where
  "f4_update_blocks_generic_little = f4_generic le_word"
definition f4_update_blocks_superscalar2_big :: "u64 list \<Rightarrow> bytes \<Rightarrow> u64 list" where
  "f4_update_blocks_superscalar2_big = f4_superscalar2 be_word"
definition f4_update_blocks_superscalar2_little :: "u64 list \<Rightarrow> bytes \<Rightarrow> u64 list" where
  "f4_update_blocks_superscalar2_little = f4_superscalar2 le_word"
definition f4_update_blocks_superscalar4_big :: "u64 list \<Rightarrow> bytes \<Rightarrow> u64 list" where
  "f4_update_blocks_superscalar4_big = f4_superscalar4 be_word"
definition f4_update_blocks_superscalar4_little :: "u64 list \<Rightarrow> bytes \<Rightarrow> u64 list" where
  "f4_update_blocks_superscalar4_little = f4_superscalar4 le_word"

definition f4_finish_single :: "u64 list \<Rightarrow> words4" where
  "f4_finish_single st = (st ! 0, st ! 1, st ! 2, st ! 3)"

definition f4_finish_dual :: "u64 list \<Rightarrow> words4" where
  "f4_finish_dual st =
     (let a0 = st ! 0; a1 = st ! 1; b0 = st ! 2; b1 = st ! 3;
          c0 = st ! 4; c1 = st ! 5; d0 = st ! 6; d1 = st ! 7 in
      (a0 + a1,
       (b0 + b1) * 2 - a1,
       (c0 + c1) * 4 - (b0 + b1 * 3),
       (d0 + d1) * 8 - (c0 * 4 + c1 * 8) + b1))"

definition sum_and_mul :: "u64 list \<Rightarrow> u64 \<Rightarrow> u64" where
  "sum_and_mul v m = foldl (+) 0 v * m"

definition mul_and_sum :: "u64 list \<Rightarrow> u16 list \<Rightarrow> u64" where
  "mul_and_sum v m = foldl (\<lambda>r i. r + v ! i * ucast (m ! i)) 0 [0..<length v]"

definition f4_finish_quad :: "u64 list \<Rightarrow> words4" where
  "f4_finish_quad st =
     (let a = take 4 st; b = take 4 (drop 4 st); c = take 4 (drop 8 st); d = take 4 (drop 12 st) in
      (sum_and_mul a 1,
       sum_and_mul b 4 - (a ! 1 + a ! 2 * 2 + a ! 3 * 3),
       sum_and_mul c 16 - mul_and_sum b [6, 10, 14, 18] + a ! 2 + a ! 3 * 3,
       sum_and_mul d 64 - mul_and_sum c [48, 64, 80, 96] + mul_and_sum b [4, 10, 20, 34] - a ! 3))"

datatype fletcher_implementation =
    Generic | SuperScalar2 | SuperScalar4 | SSE2 | SSSE3 | AVX2 | AVX512F | AVX512BW

fun fletcher4_ctx :: "fletcher_implementation \<Rightarrow> fletcher_ctx option" where
  "fletcher4_ctx Generic = Some \<lparr>
     fc_block_size = 4,
     fc_update_blocks_big = f4_update_blocks_generic_big,
     fc_update_blocks_little = f4_update_blocks_generic_little,
     fc_finish_blocks = f4_finish_single\<rparr>"
| "fletcher4_ctx SuperScalar2 = Some \<lparr>
     fc_block_size = 8,
     fc_update_blocks_big = f4_update_blocks_superscalar2_big,
     fc_update_blocks_little = f4_update_blocks_superscalar2_little,
     fc_finish_blocks = f4_finish_dual\<rparr>"
| "fletcher4_ctx SuperScalar4 = Some \<lparr>
     fc_block_size = 16,
     fc_update_blocks_big = f4_update_blocks_superscalar4_big,
     fc_update_blocks_little = f4_update_blocks_superscalar4_little,
     fc_finish_blocks = f4_finish_quad\<rparr>"
| "fletcher4_ctx _ = None"

text \<open>\<open>Fletcher4::new\<close>: \<^const>\<open>None\<close> is \<open>ChecksumError::Unsupported\<close>.\<close>

definition fletcher4_new :: "fletcher_implementation \<Rightarrow> fletcher option" where
  "fletcher4_new implementation = map_option (\<lambda>ctx. \<lparr>
     fl_buffer_fill = 0,
     fl_buffer = replicate 32 0,
     fl_state = replicate 32 0,
     fl_order = Little,
     fl_impl_ctx = ctx,
     fl_update_blocks = fc_update_blocks_little ctx\<rparr>) (fletcher4_ctx implementation)"

definition fletcher4_reset :: "endian_order \<Rightarrow> fletcher \<Rightarrow> fletcher" where
  "fletcher4_reset = fletcher_reset 32 32"

definition fletcher4_generic :: "endian_order \<Rightarrow> u64 list \<Rightarrow> bytes \<Rightarrow> u64 list" where
  "fletcher4_generic ord =
     (case ord of Big \<Rightarrow> f4_update_blocks_generic_big | Little \<Rightarrow> f4_update_blocks_generic_little)"

definition fletcher4_update :: "bytes \<Rightarrow> fletcher \<Rightarrow> fletcher" where
  "fletcher4_update = fletcher_update"

definition fletcher4_finalize :: "fletcher \<Rightarrow> words4" where
  "fletcher4_finalize = fletcher_finalize 4 fletcher4_generic"

definition fletcher4_hash :: "bytes \<Rightarrow> endian_order \<Rightarrow> fletcher \<Rightarrow> words4" where
  "fletcher4_hash data ord f = fletcher4_finalize (fletcher4_update data (fletcher4_reset ord f))"

section \<open>Fletcher 2\<close>

definition f2_step :: "words4 \<Rightarrow> dual \<Rightarrow> words4" where
  "f2_step s vw = (case s of (a, b, c, d) \<Rightarrow>
     let a = a + fst vw; b = b + snd vw; c = c + a; d = d + b in (a, b, c, d))"

definition f2_pair :: "(bytes \<Rightarrow> u64) \<Rightarrow> nat \<Rightarrow> bytes \<Rightarrow> dual" where
  "f2_pair conv i block = (conv (take 8 (drop i block)), conv (take 8 (drop (i + 8) block)))"

definition f2_generic :: "(bytes \<Rightarrow> u64) \<Rightarrow> u64 list \<Rightarrow> bytes \<Rightarrow> u64 list" where
  "f2_generic conv st data =
     (let (a, b, c, d) = foldl (\<lambda>s block. f2_step s (f2_pair conv 0 block))
            (st ! 0, st ! 1, st ! 2, st ! 3) (chunks_exact 16 data) in
      [a, b, c, d] @ drop 4 st)"

text \<open>Here the registers \<open>a\<close> and \<open>b\<close> of a stream are adjacent, then \<open>c\<close> and \<open>d\<close>.\<close>

definition f2_step2 :: "(dual \<times> dual) \<times> dual \<times> dual \<Rightarrow> dual \<times> dual \<Rightarrow> (dual \<times> dual) \<times> dual \<times> dual" where
  "f2_step2 s xy = (case s of ((ab0, ab1), cd0, cd1) \<Rightarrow>
     let ab0 = add2 ab0 (fst xy); ab1 = add2 ab1 (snd xy); cd0 = add2 cd0 ab0; cd1 = add2 cd1 ab1 in
     ((ab0, ab1), cd0, cd1))"

definition f2_superscalar2 :: "(bytes \<Rightarrow> u64) \<Rightarrow> u64 list \<Rightarrow> bytes \<Rightarrow> u64 list" where
  "f2_superscalar2 conv st data =
     (let (((a0, b0), (a1, b1)), (c0, d0), (c1, d1)) =
          foldl (\<lambda>s block. f2_step2 s (f2_pair conv 0 block, f2_pair conv 16 block))
            (((st ! 0, st ! 1), (st ! 2, st ! 3)), (st ! 4, st ! 5), (st ! 6, st ! 7))
            (chunks_exact 32 data) in
      [a0, b0, a1, b1, c0, d0, c1, d1] @ drop 8 st)"

type_synonym quad2 = "dual \<times> dual \<times> dual \<times> dual"

definition addq :: "quad2 \<Rightarrow> quad2 \<Rightarrow> quad2" where
  "addq x y = (case x of (x0, x1, x2, x3) \<Rightarrow> case y of (y0, y1, y2, y3) \<Rightarrow>
     (add2 x0 y0, add2 x1 y1, add2 x2 y2, add2 x3 y3))"

definition f2_step4 :: "quad2 \<times> quad2 \<Rightarrow> quad2 \<Rightarrow> quad2 \<times> quad2" where
  "f2_step4 s x = (case s of (ab, cd) \<Rightarrow> let ab = addq ab x; cd = addq cd ab in (ab, cd))"

definition f2_superscalar4 :: "(bytes \<Rightarrow> u64) \<Rightarrow> u64 list \<Rightarrow> bytes \<Rightarrow> u64 list" where
  "f2_superscalar4 conv st data =
     (let (((a0, b0), (a1, b1), (a2, b2), (a3, b3)), (c0, d0), (c1, d1), (c2, d2), (c3, d3)) =
          foldl (\<lambda>s block. f2_step4 s (f2_pair conv 0 block, f2_pair conv 16 block,
                                      f2_pair conv 32 block, f2_pair conv 48 block))
            (((st ! 0, st ! 1), (st ! 2, st ! 3), (st ! 4, st ! 5), (st ! 6, st ! 7)),
             (st ! 8, st ! 9), (st ! 10, st ! 11), (st ! 12, st ! 13), (st ! 14, st ! 15))
            (chunks_exact 64 data) in
      [a0, b0, a1, b1, a2, b2, a3, b3, c0, d0, c1, d1, c2, d2, c3, d3] @ drop 16 st)"

definition f2_update_blocks_generic_big :: "u64 list \<Rightarrow> bytes \<Rightarrow> u64 list" where
  "f2_update_blocks_generic_big = f2_generic be_word"
definition f2_update_blocks_generic_little :: "u64 list \<Rightarrow> bytes \<Rightarrow> u64 list" where
  "f2_update_blocks_generic_little = f2_generic le_word"
definition f2_update_blocks_superscalar2_big :: "u64 list \<Rightarrow> bytes \<Rightarrow> u64 list" where
  "f2_update_blocks_superscalar2_big = f2_superscalar2 be_word"
definition f2_update_blocks_superscalar2_little :: "u64 list \<Rightarrow> bytes \<Rightarrow> u64 list" where
  "f2_update_blocks_superscalar2_little = f2_superscalar2 le_word"
definition f2_update_blocks_superscalar4_big :: "u64 list \<Rightarrow> bytes \<Rightarrow> u64 list" where
  "f2_update_blocks_superscalar4_big = f2_superscalar4 be_word"
definition f2_update_blocks_superscalar4_little :: "u64 list \<Rightarrow> bytes \<Rightarrow> u64 list" where
  "f2_update_blocks_superscalar4_little = f2_superscalar4 le_word"

definition f2_finish_single :: "u64 list \<Rightarrow> words4" where
  "f2_finish_single st = (st ! 0, st ! 1, st ! 2, st ! 3)"

definition f2_finish_dual :: "u64 list \<Rightarrow> words4" where
  "f2_finish_dual st =
     (let a0 = st ! 0; b0 = st ! 1; a1 = st ! 2; b1 = st ! 3;
          c0 = st ! 4; d0 = st ! 5; c1 = st ! 6; d1 = st ! 7 in
      (a0 + a1, b0 + b1, (c0 + c1) * 2 - a1, (d0 + d1) * 2 - b1))"

definition f2_finish_quad :: "u64 list \<Rightarrow> words4" where
  "f2_finish_quad st =
     (let a0 = st ! 0; b0 = st ! 1; a1 = st ! 2; b1 = st ! 3; a2 = st ! 4; b2 = st ! 5; a3 = st ! 6; b3 = st ! 7;
          c0 = st ! 8; d0 = st ! 9; c1 = st ! 10; d1 = st ! 11; c2 = st ! 12; d2 = st ! 13; c3 = st ! 14; d3 = st ! 15 in
      (a0 + a1 + a2 + a3,
       b0 + b1 + b2 + b3,
       (c0 + c1 + c2 + c3) * 4 - (a1 + a2 * 2 + a3 * 3),
       (d0 + d1 + d2 + d3) * 4 - (b1 + b2 * 2 + b3 * 3)))"

fun fletcher2_ctx :: "fletcher_implementation \<Rightarrow> fletcher_ctx option" where
  "fletcher2_ctx Generic = Some \<lparr>
     fc_block_size = 16,
     fc_update_blocks_big = f2_update_blocks_generic_big,
     fc_update_blocks_little = f2_update_blocks_generic_little,
     fc_finish_blocks = f2_finish_single\<rparr>"
| "fletcher2_ctx SuperScalar2 = Some \<lparr>
     fc_block_size = 32,
     fc_update_blocks_big = f2_update_blocks_superscalar2_big,
     fc_update_blocks_little = f2_update_blocks_superscalar2_little,
     fc_finish_blocks = f2_finish_dual\<rparr>"
| "fletcher2_ctx SuperScalar4 = Some \<lparr>
     fc_block_size = 64,
     fc_update_blocks_big = f2_update_blocks_superscalar4_big,
     fc_update_blocks_little = f2_update_blocks_superscalar4_little,
     fc_finish_blocks = f2_finish_quad\<rparr>"
| "fletcher2_ctx _ = None"

definition fletcher2_new :: "fletcher_implementation \<Rightarrow> fletcher option" where
  "fletcher2_new implementation = map_option (\<lambda>ctx. \<lparr>
     fl_buffer_fill = 0,
     fl_buffer = replicate 64 0,
     fl_state = replicate 16 0,
     fl_order = Little,
     fl_impl_ctx = ctx,
     fl_update_blocks = fc_update_blocks_little ctx\<rparr>) (fletcher2_ctx implementation)"

definition fletcher2_reset :: "endian_order \<Rightarrow> fletcher \<Rightarrow> fletcher" where
  "fletcher2_reset = fletcher_reset 64 16"

definition fletcher2_generic :: "endian_order \<Rightarrow> u64 list \<Rightarrow> bytes \<Rightarrow> u64 list" where
  "fletcher2_generic ord =
     (case ord of Big \<Rightarrow> f2_update_blocks_generic_big | Little \<Rightarrow> f2_update_blocks_generic_little)"

definition fletcher2_update :: "bytes \<Rightarrow> fletcher \<Rightarrow> fletcher" where
  "fletcher2_update = fletcher_update"

definition fletcher2_finalize :: "fletcher \<Rightarrow> words4" where
  "fletcher2_finalize = fletcher_finalize 16 fletcher2_generic"

definition fletcher2_hash :: "bytes \<Rightarrow> endian_order \<Rightarrow> fletcher \<Rightarrow> words4" where
  "fletcher2_hash data ord f = fletcher2_finalize (fletcher2_update data (fletcher2_reset ord f))"

section \<open>Interleaved streams\<close>

locale stream_step =
  fixes u w :: nat and step :: "'q \<Rightarrow> bytes \<Rightarrow> 'q" and mstep :: "'s \<Rightarrow> bytes \<Rightarrow> 's" and fin :: "'s \<Rightarrow> 'q"
  assumes unit_pos: "0 < u" and width_pos: "0 < w"
    and mstep: "length blk = w * u \<Longrightarrow> fin (mstep s blk) = foldl step (fin s) (chunks_exact u blk)"
begin

lemma foldl_mstep: "fin (foldl mstep s (chunks_exact (w * u) data)) =
    foldl step (fin s) (concat (map (chunks_exact u) (chunks_exact (w * u) data)))"
proof -
  have "fin (foldl mstep s bs) = foldl step (fin s) (concat (map (chunks_exact u) bs))"
    if "\<forall>b \<in> set bs. length b = w * u" for bs
    using that by (induction bs arbitrary: s) (simp_all add: mstep)
  then show ?thesis using chunks_exact_length by blast
qed

lemma rechunk:
  assumes "w * u dvd length data"
  shows "concat (map (chunks_exact u) (chunks_exact (w * u) data)) = chunks_exact u data"
  using assms
proof (induction "w * u" data rule: chunks_exact.induct)
  case (1 data)
  have pos: "0 < w * u" using unit_pos width_pos by simp
  show ?case
  proof (cases "length data < w * u")
    case True
    with 1 have "data = []" using pos by (auto simp: dvd_def)
    then show ?thesis using unit_pos pos by simp
  next
    case False
    have "concat (map (chunks_exact u) (chunks_exact (w * u) data)) =
        chunks_exact u (take (w * u) data) @ chunks_exact u (drop (w * u) data)"
      using 1 False pos by (subst chunks_exact.simps) (simp add: dvd_diff_nat)
    also have "\<dots> = chunks_exact u (take (w * u) data @ drop (w * u) data)"
      using False unit_pos by (intro chunks_exact_append[symmetric]) auto
    finally show ?thesis by simp
  qed
qed

lemma streams:
  "w * u dvd length data \<Longrightarrow>
   fin (foldl mstep s (chunks_exact (w * u) data)) = foldl step (fin s) (chunks_exact u data)"
  by (simp add: foldl_mstep rechunk)

end

section \<open>Buffering\<close>

text \<open>
  What a hasher has absorbed: the full blocks of the message are in the state, the rest is in the
  buffer.
\<close>

definition absorbed :: "u64 list \<Rightarrow> bytes \<Rightarrow> fletcher \<Rightarrow> bool" where
  "absorbed st0 msg f \<longleftrightarrow>
     (let bs = fc_block_size (fl_impl_ctx f); r = length msg mod bs in
      fl_state f = fl_update_blocks f st0 (take (length msg - r) msg) \<and>
      fl_buffer_fill f = r \<and> take r (fl_buffer f) = drop (length msg - r) msg \<and>
      bs \<le> length (fl_buffer f))"

lemma absorbedI:
  assumes "fc_block_size (fl_impl_ctx f) = bs" "length msg mod bs = r"
    "fl_state f = fl_update_blocks f st0 (take (length msg - r) msg)" "fl_buffer_fill f = r"
    "take r (fl_buffer f) = drop (length msg - r) msg" "bs \<le> length (fl_buffer f)"
  shows "absorbed st0 msg f"
  unfolding absorbed_def Let_def assms(1,2) using assms(3-6) by blast

locale block_hasher =
  fixes bs :: nat and ub :: "u64 list \<Rightarrow> bytes \<Rightarrow> u64 list" and st0 :: "u64 list"
  assumes block_pos: "0 < bs"
    and ub_append: "bs dvd length x \<Longrightarrow> ub (ub st x) y = ub st (x @ y)"
    and ub_nil: "ub st0 [] = st0"
begin

lemma length_mod: "length msg mod bs = 0 \<Longrightarrow> (length msg + n) mod bs = n mod bs"
  by (metis add_0 mod_add_left_eq)

lemma tail_fields:
  fixes data :: bytes
  assumes "fl_buffer_fill f = 0" "fc_block_size (fl_impl_ctx f) = bs" "bs \<le> length (fl_buffer f)"
  defines "r \<equiv> length data mod bs"
  shows "fl_state (fletcher_tail data f) = fl_update_blocks f (fl_state f) (take (length data - r) data)"
    and "fl_buffer_fill (fletcher_tail data f) = r"
    and "take r (fl_buffer (fletcher_tail data f)) = drop (length data - r) data"
    and "fl_impl_ctx (fletcher_tail data f) = fl_impl_ctx f"
    and "fl_update_blocks (fletcher_tail data f) = fl_update_blocks f"
    and "fl_order (fletcher_tail data f) = fl_order f"
    and "bs \<le> length (fl_buffer (fletcher_tail data f))"
proof -
  have "r < bs" "r \<le> length data" using block_pos by (simp_all add: r_def)
  then show "take r (fl_buffer (fletcher_tail data f)) = drop (length data - r) data"
    "bs \<le> length (fl_buffer (fletcher_tail data f))"
    using assms(2,3) unfolding r_def by (auto simp: fletcher_tail_def Let_def overwrite_def)
qed (use assms in \<open>auto simp: fletcher_tail_def Let_def\<close>)

lemma tail_absorbed:
  assumes "absorbed st0 msg f" "fl_buffer_fill f = 0" "fc_block_size (fl_impl_ctx f) = bs" "fl_update_blocks f = ub"
  shows "absorbed st0 (msg @ data) (fletcher_tail data f)"
proof -
  have msg: "length msg mod bs = 0" and st: "fl_state f = ub st0 msg" and len: "bs \<le> length (fl_buffer f)"
    using assms by (simp_all add: absorbed_def Let_def)
  let ?r = "length data mod bs"
  have r: "length (msg @ data) mod bs = ?r" using length_mod[OF msg] by simp
  have le: "?r \<le> length data" by simp
  have "ub (ub st0 msg) (take (length data - ?r) data) = ub st0 (msg @ take (length data - ?r) data)"
    using msg by (intro ub_append) (simp add: mod_eq_0_iff_dvd)
  moreover have eq: "length (msg @ data) - ?r = length msg + (length data - ?r)" using le by simp
  have "take (length (msg @ data) - ?r) (msg @ data) = msg @ take (length data - ?r) data"
    unfolding eq by (simp only: take_append diff_add_inverse take_all le_add1)
  ultimately have ub: "ub (ub st0 msg) (take (length data - ?r) data) =
    ub st0 (take (length (msg @ data) - ?r) (msg @ data))" by (simp only:)
  have tl: "drop (length (msg @ data) - ?r) (msg @ data) = drop (length data - ?r) data"
    unfolding eq by (simp only: drop_append diff_add_inverse drop_all le_add1 append_Nil)
  show ?thesis
    unfolding absorbed_def Let_def tail_fields(4,5)[OF assms(2,3) len] assms(3,4) r
    using tail_fields[OF assms(2,3) len, of data] ub tl st assms(4) by presburger
qed

lemma fill_absorbed:
  assumes abs: "absorbed st0 msg f" and bs: "fc_block_size (fl_impl_ctx f) = bs" and ub: "fl_update_blocks f = ub"
    and fill: "fletcher_fill f data = (f', rest)"
  shows "\<exists>d. data = d @ rest \<and> absorbed st0 (msg @ d) f' \<and> fl_impl_ctx f' = fl_impl_ctx f \<and>
    fl_update_blocks f' = fl_update_blocks f \<and> (rest \<noteq> [] \<longrightarrow> fl_buffer_fill f' = 0)"
proof (cases "fl_buffer_fill f = 0")
  case True
  then have "f' = f" "rest = data" using fill by (auto simp: fletcher_fill_def)
  then show ?thesis using abs True by (intro exI[of _ "[]"]) auto
next
  case False
  let ?r = "length msg mod bs"
  let ?todo = "min (bs - ?r) (length data)"
  let ?d = "take ?todo data"
  let ?full = "take (length msg - ?r) msg" and ?part = "drop (length msg - ?r) msg"
  let ?buf = "overwrite (fl_buffer f) ?r ?d"
  have f: "fl_state f = ub st0 ?full" "fl_buffer_fill f = ?r" "take ?r (fl_buffer f) = ?part"
    "bs \<le> length (fl_buffer f)" "0 < ?r"
    using abs False bs ub by (simp_all add: absorbed_def Let_def)
  have r: "?r < bs" "?r \<le> length msg" using block_pos by simp_all
  have buf: "take (?r + length ?d) ?buf = ?part @ ?d" "length ?buf = length (fl_buffer f)"
    using f r by (simp_all add: overwrite_def)
  have full: "bs dvd length ?full" using r by (simp add: dvd_minus_mod)
  have rest: "rest = drop ?todo data" using fill f(2,5) bs by (auto simp: fletcher_fill_def Let_def split: if_splits)
  then have data: "data = ?d @ rest" by simp
  show ?thesis
  proof (cases "?r + ?todo = bs")
    case True
    have f': "f' = f\<lparr>fl_buffer := ?buf, fl_state := ub (ub st0 ?full) (take bs ?buf), fl_buffer_fill := 0\<rparr>"
      using fill f bs ub True by (simp add: fletcher_fill_def Let_def split: if_splits)
    have todo: "length ?d = bs - ?r" using True r by simp
    have block: "take bs ?buf = ?part @ ?d" using buf(1) todo r by simp
    have split: "?full @ ?part @ ?d = msg @ ?d" by (metis append.assoc append_take_drop_id)
    have st: "ub (ub st0 ?full) (take bs ?buf) = ub st0 (msg @ ?d)"
      by (simp only: block ub_append[OF full] split)
    have "length (msg @ ?d) = length ?full + bs" using todo r by simp
    then have "bs dvd length (msg @ ?d)" using full by (simp only: dvd_add_triv_right_iff)
    then have mod: "length (msg @ ?d) mod bs = 0" by (simp only: mod_eq_0_iff_dvd)
    have "absorbed st0 (msg @ ?d) f'"
    proof (rule absorbedI[OF _ mod])
      show "fl_state f' = fl_update_blocks f' st0 (take (length (msg @ ?d) - 0) (msg @ ?d))"
        unfolding f' st by (simp add: ub)
    qed (use f(4) buf(2) bs in \<open>simp_all add: f'\<close>)
    then show ?thesis using data f' by (intro exI[of _ ?d]) auto
  next
    case False
    then have todo: "?todo = length data" "rest = []" using rest r by (auto simp: min_def)
    have f': "f' = f\<lparr>fl_buffer := ?buf, fl_buffer_fill := ?r + ?todo\<rparr>"
      using fill f bs ub False by (simp add: fletcher_fill_def Let_def split: if_splits)
    have lt: "?r + length ?d < bs" using False todo r by (simp add: min_def split: if_splits)
    have mod: "length (msg @ ?d) mod bs = ?r + length ?d"
      using lt by (metis length_append mod_add_left_eq mod_less)
    have n: "length (msg @ ?d) - (?r + length ?d) = length msg - ?r" using r by simp
    have parts: "take (length msg - ?r) (msg @ ?d) = ?full" "drop (length msg - ?r) (msg @ ?d) = ?part @ ?d"
      using r by simp_all
    have d: "?todo = length ?d" by simp
    have "absorbed st0 (msg @ ?d) f'"
    proof (rule absorbedI[OF _ mod, unfolded n parts])
      show "fl_buffer_fill f' = ?r + length ?d" unfolding f' d[symmetric] by simp
      show "take (?r + length ?d) (fl_buffer f') = ?part @ ?d" using buf(1) unfolding f' by simp
      show "bs \<le> length (fl_buffer f')" using buf(2) f(4) unfolding f' by simp
    qed (use f(1) bs ub in \<open>simp_all add: f'\<close>)
    then show ?thesis using data f' todo by (intro exI[of _ ?d]) auto
  qed
qed

lemma update_absorbed:
  assumes "absorbed st0 msg f" "fc_block_size (fl_impl_ctx f) = bs" "fl_update_blocks f = ub"
  shows "absorbed st0 (msg @ data) (fletcher_update data f) \<and>
    fl_impl_ctx (fletcher_update data f) = fl_impl_ctx f \<and> fl_update_blocks (fletcher_update data f) = ub"
proof -
  obtain f' rest where fill: "fletcher_fill f data = (f', rest)" by fastforce
  from fill_absorbed[OF assms fill] obtain d where d: "data = d @ rest" "absorbed st0 (msg @ d) f'"
    "fl_impl_ctx f' = fl_impl_ctx f" "fl_update_blocks f' = ub" "rest \<noteq> [] \<Longrightarrow> fl_buffer_fill f' = 0"
    using assms(3) by auto
  have up: "fletcher_update data f = fletcher_tail rest f'" by (simp add: fletcher_update_def fill)
  show ?thesis
  proof (cases "rest = []")
    case True
    let ?x = "take (length (msg @ d) - length (msg @ d) mod bs) (msg @ d)"
    have "fl_state f' = ub st0 ?x"
      using d(2) assms(2) d(3,4) unfolding absorbed_def Let_def by presburger
    moreover have "length ?x = length (msg @ d) - length (msg @ d) mod bs" by simp
    then have "bs dvd length ?x" by (simp only: dvd_minus_mod)
    ultimately have "ub (fl_state f') [] = fl_state f'" using ub_append[of ?x st0 "[]"] by (simp only: append_Nil2)
    then have "fletcher_tail rest f' = f'" using True d(4) by (simp add: fletcher_tail_def Let_def)
    then show ?thesis using up d True by simp
  next
    case False
    have bs: "fc_block_size (fl_impl_ctx f') = bs" using assms(2) d(3) by simp
    have "bs \<le> length (fl_buffer f')" using d(2) bs by (simp add: absorbed_def Let_def)
    with tail_absorbed[OF d(2) d(5)[OF False] bs d(4), of rest] show ?thesis
      using tail_fields(4,5)[OF d(5)[OF False] bs] up d by simp
  qed
qed

lemma updates_absorbed:
  assumes "absorbed st0 msg f" "fc_block_size (fl_impl_ctx f) = bs" "fl_update_blocks f = ub"
  shows "absorbed st0 (msg @ concat pieces) (fold fletcher_update pieces f) \<and>
    fl_impl_ctx (fold fletcher_update pieces f) = fl_impl_ctx f \<and>
    fl_update_blocks (fold fletcher_update pieces f) = ub"
  using assms
proof (induction pieces arbitrary: msg f)
  case (Cons p pieces)
  then show ?case using Cons.IH[of "msg @ p" "fletcher_update p f"] update_absorbed[OF Cons.prems, of p] by simp
qed simp

end

end
