(* ===== verification/Fletcher_Equiv.thy ===== *)
theory Fletcher_Equiv
  imports Fletcher
begin

text \<open>
  All portable implementations of the Fletcher checksums compute the same function of the data,
  in one call or in pieces: the fold of the generic step over the units of the data.
\<close>

section \<open>The implementations\<close>

lemma fletcher_update_order [simp]: "fl_order (fletcher_update data f) = fl_order f"
  by (simp add: fletcher_update_def fletcher_fill_def fletcher_tail_def Let_def)

lemma fold_fletcher_update_order [simp]: "fl_order (fold fletcher_update pieces f) = fl_order f"
  by (induction pieces arbitrary: f) simp_all

text \<open>The specification of Fletcher 4: the step of the generic loop over the words of the data.\<close>

definition word_of_bytes :: "endian_order \<Rightarrow> bytes \<Rightarrow> 'a::len word" where
  "word_of_bytes ord = (case ord of Big \<Rightarrow> be_word | Little \<Rightarrow> le_word)"

definition f4_block :: "(bytes \<Rightarrow> u32) \<Rightarrow> words4 \<Rightarrow> bytes \<Rightarrow> words4" where
  "f4_block conv s block = f4_step s (ucast (conv block))"

definition fletcher4_spec :: "endian_order \<Rightarrow> bytes \<Rightarrow> words4" where
  "fletcher4_spec ord data = foldl (f4_block (word_of_bytes ord)) (0, 0, 0, 0) (chunks_exact 4 data)"

definition f2_block :: "(bytes \<Rightarrow> u64) \<Rightarrow> words4 \<Rightarrow> bytes \<Rightarrow> words4" where
  "f2_block conv s block = f2_step s (f2_pair conv 0 block)"

definition fletcher2_spec :: "endian_order \<Rightarrow> bytes \<Rightarrow> words4" where
  "fletcher2_spec ord data = foldl (f2_block (word_of_bytes ord)) (0, 0, 0, 0) (chunks_exact 16 data)"

lemma chunks_exact_step: "0 < n \<Longrightarrow> n \<le> length xs \<Longrightarrow> chunks_exact n xs = take n xs # chunks_exact n (drop n xs)"
  by (subst chunks_exact.simps) simp

lemma chunks_exact_2: "length blk = n + n \<Longrightarrow> 0 < n \<Longrightarrow> chunks_exact n blk = [take n blk, take n (drop n blk)]"
  by (simp add: chunks_exact_step)

lemma chunks_exact_4:
  "length blk = n + n + n + n \<Longrightarrow> 0 < n \<Longrightarrow>
   chunks_exact n blk = [take n blk, take n (drop n blk), take n (drop (n + n) blk), take n (drop (n + n + n) blk)]"
  by (simp add: chunks_exact_step add.assoc)

definition regs2 :: "dual \<times> dual \<times> dual \<times> dual \<Rightarrow> u64 list" where
  "regs2 s = (case s of ((a0, a1), (b0, b1), (c0, c1), (d0, d1)) \<Rightarrow> [a0, a1, b0, b1, c0, c1, d0, d1])"

definition regs4 :: "words4 \<times> words4 \<times> words4 \<times> words4 \<Rightarrow> u64 list" where
  "regs4 s = (case s of ((a0, a1, a2, a3), (b0, b1, b2, b3), (c0, c1, c2, c3), (d0, d1, d2, d3)) \<Rightarrow>
     [a0, a1, a2, a3, b0, b1, b2, b3, c0, c1, c2, c3, d0, d1, d2, d3])"

text \<open>One step of interleaved streams finishes to as many steps of a single stream.\<close>

lemma f4_dual_step:
  "f4_finish_dual (regs2 (f4_step2 s (v, w))) = f4_step (f4_step (f4_finish_dual (regs2 s)) v) w"
proof -
  have "f4_finish_dual (regs2 (f4_step2 ((a0, a1), (b0, b1), (c0, c1), (d0, d1)) (v, w))) =
      f4_step (f4_step (f4_finish_dual (regs2 ((a0, a1), (b0, b1), (c0, c1), (d0, d1)))) v) w"
    for a0 a1 b0 b1 c0 c1 d0 d1
    by (simp add: regs2_def f4_step2_def f4_step_def f4_finish_dual_def add2_def algebra_simps)
  then show ?thesis by (cases s) (simp only: split_paired_all)
qed

interpretation f4_one: stream_step 4 1 "f4_block conv" "f4_block conv" "\<lambda>s. s" for conv
  by unfold_locales (simp_all add: chunks_exact.simps)

interpretation f4_two: stream_step 4 2 "f4_block conv"
  "\<lambda>s block. f4_step2 s (ucast (conv (take 4 block)), ucast (conv (take 4 (drop 4 block))))"
  "\<lambda>s. f4_finish_dual (regs2 s)" for conv
  by unfold_locales (simp_all add: chunks_exact_2 f4_block_def f4_dual_step)

lemma sum_and_mul_4: "sum_and_mul [x0, x1, x2, x3] m = (x0 + x1 + x2 + x3) * m"
  by (simp add: sum_and_mul_def)

lemma mul_and_sum_4:
  "mul_and_sum [x0, x1, x2, x3] [m0, m1, m2, m3] = x0 * ucast m0 + x1 * ucast m1 + x2 * ucast m2 + x3 * ucast m3"
  by (simp add: mul_and_sum_def upt_rec)

lemma f4_four_steps:
  "f4_step (f4_step (f4_step (f4_step (a, b, c, d) v) w) x) y =
     (a + (v + w + x + y),
      b + 4 * a + (4 * v + 3 * w + 2 * x + y),
      c + 4 * b + 10 * a + (10 * v + 6 * w + 3 * x + y),
      d + 4 * c + 10 * b + 20 * a + (20 * v + 10 * w + 4 * x + y))"
  by (simp add: f4_step_def algebra_simps)

lemma f4_quad_regs:
  "f4_finish_quad (regs4 ((a0, a1, a2, a3), (b0, b1, b2, b3), (c0, c1, c2, c3), (d0, d1, d2, d3))) =
     (a0 + a1 + a2 + a3,
      (b0 + b1 + b2 + b3) * 4 - (a1 + a2 * 2 + a3 * 3),
      (c0 + c1 + c2 + c3) * 16 - (b0 * 6 + b1 * 10 + b2 * 14 + b3 * 18) + a2 + a3 * 3,
      (d0 + d1 + d2 + d3) * 64 - (c0 * 48 + c1 * 64 + c2 * 80 + c3 * 96) +
        (b0 * 4 + b1 * 10 + b2 * 20 + b3 * 34) - a3)"
  by (simp add: f4_finish_quad_def regs4_def Let_def sum_and_mul_4 mul_and_sum_4)

lemma f4_step4_regs:
  "f4_step4 ((a0, a1, a2, a3), (b0, b1, b2, b3), (c0, c1, c2, c3), (d0, d1, d2, d3)) (v, w, x, y) =
     ((a0 + v, a1 + w, a2 + x, a3 + y),
      (b0 + (a0 + v), b1 + (a1 + w), b2 + (a2 + x), b3 + (a3 + y)),
      (c0 + (b0 + (a0 + v)), c1 + (b1 + (a1 + w)), c2 + (b2 + (a2 + x)), c3 + (b3 + (a3 + y))),
      (d0 + (c0 + (b0 + (a0 + v))), d1 + (c1 + (b1 + (a1 + w))), d2 + (c2 + (b2 + (a2 + x))),
       d3 + (c3 + (b3 + (a3 + y)))))"
  by (simp add: f4_step4_def add4_def)

lemma f4_quad_step:
  "f4_finish_quad (regs4 (f4_step4 s (v, w, x, y))) =
     f4_step (f4_step (f4_step (f4_step (f4_finish_quad (regs4 s)) v) w) x) y"
proof -
  have "f4_finish_quad (regs4 (f4_step4 ((a0, a1, a2, a3), (b0, b1, b2, b3), (c0, c1, c2, c3), (d0, d1, d2, d3))
      (v, w, x, y))) = f4_step (f4_step (f4_step (f4_step (f4_finish_quad
      (regs4 ((a0, a1, a2, a3), (b0, b1, b2, b3), (c0, c1, c2, c3), (d0, d1, d2, d3)))) v) w) x) y"
    for a0 a1 a2 a3 b0 b1 b2 b3 c0 c1 c2 c3 d0 d1 d2 d3
    unfolding f4_step4_regs f4_quad_regs f4_four_steps by (simp add: algebra_simps)
  then show ?thesis by (cases s) (simp only: split_paired_all)
qed

interpretation f4_four: stream_step 4 4 "f4_block conv"
  "\<lambda>s block. f4_step4 s
     (ucast (conv (take 4 block)), ucast (conv (take 4 (drop 4 block))),
      ucast (conv (take 4 (drop 8 block))), ucast (conv (take 4 (drop 12 block))))"
  "\<lambda>s. f4_finish_quad (regs4 s)" for conv
  by unfold_locales (simp_all add: chunks_exact_4 f4_block_def f4_quad_step)

section \<open>Buffering over interleaved streams\<close>

locale fletcher_impl = block_hasher bs ub st0
  for bs :: nat and ub :: "u64 list \<Rightarrow> bytes \<Rightarrow> u64 list" and st0 :: "u64 list" +
  fixes u :: nat and step :: "words4 \<Rightarrow> bytes \<Rightarrow> words4" and fin :: "u64 list \<Rightarrow> words4"
    and gen :: "u64 list \<Rightarrow> bytes \<Rightarrow> u64 list"
  assumes unit_pos: "0 < u" and unit_dvd: "u dvd bs"
    and fin_ub: "bs dvd length data \<Longrightarrow> fin (ub st0 data) = foldl step (0, 0, 0, 0) (chunks_exact u data)"
    and gen: "gen [a, b, c, d] data =
      (case foldl step (a, b, c, d) (chunks_exact u data) of (a', b', c', d') \<Rightarrow> [a', b', c', d'])"
begin

lemma finalize_absorbed:
  assumes abs: "absorbed st0 msg f" and bs: "fc_block_size (fl_impl_ctx f) = bs" and ub: "fl_update_blocks f = ub"
    and fin: "fc_finish_blocks (fl_impl_ctx f) = fin" and generic: "generic (fl_order f) = gen"
  shows "fletcher_finalize u generic f = foldl step (0, 0, 0, 0) (chunks_exact u msg)"
proof -
  let ?r = "length msg mod bs"
  let ?full = "take (length msg - ?r) msg" and ?part = "drop (length msg - ?r) msg"
  have f: "fl_state f = ub st0 ?full" "fl_buffer_fill f = ?r" "take ?r (fl_buffer f) = ?part"
    using abs bs ub by (simp_all add: absorbed_def Let_def)
  have full: "bs dvd length ?full" by (simp add: dvd_minus_mod)
  have len: "length ?part = ?r" by simp
  let ?fb = "?r - ?r mod u"
  have part: "chunks_exact u (take ?fb (fl_buffer f)) = chunks_exact u ?part"
  proof -
    have "take ?fb (fl_buffer f) = take ?fb (take ?r (fl_buffer f))" by (simp add: min_def)
    then have "take ?fb (fl_buffer f) = take (length ?part - length ?part mod u) ?part"
      by (simp only: f(3) len)
    then show ?thesis by (simp only: chunks_exact_take[OF unit_pos])
  qed
  have "chunks_exact u (?full @ ?part) = chunks_exact u ?full @ chunks_exact u ?part"
    using unit_pos full unit_dvd by (intro chunks_exact_append) (auto intro: dvd_trans)
  then have all: "foldl step (0, 0, 0, 0) (chunks_exact u msg) =
      foldl step (fin (ub st0 ?full)) (chunks_exact u ?part)"
    using fin_ub[OF full] by simp
  show ?thesis
  proof (cases "?fb > 0")
    case True
    obtain a b c d where r: "fin (ub st0 ?full) = (a, b, c, d)" by (cases "fin (ub st0 ?full)")
    obtain a' b' c' d' where r': "foldl step (a, b, c, d) (chunks_exact u ?part) = (a', b', c', d')"
      by (cases "foldl step (a, b, c, d) (chunks_exact u ?part)")
    have "gen [a, b, c, d] (take ?fb (fl_buffer f)) = [a', b', c', d']"
      by (simp only: gen part r' prod.case)
    then show ?thesis unfolding all fletcher_finalize_def Let_def fin f(1,2) generic r prod.case
      using True r' by simp
  next
    case False
    then have "chunks_exact u ?part = []" using part unit_pos by simp
    then show ?thesis unfolding all fletcher_finalize_def Let_def fin f(1,2) using False by simp
  qed
qed

lemma streaming:
  assumes bs: "fc_block_size (fl_impl_ctx f) = bs" and ub: "fl_update_blocks f = ub"
    and fin: "fc_finish_blocks (fl_impl_ctx f) = fin" and generic: "generic (fl_order f) = gen"
    and init: "fl_state f = st0" "fl_buffer_fill f = 0" "bs \<le> length (fl_buffer f)"
  shows "fletcher_finalize u generic (fold fletcher_update pieces f) =
    foldl step (0, 0, 0, 0) (chunks_exact u (concat pieces))"
proof -
  have "absorbed st0 [] f"
    using bs ub init ub_nil by (intro absorbedI[where r = 0]) auto
  from updates_absorbed[OF this bs ub, of pieces] bs fin generic show ?thesis
    by (intro finalize_absorbed) auto
qed

end

text \<open>A loop that loads registers from the state, steps them and stores them back.\<close>

lemma block_hasherI:
  assumes "0 < bs" "\<And>st data. ub st data = put st (foldl m (get st) (chunks_exact bs data))"
    "\<And>st r. get (put st r) = r" "\<And>st r r'. put (put st r) r' = put st r'" "put st0 (get st0) = st0"
  shows "block_hasher bs ub st0"
proof
  fix x y :: bytes and st
  assume "bs dvd length x"
  then show "ub (ub st x) y = ub st (x @ y)"
    using assms(1) by (simp add: assms(2-4) chunks_exact_append)
qed (use assms in simp_all)

definition put1 :: "u64 list \<Rightarrow> words4 \<Rightarrow> u64 list" where
  "put1 st r = (case r of (a, b, c, d) \<Rightarrow> [a, b, c, d] @ drop 4 st)"
definition get1 :: "u64 list \<Rightarrow> words4" where
  "get1 st = (st ! 0, st ! 1, st ! 2, st ! 3)"
definition put2 :: "u64 list \<Rightarrow> dual \<times> dual \<times> dual \<times> dual \<Rightarrow> u64 list" where
  "put2 st r = regs2 r @ drop 8 st"
definition get2 :: "u64 list \<Rightarrow> dual \<times> dual \<times> dual \<times> dual" where
  "get2 st = ((st ! 0, st ! 1), (st ! 2, st ! 3), (st ! 4, st ! 5), (st ! 6, st ! 7))"
definition put4 :: "u64 list \<Rightarrow> words4 \<times> words4 \<times> words4 \<times> words4 \<Rightarrow> u64 list" where
  "put4 st r = regs4 r @ drop 16 st"
definition get4 :: "u64 list \<Rightarrow> words4 \<times> words4 \<times> words4 \<times> words4" where
  "get4 st = ((st ! 0, st ! 1, st ! 2, st ! 3), (st ! 4, st ! 5, st ! 6, st ! 7),
     (st ! 8, st ! 9, st ! 10, st ! 11), (st ! 12, st ! 13, st ! 14, st ! 15))"

lemma regs_length [simp]: "length (regs2 r) = 8" "length (regs4 r') = 16"
  by (simp_all add: regs2_def regs4_def split: prod.splits)

lemma put_put [simp]:
  "put1 (put1 st r1) r1' = put1 st r1'" "put2 (put2 st r2) r2' = put2 st r2'" "put4 (put4 st r4) r4' = put4 st r4'"
  by (simp_all add: put1_def put2_def put4_def split: prod.splits)

lemma get_put [simp]: "get1 (put1 st r1) = r1" "get2 (put2 st r2) = r2" "get4 (put4 st r4) = r4"
  by (simp_all add: put1_def get1_def put2_def get2_def regs2_def put4_def get4_def regs4_def split: prod.splits)

lemma f4_generic_loop: "f4_generic conv st data = put1 st (foldl (f4_block conv) (get1 st) (chunks_exact 4 data))"
  by (simp add: f4_generic_def put1_def get1_def f4_block_def[abs_def])

lemma f4_superscalar2_loop: "f4_superscalar2 conv st data = put2 st
    (foldl (\<lambda>s block. f4_step2 s (ucast (conv (take 4 block)), ucast (conv (take 4 (drop 4 block)))))
      (get2 st) (chunks_exact 8 data))"
  by (simp add: f4_superscalar2_def put2_def get2_def regs2_def split: prod.splits)

lemma f4_superscalar4_loop: "f4_superscalar4 conv st data = put4 st
    (foldl (\<lambda>s block. f4_step4 s (ucast (conv (take 4 block)), ucast (conv (take 4 (drop 4 block))),
        ucast (conv (take 4 (drop 8 block))), ucast (conv (take 4 (drop 12 block)))))
      (get4 st) (chunks_exact 16 data))"
  by (simp add: f4_superscalar4_def put4_def get4_def regs4_def split: prod.splits)

lemma put_replicate:
  "4 \<le> n \<Longrightarrow> put1 (replicate n 0) (get1 (replicate n 0)) = replicate n 0"
  "8 \<le> n \<Longrightarrow> put2 (replicate n 0) (get2 (replicate n 0)) = replicate n 0"
  "16 \<le> n \<Longrightarrow> put4 (replicate n 0) (get4 (replicate n 0)) = replicate n 0"
proof -
  have split: "replicate n (0 :: u64) = replicate k 0 @ replicate (n - k) 0" if "k \<le> n" for k
    using that by (simp flip: replicate_add)
  show "4 \<le> n \<Longrightarrow> put1 (replicate n 0) (get1 (replicate n 0)) = replicate n 0"
    using split[of 4] by (simp add: put1_def get1_def numeral_eq_Suc)
  show "8 \<le> n \<Longrightarrow> put2 (replicate n 0) (get2 (replicate n 0)) = replicate n 0"
    using split[of 8] by (simp add: put2_def get2_def regs2_def numeral_eq_Suc)
  show "16 \<le> n \<Longrightarrow> put4 (replicate n 0) (get4 (replicate n 0)) = replicate n 0"
    using split[of 16] by (simp add: put4_def get4_def regs4_def numeral_eq_Suc)
qed

lemma get_replicate:
  "4 \<le> n \<Longrightarrow> get1 (replicate n 0) = (0, 0, 0, 0)"
  "8 \<le> n \<Longrightarrow> get2 (replicate n 0) = ((0, 0), (0, 0), (0, 0), (0, 0))"
  "16 \<le> n \<Longrightarrow> get4 (replicate n 0) = ((0, 0, 0, 0), (0, 0, 0, 0), (0, 0, 0, 0), (0, 0, 0, 0))"
  by (simp_all add: get1_def get2_def get4_def)

lemma f4_finish_put:
  "f4_finish_single (put1 st r1) = r1"
  "f4_finish_dual (put2 st r2) = f4_finish_dual (regs2 r2)"
  "f4_finish_quad (put4 st r4) = f4_finish_quad (regs4 r4)"
  by (simp_all add: f4_finish_single_def f4_finish_dual_def f4_finish_quad_def put1_def put2_def put4_def
      regs2_def regs4_def Let_def split: prod.splits)

lemma f4_generic_gen:
  "f4_generic conv [a, b, c, d] data =
     (case foldl (f4_block conv) (a, b, c, d) (chunks_exact 4 data) of (a', b', c', d') \<Rightarrow> [a', b', c', d'])"
  by (simp add: f4_generic_loop put1_def get1_def split: prod.splits)

lemma f4_dual_zero: "f4_finish_dual (regs2 ((0, 0), (0, 0), (0, 0), (0, 0))) = (0, 0, 0, 0)"
  by (simp add: f4_finish_dual_def regs2_def)

interpretation f4_impl1: fletcher_impl 4 "f4_generic conv" "replicate 32 0" 4 "f4_block conv"
  f4_finish_single "f4_generic conv" for conv
proof (intro fletcher_impl.intro fletcher_impl_axioms.intro)
  show "block_hasher 4 (f4_generic conv) (replicate 32 0)"
    by (rule block_hasherI[where put = put1 and get = get1, OF _ f4_generic_loop]) (simp_all add: put_replicate)
  show "f4_finish_single (f4_generic conv (replicate 32 0) data) =
      foldl (f4_block conv) (0, 0, 0, 0) (chunks_exact 4 data)" for data
    by (simp add: f4_generic_loop f4_finish_put get_replicate)
qed (simp_all add: f4_generic_gen)

interpretation f4_impl2: fletcher_impl 8 "f4_superscalar2 conv" "replicate 32 0" 4 "f4_block conv"
  f4_finish_dual "f4_generic conv" for conv
proof (intro fletcher_impl.intro fletcher_impl_axioms.intro)
  show "block_hasher 8 (f4_superscalar2 conv) (replicate 32 0)"
    by (rule block_hasherI[where put = put2 and get = get2, OF _ f4_superscalar2_loop]) (simp_all add: put_replicate)
  fix data :: bytes assume "8 dvd length data"
  then show "f4_finish_dual (f4_superscalar2 conv (replicate 32 0) data) =
      foldl (f4_block conv) (0, 0, 0, 0) (chunks_exact 4 data)"
    using f4_two.streams[of data conv "((0, 0), (0, 0), (0, 0), (0, 0))"]
    by (simp add: f4_superscalar2_loop f4_finish_put get_replicate f4_dual_zero)
qed (simp_all add: f4_generic_gen)

interpretation f4_impl4: fletcher_impl 16 "f4_superscalar4 conv" "replicate 32 0" 4 "f4_block conv"
  f4_finish_quad "f4_generic conv" for conv
proof (intro fletcher_impl.intro fletcher_impl_axioms.intro)
  show "block_hasher 16 (f4_superscalar4 conv) (replicate 32 0)"
    by (rule block_hasherI[where put = put4 and get = get4, OF _ f4_superscalar4_loop]) (simp_all add: put_replicate)
  fix data :: bytes assume "16 dvd length data"
  then show "f4_finish_quad (f4_superscalar4 conv (replicate 32 0) data) =
      foldl (f4_block conv) (0, 0, 0, 0) (chunks_exact 4 data)"
    using f4_four.streams[of data conv "((0, 0, 0, 0), (0, 0, 0, 0), (0, 0, 0, 0), (0, 0, 0, 0))"]
    by (simp add: f4_superscalar4_loop f4_finish_put get_replicate f4_quad_regs)
qed (simp_all add: f4_generic_gen)

section \<open>Fletcher 2\<close>

definition regs2' :: "(dual \<times> dual) \<times> dual \<times> dual \<Rightarrow> u64 list" where
  "regs2' s = (case s of (((a0, b0), (a1, b1)), (c0, d0), (c1, d1)) \<Rightarrow> [a0, b0, a1, b1, c0, d0, c1, d1])"
definition put2' :: "u64 list \<Rightarrow> (dual \<times> dual) \<times> dual \<times> dual \<Rightarrow> u64 list" where
  "put2' st r = regs2' r @ drop 8 st"
definition get2' :: "u64 list \<Rightarrow> (dual \<times> dual) \<times> dual \<times> dual" where
  "get2' st = (((st ! 0, st ! 1), (st ! 2, st ! 3)), (st ! 4, st ! 5), (st ! 6, st ! 7))"
definition regs4' :: "quad2 \<times> quad2 \<Rightarrow> u64 list" where
  "regs4' s = (case s of (((a0, b0), (a1, b1), (a2, b2), (a3, b3)), (c0, d0), (c1, d1), (c2, d2), (c3, d3)) \<Rightarrow>
     [a0, b0, a1, b1, a2, b2, a3, b3, c0, d0, c1, d1, c2, d2, c3, d3])"
definition put4' :: "u64 list \<Rightarrow> quad2 \<times> quad2 \<Rightarrow> u64 list" where
  "put4' st r = regs4' r @ drop 16 st"
definition get4' :: "u64 list \<Rightarrow> quad2 \<times> quad2" where
  "get4' st = (((st ! 0, st ! 1), (st ! 2, st ! 3), (st ! 4, st ! 5), (st ! 6, st ! 7)),
     (st ! 8, st ! 9), (st ! 10, st ! 11), (st ! 12, st ! 13), (st ! 14, st ! 15))"

lemma regs_length' [simp]: "length (regs2' r) = 8" "length (regs4' r') = 16"
  by (simp_all add: regs2'_def regs4'_def split: prod.splits)

lemma put_put' [simp]: "put2' (put2' st r2) r2' = put2' st r2'" "put4' (put4' st r4) r4' = put4' st r4'"
  by (simp_all add: put2'_def put4'_def)

lemma get_put' [simp]: "get2' (put2' st r2) = r2" "get4' (put4' st r4) = r4"
  by (simp_all add: put2'_def get2'_def regs2'_def put4'_def get4'_def regs4'_def split: prod.splits)

lemma get_replicate':
  "get2' (replicate 16 0) = (((0, 0), (0, 0)), (0, 0), (0, 0))"
  "get4' (replicate 16 0) = (((0, 0), (0, 0), (0, 0), (0, 0)), (0, 0), (0, 0), (0, 0), (0, 0))"
  by (simp_all add: get2'_def get4'_def)

lemma put_replicate':
  "put2' (replicate 16 0) (((0, 0), (0, 0)), (0, 0), (0, 0)) = replicate 16 0"
  "put4' (replicate 16 0) (((0, 0), (0, 0), (0, 0), (0, 0)), (0, 0), (0, 0), (0, 0), (0, 0)) = replicate 16 0"
  by (simp_all add: put2'_def regs2'_def put4'_def regs4'_def numeral_eq_Suc)

lemma f2_generic_loop: "f2_generic conv st data = put1 st (foldl (f2_block conv) (get1 st) (chunks_exact 16 data))"
  by (simp add: f2_generic_def put1_def get1_def f2_block_def[abs_def])

lemma f2_superscalar2_loop: "f2_superscalar2 conv st data = put2' st
    (foldl (\<lambda>s block. f2_step2 s (f2_pair conv 0 block, f2_pair conv 16 block)) (get2' st) (chunks_exact 32 data))"
  by (simp add: f2_superscalar2_def put2'_def get2'_def regs2'_def split: prod.splits)

lemma f2_superscalar4_loop: "f2_superscalar4 conv st data = put4' st
    (foldl (\<lambda>s block. f2_step4 s (f2_pair conv 0 block, f2_pair conv 16 block,
        f2_pair conv 32 block, f2_pair conv 48 block)) (get4' st) (chunks_exact 64 data))"
  by (simp add: f2_superscalar4_def put4'_def get4'_def regs4'_def split: prod.splits)

lemma f2_finish_put:
  "f2_finish_single (put1 st r1) = r1"
  "f2_finish_dual (put2' st r2) = f2_finish_dual (regs2' r2)"
  "f2_finish_quad (put4' st r4) = f2_finish_quad (regs4' r4)"
  by (simp_all add: f2_finish_single_def f2_finish_dual_def f2_finish_quad_def put1_def put2'_def put4'_def
      regs2'_def regs4'_def split: prod.splits)

lemma f2_dual_step:
  "f2_finish_dual (regs2' (f2_step2 s (x, y))) = f2_step (f2_step (f2_finish_dual (regs2' s)) x) y"
proof -
  have "f2_finish_dual (regs2' (f2_step2 (((a0, b0), (a1, b1)), (c0, d0), (c1, d1)) (x, y))) =
      f2_step (f2_step (f2_finish_dual (regs2' (((a0, b0), (a1, b1)), (c0, d0), (c1, d1)))) x) y"
    for a0 a1 b0 b1 c0 c1 d0 d1
    by (simp add: regs2'_def f2_step2_def f2_step_def f2_finish_dual_def add2_def algebra_simps)
  then show ?thesis by (cases s) (simp only: split_paired_all)
qed

lemma f2_quad_step:
  "f2_finish_quad (regs4' (f2_step4 s (v, w, x, y))) =
     f2_step (f2_step (f2_step (f2_step (f2_finish_quad (regs4' s)) v) w) x) y"
proof -
  have "f2_finish_quad (regs4' (f2_step4
      (((a0, b0), (a1, b1), (a2, b2), (a3, b3)), (c0, d0), (c1, d1), (c2, d2), (c3, d3)) (v, w, x, y))) =
      f2_step (f2_step (f2_step (f2_step (f2_finish_quad (regs4'
      (((a0, b0), (a1, b1), (a2, b2), (a3, b3)), (c0, d0), (c1, d1), (c2, d2), (c3, d3)))) v) w) x) y"
    for a0 a1 a2 a3 b0 b1 b2 b3 c0 c1 c2 c3 d0 d1 d2 d3
    by (simp add: regs4'_def f2_step4_def f2_step_def f2_finish_quad_def addq_def add2_def algebra_simps)
  then show ?thesis by (cases s) (simp only: split_paired_all)
qed

lemma f2_pair_take: "f2_pair conv 0 (take 16 blk) = f2_pair conv 0 blk"
  by (simp add: f2_pair_def drop_take min_def)

lemma f2_pair_drop: "f2_pair conv 0 (drop k blk) = f2_pair conv k blk"
  by (simp add: f2_pair_def add.commute)

interpretation f2_two: stream_step 16 2 "f2_block conv"
  "\<lambda>s block. f2_step2 s (f2_pair conv 0 block, f2_pair conv 16 block)" "\<lambda>s. f2_finish_dual (regs2' s)" for conv
  by unfold_locales (simp_all add: chunks_exact_2 f2_block_def f2_dual_step f2_pair_take f2_pair_drop)

interpretation f2_four: stream_step 16 4 "f2_block conv"
  "\<lambda>s block. f2_step4 s (f2_pair conv 0 block, f2_pair conv 16 block, f2_pair conv 32 block, f2_pair conv 48 block)"
  "\<lambda>s. f2_finish_quad (regs4' s)" for conv
  by unfold_locales (simp_all add: chunks_exact_4 f2_block_def f2_quad_step f2_pair_take f2_pair_drop)

lemma f2_generic_gen:
  "f2_generic conv [a, b, c, d] data =
     (case foldl (f2_block conv) (a, b, c, d) (chunks_exact 16 data) of (a', b', c', d') \<Rightarrow> [a', b', c', d'])"
  by (simp add: f2_generic_loop put1_def get1_def split: prod.splits)

interpretation f2_impl1: fletcher_impl 16 "f2_generic conv" "replicate 16 0" 16 "f2_block conv"
  f2_finish_single "f2_generic conv" for conv
proof (intro fletcher_impl.intro fletcher_impl_axioms.intro)
  show "block_hasher 16 (f2_generic conv) (replicate 16 0)"
    by (rule block_hasherI[where put = put1 and get = get1, OF _ f2_generic_loop]) (simp_all add: put_replicate)
  show "f2_finish_single (f2_generic conv (replicate 16 0) data) =
      foldl (f2_block conv) (0, 0, 0, 0) (chunks_exact 16 data)" for data
    by (simp add: f2_generic_loop f2_finish_put get_replicate)
qed (simp_all add: f2_generic_gen)

interpretation f2_impl2: fletcher_impl 32 "f2_superscalar2 conv" "replicate 16 0" 16 "f2_block conv"
  f2_finish_dual "f2_generic conv" for conv
proof (intro fletcher_impl.intro fletcher_impl_axioms.intro)
  show "block_hasher 32 (f2_superscalar2 conv) (replicate 16 0)"
    by (rule block_hasherI[where put = put2' and get = get2', OF _ f2_superscalar2_loop])
      (simp_all add: get_replicate' put_replicate')
  have zero: "f2_finish_dual (regs2' (((0, 0), (0, 0)), (0, 0), (0, 0))) = (0, 0, 0, 0)"
    by (simp add: f2_finish_dual_def regs2'_def)
  fix data :: bytes assume "32 dvd length data"
  then show "f2_finish_dual (f2_superscalar2 conv (replicate 16 0) data) =
      foldl (f2_block conv) (0, 0, 0, 0) (chunks_exact 16 data)"
    using f2_two.streams[of data conv "(((0, 0), (0, 0)), (0, 0), (0, 0))"]
    by (simp add: f2_superscalar2_loop f2_finish_put get_replicate' zero)
qed (simp_all add: f2_generic_gen)

interpretation f2_impl4: fletcher_impl 64 "f2_superscalar4 conv" "replicate 16 0" 16 "f2_block conv"
  f2_finish_quad "f2_generic conv" for conv
proof (intro fletcher_impl.intro fletcher_impl_axioms.intro)
  show "block_hasher 64 (f2_superscalar4 conv) (replicate 16 0)"
    by (rule block_hasherI[where put = put4' and get = get4', OF _ f2_superscalar4_loop])
      (simp_all add: get_replicate' put_replicate')
  have zero: "f2_finish_quad (regs4' (((0, 0), (0, 0), (0, 0), (0, 0)), (0, 0), (0, 0), (0, 0), (0, 0))) = (0, 0, 0, 0)"
    by (simp add: f2_finish_quad_def regs4'_def)
  fix data :: bytes assume "64 dvd length data"
  then show "f2_finish_quad (f2_superscalar4 conv (replicate 16 0) data) =
      foldl (f2_block conv) (0, 0, 0, 0) (chunks_exact 16 data)"
    using f2_four.streams[of data conv "(((0, 0), (0, 0), (0, 0), (0, 0)), (0, 0), (0, 0), (0, 0), (0, 0))"]
    by (simp add: f2_superscalar4_loop f2_finish_put get_replicate' zero)
qed (simp_all add: f2_generic_gen)

section \<open>All implementations agree\<close>

lemmas f4_update_blocks_defs =
  f4_update_blocks_generic_big_def f4_update_blocks_generic_little_def
  f4_update_blocks_superscalar2_big_def f4_update_blocks_superscalar2_little_def
  f4_update_blocks_superscalar4_big_def f4_update_blocks_superscalar4_little_def

lemmas f2_update_blocks_defs =
  f2_update_blocks_generic_big_def f2_update_blocks_generic_little_def
  f2_update_blocks_superscalar2_big_def f2_update_blocks_superscalar2_little_def
  f2_update_blocks_superscalar4_big_def f2_update_blocks_superscalar4_little_def

lemma f4_reset_fields:
  "fl_impl_ctx (fletcher4_reset ord f) = fl_impl_ctx f" "fl_order (fletcher4_reset ord f) = ord"
  "fl_update_blocks (fletcher4_reset ord f) = fletcher_ctx_update (fl_impl_ctx f) ord"
  "fl_state (fletcher4_reset ord f) = replicate 32 0" "fl_buffer_fill (fletcher4_reset ord f) = 0"
  "length (fl_buffer (fletcher4_reset ord f)) = 32"
  by (simp_all add: fletcher4_reset_def fletcher_reset_def)

lemma f2_reset_fields:
  "fl_impl_ctx (fletcher2_reset ord f) = fl_impl_ctx f" "fl_order (fletcher2_reset ord f) = ord"
  "fl_update_blocks (fletcher2_reset ord f) = fletcher_ctx_update (fl_impl_ctx f) ord"
  "fl_state (fletcher2_reset ord f) = replicate 16 0" "fl_buffer_fill (fletcher2_reset ord f) = 0"
  "length (fl_buffer (fletcher2_reset ord f)) = 64"
  by (simp_all add: fletcher2_reset_def fletcher_reset_def)

lemma fletcher4_stream:
  assumes "fletcher4_new impl = Some f"
  shows "fletcher4_finalize (fold fletcher4_update pieces (fletcher4_reset ord f)) = fletcher4_spec ord (concat pieces)"
proof -
  obtain ctx where ctx: "fletcher4_ctx impl = Some ctx" "fl_impl_ctx f = ctx"
    using assms by (auto simp: fletcher4_new_def)
  note fields = f4_reset_fields fletcher_ctx_update_def f4_update_blocks_defs fletcher4_generic_def word_of_bytes_def
  show ?thesis
    unfolding fletcher4_finalize_def fletcher4_update_def fletcher4_spec_def
  proof (cases impl)
    case Generic
    then show "fletcher_finalize 4 fletcher4_generic (fold fletcher_update pieces (fletcher4_reset ord f)) =
        foldl (f4_block (word_of_bytes ord)) (0, 0, 0, 0) (chunks_exact 4 (concat pieces))"
      using ctx by (intro f4_impl1.streaming; cases ord) (auto simp: fields)
  next
    case SuperScalar2
    then show "fletcher_finalize 4 fletcher4_generic (fold fletcher_update pieces (fletcher4_reset ord f)) =
        foldl (f4_block (word_of_bytes ord)) (0, 0, 0, 0) (chunks_exact 4 (concat pieces))"
      using ctx by (intro f4_impl2.streaming; cases ord) (auto simp: fields)
  next
    case SuperScalar4
    then show "fletcher_finalize 4 fletcher4_generic (fold fletcher_update pieces (fletcher4_reset ord f)) =
        foldl (f4_block (word_of_bytes ord)) (0, 0, 0, 0) (chunks_exact 4 (concat pieces))"
      using ctx by (intro f4_impl4.streaming; cases ord) (auto simp: fields)
  qed (use ctx in simp_all)
qed

lemma fletcher2_stream:
  assumes "fletcher2_new impl = Some f"
  shows "fletcher2_finalize (fold fletcher2_update pieces (fletcher2_reset ord f)) = fletcher2_spec ord (concat pieces)"
proof -
  obtain ctx where ctx: "fletcher2_ctx impl = Some ctx" "fl_impl_ctx f = ctx"
    using assms by (auto simp: fletcher2_new_def)
  note fields = f2_reset_fields fletcher_ctx_update_def f2_update_blocks_defs fletcher2_generic_def word_of_bytes_def
  show ?thesis
    unfolding fletcher2_finalize_def fletcher2_update_def fletcher2_spec_def
  proof (cases impl)
    case Generic
    then show "fletcher_finalize 16 fletcher2_generic (fold fletcher_update pieces (fletcher2_reset ord f)) =
        foldl (f2_block (word_of_bytes ord)) (0, 0, 0, 0) (chunks_exact 16 (concat pieces))"
      using ctx by (intro f2_impl1.streaming; cases ord) (auto simp: fields)
  next
    case SuperScalar2
    then show "fletcher_finalize 16 fletcher2_generic (fold fletcher_update pieces (fletcher2_reset ord f)) =
        foldl (f2_block (word_of_bytes ord)) (0, 0, 0, 0) (chunks_exact 16 (concat pieces))"
      using ctx by (intro f2_impl2.streaming; cases ord) (auto simp: fields)
  next
    case SuperScalar4
    then show "fletcher_finalize 16 fletcher2_generic (fold fletcher_update pieces (fletcher2_reset ord f)) =
        foldl (f2_block (word_of_bytes ord)) (0, 0, 0, 0) (chunks_exact 16 (concat pieces))"
      using ctx by (intro f2_impl4.streaming; cases ord) (auto simp: fields)
  qed (use ctx in simp_all)
qed

end
