(* ===== verification/Fletcher_Props.thy ===== *)
theory Fletcher_Props
  imports Fletcher_Equiv
begin

text \<open>
  The properties of the Fletcher checksums: a closed form of what every implementation computes,
  and that Fletcher 4 detects every change confined to one 32-bit word.
\<close>

section \<open>Closed forms\<close>

text \<open>
  The reference: iterated sums. The word at distance \<open>m\<close> from the end contributes to the \<open>k\<close>-th
  iterated sum with the coefficient \<open>m + k choose k\<close>, modulo \<open>2 ^ 64\<close>.
\<close>

definition wsum :: "nat \<Rightarrow> u64 list \<Rightarrow> u64" where
  "wsum k ws = (\<Sum>i<length ws. of_nat ((length ws - Suc i + k) choose k) * ws ! i)"

lemma wsum_Nil [simp]: "wsum k [] = 0"
  by (simp add: wsum_def)

lemma wsum_snoc_0: "wsum 0 (ws @ [w]) = wsum 0 ws + w"
  by (simp add: wsum_def nth_append)

lemma wsum_snoc_Suc: "wsum (Suc k) (ws @ [w]) = wsum (Suc k) ws + wsum k (ws @ [w])"
proof -
  let ?n = "length ws"
  have "of_nat ((?n - i + Suc k) choose Suc k) * ws ! i =
      of_nat ((?n - Suc i + Suc k) choose Suc k) * ws ! i + of_nat ((?n - i + k) choose k) * ws ! i"
    if "i < ?n" for i
  proof -
    have "?n - Suc i + Suc k = ?n - i + k" using that by simp
    moreover have "(?n - i + Suc k) choose Suc k = ((?n - i + k) choose Suc k) + ((?n - i + k) choose k)" by simp
    ultimately show ?thesis by (simp only: of_nat_add distrib_right)
  qed
  then have *: "(\<Sum>i<?n. of_nat ((?n - i + Suc k) choose Suc k) * ws ! i) =
      wsum (Suc k) ws + (\<Sum>i<?n. of_nat ((?n - i + k) choose k) * ws ! i)"
    unfolding wsum_def by (simp only: sum.distrib[symmetric]) (intro sum.cong, auto)
  have snoc: "wsum j (ws @ [w]) = (\<Sum>i<?n. of_nat ((?n - i + j) choose j) * ws ! i) + w" for j
    by (simp add: wsum_def nth_append)
  show ?thesis unfolding snoc * by (simp only: add.assoc)
qed

lemma f4_fold_wsum: "foldl f4_step (0, 0, 0, 0) ws = (wsum 0 ws, wsum 1 ws, wsum 2 ws, wsum 3 ws)"
  by (induction ws rule: rev_induct)
    (simp_all add: f4_step_def wsum_snoc_0 wsum_snoc_Suc numeral_2_eq_2 numeral_3_eq_3 algebra_simps)

lemma f2_fold_wsum: "foldl f2_step (0, 0, 0, 0) xs =
    (wsum 0 (map fst xs), wsum 0 (map snd xs), wsum 1 (map fst xs), wsum 1 (map snd xs))"
  by (induction xs rule: rev_induct)
    (simp_all add: f2_step_def wsum_snoc_0 wsum_snoc_Suc algebra_simps)

definition words32 :: "endian_order \<Rightarrow> bytes \<Rightarrow> u64 list" where
  "words32 ord data = map (\<lambda>b. ucast (word_of_bytes ord b :: u32)) (chunks_exact 4 data)"

definition words128 :: "endian_order \<Rightarrow> bytes \<Rightarrow> dual list" where
  "words128 ord data = map (f2_pair (word_of_bytes ord) 0) (chunks_exact 16 data)"

lemma fletcher4_spec_wsum: "fletcher4_spec ord data =
    (wsum 0 (words32 ord data), wsum 1 (words32 ord data), wsum 2 (words32 ord data), wsum 3 (words32 ord data))"
  by (simp only: fletcher4_spec_def words32_def f4_block_def[abs_def] foldl_map flip: f4_fold_wsum)

lemma fletcher2_spec_wsum: "fletcher2_spec ord data =
    (wsum 0 (map fst (words128 ord data)), wsum 0 (map snd (words128 ord data)),
     wsum 1 (map fst (words128 ord data)), wsum 1 (map snd (words128 ord data)))"
  by (simp only: fletcher2_spec_def words128_def f2_block_def[abs_def] foldl_map flip: f2_fold_wsum)

text \<open>
  C13. Every portable Fletcher 4 implementation, fed the data in any pieces after a reset, returns
  the four iterated sums of the 32-bit words of the data, read in the given byte order.
\<close>

theorem fletcher4_streaming:
  assumes "fletcher4_new impl = Some f"
  shows "fletcher4_finalize (fold fletcher4_update pieces (fletcher4_reset ord f)) =
    (wsum 0 (words32 ord (concat pieces)), wsum 1 (words32 ord (concat pieces)),
     wsum 2 (words32 ord (concat pieces)), wsum 3 (words32 ord (concat pieces)))"
  using fletcher4_stream[OF assms] fletcher4_spec_wsum by simp

theorem fletcher4_streaming_witness:
  "\<exists>f. fletcher4_new SuperScalar4 = Some f \<and>
     fletcher4_finalize (fold fletcher4_update [[1, 0], [0, 0, 2, 0, 0], [0, 9]] (fletcher4_reset Little f)) =
     (wsum 0 [1, 2], wsum 1 [1, 2], wsum 2 [1, 2], wsum 3 [1, 2])"
proof -
  obtain f where f: "fletcher4_new SuperScalar4 = Some f" by (simp add: fletcher4_new_def)
  have "words32 Little [1, 0, 0, 0, 2, 0, 0, 0, 9] = [1, 2]" by code_simp
  with fletcher4_streaming[OF f, of "[[1, 0], [0, 0, 2, 0, 0], [0, 9]]" Little] f show ?thesis by simp
qed

text \<open>
  C14. Every portable Fletcher 2 implementation, fed the data in any pieces after a reset, returns
  the sums and the sums of sums of the two interleaved streams of 64-bit words of the data.
\<close>

theorem fletcher2_streaming:
  assumes "fletcher2_new impl = Some f"
  shows "fletcher2_finalize (fold fletcher2_update pieces (fletcher2_reset ord f)) =
    (let xs = words128 ord (concat pieces) in
     (wsum 0 (map fst xs), wsum 0 (map snd xs), wsum 1 (map fst xs), wsum 1 (map snd xs)))"
  using fletcher2_stream[OF assms] fletcher2_spec_wsum by (simp add: Let_def)

theorem fletcher2_streaming_witness:
  "\<exists>f. fletcher2_new SuperScalar2 = Some f \<and>
     fletcher2_finalize (fold fletcher2_update [[1, 0], replicate 6 0 @ [2], replicate 9 0] (fletcher2_reset Little f)) =
     (wsum 0 [1], wsum 0 [2], wsum 1 [1], wsum 1 [2])"
proof -
  obtain f where f: "fletcher2_new SuperScalar2 = Some f" by (simp add: fletcher2_new_def)
  have "words128 Little (concat [[1, 0], replicate 6 0 @ [2], replicate 9 0]) = [(1, 2)]" by code_simp
  with fletcher2_streaming[OF f, of "[[1, 0], replicate 6 0 @ [2], replicate 9 0]" Little] f
  show ?thesis by (simp add: Let_def)
qed

section \<open>Detection\<close>

lemma word_of_bytes_inject:
  assumes "length x = 4" "length y = 4" "(word_of_bytes ord x :: u32) = word_of_bytes ord y"
  shows "x = y"
proof (cases ord)
  case Big
  then show ?thesis using assms be_bytes_be_word[of x, where 'a = 32] be_bytes_be_word[of y, where 'a = 32]
    by (simp add: word_of_bytes_def)
next
  case Little
  then show ?thesis using assms le_bytes_le_word[of x, where 'a = 32] le_bytes_le_word[of y, where 'a = 32]
    by (simp add: word_of_bytes_def)
qed

lemma inj_ucast_up: "inj (ucast :: u32 \<Rightarrow> u64)"
  by (rule inj_on_inverseI[where g = ucast]) (simp add: ucast_ucast_up)

lemma wsum_0_append: "wsum 0 (xs @ ys) = wsum 0 xs + wsum 0 ys"
  by (induction ys rule: rev_induct) (simp_all add: wsum_snoc_0 flip: append_assoc)

lemma words32_append: "4 dvd length x \<Longrightarrow> words32 ord (x @ y) = words32 ord x @ words32 ord y"
  by (simp add: words32_def chunks_exact_append)

lemma words32_one: "length x = 4 \<Longrightarrow> words32 ord x = [ucast (word_of_bytes ord x :: u32)]"
  by (simp add: words32_def chunks_exact_step)

text \<open>
  C15. Fletcher 4 detects corruption of a single word: two blocks that differ in one aligned
  32-bit word never hash to the same checksum, whatever the implementation and the byte order.
\<close>

theorem fletcher4_detects_word:
  assumes "fletcher4_new impl = Some f" "4 dvd length pre" "length x = 4" "length y = 4"
    and "fletcher4_hash (pre @ x @ post) ord f = fletcher4_hash (pre @ y @ post) ord f"
  shows "x = y"
proof -
  have hash: "fletcher4_hash data ord f = fletcher4_spec ord data" for data
    using fletcher4_stream[OF assms(1), of "[data]" ord] by (simp add: fletcher4_hash_def)
  have first: "fst (fletcher4_spec ord (pre @ z @ post)) =
      wsum 0 (words32 ord pre) + (ucast (word_of_bytes ord z :: u32) + wsum 0 (words32 ord post))"
    if "length z = 4" for z
  proof -
    have "words32 ord (pre @ z @ post) = words32 ord pre @ [ucast (word_of_bytes ord z :: u32)] @ words32 ord post"
      using assms(2) that by (simp only: words32_append words32_one dvd_refl)
    moreover have "wsum 0 [w] = w" for w by (simp add: wsum_def)
    ultimately show ?thesis by (simp only: fletcher4_spec_wsum fst_conv wsum_0_append)
  qed
  have "(ucast (word_of_bytes ord x :: u32) :: u64) = ucast (word_of_bytes ord y :: u32)"
    using arg_cong[OF assms(5)[unfolded hash], of fst]
    unfolding first[OF assms(3)] first[OF assms(4)] by (simp only: add_left_cancel add_right_cancel)
  then have "(word_of_bytes ord x :: u32) = word_of_bytes ord y"
    by (rule inj_onD[OF inj_ucast_up]) simp_all
  then show ?thesis using word_of_bytes_inject assms(3,4) by blast
qed

theorem fletcher4_detects_word_witness:
  "\<exists>f. fletcher4_new Generic = Some f \<and>
     fletcher4_hash ([7, 7, 7, 7] @ [0, 0, 0, 1] @ [5]) Big f \<noteq> fletcher4_hash ([7, 7, 7, 7] @ [0, 1, 0, 0] @ [5]) Big f"
proof -
  obtain f where f: "fletcher4_new Generic = Some f" by (simp add: fletcher4_new_def)
  have "(4 :: nat) dvd length [7, 7, 7, 7 :: u8]" by code_simp
  from fletcher4_detects_word[OF f this, of "[0, 0, 0, 1]" "[0, 1, 0, 0]" "[5]" Big] f show ?thesis by auto
qed

end
