(* ===== verification/Sha256.thy ===== *)
theory Sha256
  imports Block_Pointer
begin

text \<open>
  \<open>checksum/sha256.rs\<close>: the streaming hasher and its generic implementation. The other
  implementations are compiled only with features the crate does not declare.

  The macros \<open>round!\<close> and \<open>schedule_and_round!\<close> work on eight local variables passed in rotated
  order; \<open>sha_round\<close> is the macro on its eight arguments and the unrolled sequences keep the
  rotated argument lists of the source. Its first two arguments are the words added last, in the
  order of each macro.
\<close>

type_synonym regs = "u32 \<times> u32 \<times> u32 \<times> u32 \<times> u32 \<times> u32 \<times> u32 \<times> u32"

definition SHA_256_K :: "u32 list" where
  "SHA_256_K = concat [
     [0x428a2f98, 0x71374491, 0xb5c0fbcf, 0xe9b5dba5, 0x3956c25b, 0x59f111f1, 0x923f82a4],
     [0xab1c5ed5, 0xd807aa98, 0x12835b01, 0x243185be, 0x550c7dc3, 0x72be5d74, 0x80deb1fe],
     [0x9bdc06a7, 0xc19bf174, 0xe49b69c1, 0xefbe4786, 0x0fc19dc6, 0x240ca1cc, 0x2de92c6f],
     [0x4a7484aa, 0x5cb0a9dc, 0x76f988da, 0x983e5152, 0xa831c66d, 0xb00327c8, 0xbf597fc7],
     [0xc6e00bf3, 0xd5a79147, 0x06ca6351, 0x14292967, 0x27b70a85, 0x2e1b2138, 0x4d2c6dfc],
     [0x53380d13, 0x650a7354, 0x766a0abb, 0x81c2c92e, 0x92722c85, 0xa2bfe8a1, 0xa81a664b],
     [0xc24b8b70, 0xc76c51a3, 0xd192e819, 0xd6990624, 0xf40e3585, 0x106aa070, 0x19a4c116],
     [0x1e376c08, 0x2748774c, 0x34b0bcb5, 0x391c0cb3, 0x4ed8aa4a, 0x5b9cca4f, 0x682e6ff3],
     [0x748f82ee, 0x78a5636f, 0x84c87814, 0x8cc70208, 0x90befffa, 0xa4506ceb, 0xbef9a3f7],
     [0xc67178f2]]"

definition SHA_256_H :: regs where
  "SHA_256_H = (0x6a09e667, 0xbb67ae85, 0x3c6ef372, 0xa54ff53a, 0x510e527f, 0x9b05688c, 0x1f83d9ab,
     0x5be0cd19)"

section \<open>Rounds\<close>

definition sha_ch :: "u32 \<Rightarrow> u32 \<Rightarrow> u32 \<Rightarrow> u32" where
  "sha_ch e f g = (e AND f) XOR (NOT e AND g)"

definition sha_maj :: "u32 \<Rightarrow> u32 \<Rightarrow> u32 \<Rightarrow> u32" where
  "sha_maj a b c = ((a AND b) XOR (a AND c)) XOR (b AND c)"

text \<open>The x86 form of the two sums: nested rotations.\<close>

definition sha_s1 :: "u32 \<Rightarrow> u32" where
  "sha_s1 e = word_rotr 6 (word_rotr 5 (word_rotr 14 e XOR e) XOR e)"

definition sha_s0 :: "u32 \<Rightarrow> u32" where
  "sha_s0 a = word_rotr 2 (word_rotr 11 (word_rotr 9 a XOR a) XOR a)"

definition sha_round :: "u32 \<Rightarrow> u32 \<Rightarrow> regs \<Rightarrow> regs" where
  "sha_round k w r = (case r of (a, b, c, d, e, f, g, h) \<Rightarrow>
     let temp1 = h + sha_s1 e + sha_ch e f g + k + w;
         d = d + temp1;
         temp2 = sha_s0 a + sha_maj a b c;
         h = temp1 + temp2 in
     (a, b, c, d, e, f, g, h))"

definition sha_schedule :: "u32 list \<Rightarrow> nat \<Rightarrow> u32" where
  "sha_schedule w i =
     (let w15 = w ! (i - 15);
          s0 = word_rotr 18 w15 XOR (drop_bit 3 w15 XOR word_rotr 7 w15);
          w2 = w ! (i - 2);
          s1 = word_rotr 19 w2 XOR (drop_bit 10 w2 XOR word_rotr 17 w2) in
      w ! (i - 16) + s0 + s1 + w ! (i - 7))"

text \<open>The two macros at round \<open>i\<close>, on the schedule array and their eight register arguments.\<close>

definition sha_plain_round :: "nat \<Rightarrow> u32 list \<times> regs \<Rightarrow> u32 list \<times> regs" where
  "sha_plain_round i s = (case s of (w, r) \<Rightarrow> (w, sha_round (SHA_256_K ! i) (w ! i) r))"

definition sha_schedule_round :: "nat \<Rightarrow> u32 list \<times> regs \<Rightarrow> u32 list \<times> regs" where
  "sha_schedule_round i s = (case s of (w, r) \<Rightarrow>
     let wi = sha_schedule w i in (w[i := wi], sha_round wi (SHA_256_K ! i) r))"

text \<open>Eight unrolled uses of a macro from round \<open>i\<close> on.\<close>

definition sha_unrolled8 ::
  "(nat \<Rightarrow> u32 list \<times> regs \<Rightarrow> u32 list \<times> regs) \<Rightarrow> nat \<Rightarrow> u32 list \<times> regs \<Rightarrow> u32 list \<times> regs" where
  "sha_unrolled8 rnd i s =
     (let (w, a, b, c, d, e, f, g, h) = s;
          (w, a, b, c, d, e, f, g, h) = rnd i (w, a, b, c, d, e, f, g, h);
          (w, h, a, b, c, d, e, f, g) = rnd (i + 1) (w, h, a, b, c, d, e, f, g);
          (w, g, h, a, b, c, d, e, f) = rnd (i + 2) (w, g, h, a, b, c, d, e, f);
          (w, f, g, h, a, b, c, d, e) = rnd (i + 3) (w, f, g, h, a, b, c, d, e);
          (w, e, f, g, h, a, b, c, d) = rnd (i + 4) (w, e, f, g, h, a, b, c, d);
          (w, d, e, f, g, h, a, b, c) = rnd (i + 5) (w, d, e, f, g, h, a, b, c);
          (w, c, d, e, f, g, h, a, b) = rnd (i + 6) (w, c, d, e, f, g, h, a, b);
          (w, b, c, d, e, f, g, h, a) = rnd (i + 7) (w, b, c, d, e, f, g, h, a) in
      (w, a, b, c, d, e, f, g, h))"

function sha_loop :: "nat \<Rightarrow> u32 list \<times> regs \<Rightarrow> u32 list \<times> regs" where
  "sha_loop round s =
     (if round < 64
      then sha_loop (round + 16) (sha_unrolled8 sha_schedule_round (round + 8) (sha_unrolled8 sha_schedule_round round s))
      else s)"
  by pat_completeness auto
termination by (relation "measure (\<lambda>(round, _). 64 - round)") auto

declare sha_loop.simps [simp del]

definition add8 :: "regs \<Rightarrow> regs \<Rightarrow> regs" where
  "add8 x y = (case x of (a, b, c, d, e, f, g, h) \<Rightarrow> case y of (a', b', c', d', e', f', g', h') \<Rightarrow>
     (a + a', b + b', c + c', d + d', e + e', f + f', g + g', h + h'))"

text \<open>
  One block: the schedule array \<open>w\<close>, the registers \<open>a\<close> to \<open>h\<close> and the state are carried from block
  to block.
\<close>

definition sha_block :: "u32 list \<times> regs \<times> regs \<Rightarrow> bytes \<Rightarrow> u32 list \<times> regs \<times> regs" where
  "sha_block s block = (case s of (w, r, state) \<Rightarrow>
     let w = overwrite w 0 (map be_word (chunks_exact 4 block));
         (w, r) = sha_unrolled8 sha_plain_round 8 (sha_unrolled8 sha_plain_round 0 (w, r));
         (w, r) = sha_loop 16 (w, r);
         r = add8 r state in
     (w, r, r))"

definition sha_update_blocks_generic :: "regs \<Rightarrow> bytes \<Rightarrow> regs" where
  "sha_update_blocks_generic state data =
     (case foldl sha_block (replicate 64 0, state, state) (chunks_exact 64 data) of (w, r, state) \<Rightarrow> state)"

section \<open>The hasher\<close>

datatype sha256_implementation = Sha_Generic | Sha_BMI | Sha_SSSE3 | Sha_AVX | Sha_AVX2 | Sha_SHA

record sha256 =
  sh_bytes_processed :: u64
  sh_buffer_fill :: nat
  sh_buffer :: bytes
  sh_state :: regs

fun sha256_new :: "sha256_implementation \<Rightarrow> sha256 option" where
  "sha256_new Sha_Generic =
     Some \<lparr>sh_bytes_processed = 0, sh_buffer_fill = 0, sh_buffer = replicate 64 0, sh_state = SHA_256_H\<rparr>"
| "sha256_new _ = None"

definition sha256_reset :: "sha256 \<Rightarrow> sha256" where
  "sha256_reset s = s\<lparr>sh_bytes_processed := 0, sh_buffer := replicate 64 0, sh_buffer_fill := 0, sh_state := SHA_256_H\<rparr>"

definition sha256_fill :: "sha256 \<Rightarrow> bytes \<Rightarrow> sha256 \<times> bytes" where
  "sha256_fill s data =
     (if sh_buffer_fill s > 0 then
        let todo = min (64 - sh_buffer_fill s) (length data);
            buffer = overwrite (sh_buffer s) (sh_buffer_fill s) (take todo data);
            fill = sh_buffer_fill s + todo;
            data = drop todo data in
        if fill = 64
        then (s\<lparr>sh_buffer := buffer, sh_bytes_processed := sh_bytes_processed s + 64,
                sh_state := sha_update_blocks_generic (sh_state s) (take fill buffer), sh_buffer_fill := 0\<rparr>, data)
        else (s\<lparr>sh_buffer := buffer, sh_buffer_fill := fill\<rparr>, data)
      else (s, data))"

definition sha256_tail :: "bytes \<Rightarrow> sha256 \<Rightarrow> sha256" where
  "sha256_tail data s =
     (let remainder = length data mod 64;
          full = take (length data - remainder) data;
          s = s\<lparr>sh_bytes_processed := sh_bytes_processed s + of_nat (length full),
                sh_state := sha_update_blocks_generic (sh_state s) full\<rparr> in
      if remainder > 0
      then s\<lparr>sh_buffer := overwrite (sh_buffer s) 0 (drop (length data - remainder) data),
             sh_buffer_fill := remainder\<rparr>
      else s)"

definition sha256_update :: "bytes \<Rightarrow> sha256 \<Rightarrow> sha256" where
  "sha256_update data s = (let (s, data) = sha256_fill s data in sha256_tail data s)"

text \<open>\<open>while buffer_fill < n { buffer[buffer_fill] = 0; buffer_fill += 1 }\<close>.\<close>

definition sha256_zero_fill :: "nat \<Rightarrow> sha256 \<Rightarrow> sha256" where
  "sha256_zero_fill n s =
     (if sh_buffer_fill s < n
      then s\<lparr>sh_buffer := overwrite (sh_buffer s) (sh_buffer_fill s) (replicate (n - sh_buffer_fill s) 0),
             sh_buffer_fill := n\<rparr>
      else s)"

definition sha_words :: "regs \<Rightarrow> words4" where
  "sha_words r = (case r of (a, b, c, d, e, f, g, h) \<Rightarrow>
     (push_bit 32 (ucast a) OR ucast b, push_bit 32 (ucast c) OR ucast d,
      push_bit 32 (ucast e) OR ucast f, push_bit 32 (ucast g) OR ucast h))"

definition sha256_finalize :: "sha256 \<Rightarrow> words4" where
  "sha256_finalize s =
     (let byte_length = sh_bytes_processed s + of_nat (sh_buffer_fill s);
          bit_length = byte_length * 8;
          s = s\<lparr>sh_buffer := (sh_buffer s)[sh_buffer_fill s := 0x80], sh_buffer_fill := sh_buffer_fill s + 1\<rparr>;
          s = (if sh_buffer_fill s > 56
               then let s = sha256_zero_fill 64 s in
                    s\<lparr>sh_buffer_fill := 0, sh_state := sha_update_blocks_generic (sh_state s) (sh_buffer s)\<rparr>
               else s);
          s = sha256_zero_fill 56 s;
          buffer = overwrite (sh_buffer s) 56 (be_bytes 8 bit_length) in
      sha_words (sha_update_blocks_generic (sh_state s) buffer))"

definition sha256_hash :: "bytes \<Rightarrow> sha256 \<Rightarrow> words4" where
  "sha256_hash data s = sha256_finalize (sha256_update data (sha256_reset s))"

end
