(* ===== verification/Sha256_Props.thy ===== *)
theory Sha256_Props
  imports Sha256
begin

text \<open>
  The SHA-256 hasher against the standard: \<open>sha256_spec\<close> is the function of FIPS 180-4, with the
  padding of the whole message, the schedule as a recursion and one round as a shift of the
  registers. The unrolled rounds compute it, and the hasher does so for data fed in any pieces.
\<close>

section \<open>The standard\<close>

definition Sigma0 :: "u32 \<Rightarrow> u32" where
  "Sigma0 x = word_rotr 2 x XOR word_rotr 13 x XOR word_rotr 22 x"

definition Sigma1 :: "u32 \<Rightarrow> u32" where
  "Sigma1 x = word_rotr 6 x XOR word_rotr 11 x XOR word_rotr 25 x"

definition sigma0 :: "u32 \<Rightarrow> u32" where
  "sigma0 x = word_rotr 7 x XOR word_rotr 18 x XOR drop_bit 3 x"

definition sigma1 :: "u32 \<Rightarrow> u32" where
  "sigma1 x = word_rotr 17 x XOR word_rotr 19 x XOR drop_bit 10 x"

fun fips_W :: "u32 list \<Rightarrow> nat \<Rightarrow> u32" where
  "fips_W M t =
     (if t < 16 then M ! t
      else sigma1 (fips_W M (t - 2)) + fips_W M (t - 7) + sigma0 (fips_W M (t - 15)) + fips_W M (t - 16))"

declare fips_W.simps [simp del]

definition fips_round :: "u32 list \<Rightarrow> nat \<Rightarrow> regs \<Rightarrow> regs" where
  "fips_round M t r = (case r of (a, b, c, d, e, f, g, h) \<Rightarrow>
     let T1 = h + Sigma1 e + ((e AND f) XOR (NOT e AND g)) + SHA_256_K ! t + fips_W M t;
         T2 = Sigma0 a + ((a AND b) XOR (a AND c) XOR (b AND c)) in
     (T1 + T2, a, b, c, d + T1, e, f, g))"

definition fips_compress :: "regs \<Rightarrow> bytes \<Rightarrow> regs" where
  "fips_compress H block =
     add8 (fold (fips_round (map be_word (chunks_exact 4 block))) [0..<64] H) H"

definition fips_pad :: "bytes \<Rightarrow> bytes" where
  "fips_pad msg = msg @ [0x80] @ replicate ((119 - length msg mod 64) mod 64) 0 @
     be_bytes 8 (of_nat (8 * length msg) :: u64)"

definition sha256_spec :: "bytes \<Rightarrow> regs" where
  "sha256_spec msg = foldl fips_compress SHA_256_H (chunks_exact 64 (fips_pad msg))"

section \<open>The unrolled rounds\<close>

fun rot8 :: "u32 list \<times> regs \<Rightarrow> u32 list \<times> regs" where
  "rot8 (w, a, b, c, d, e, f, g, h) = (w, h, a, b, c, d, e, f, g)"

lemma upt_8: "[i..<i + 8] = [i, i + 1, i + 2, i + 3, i + 4, i + 5, i + 6, i + 7]"
  by (simp add: upt_rec)

lemma regs_cases:
  fixes s :: "u32 list \<times> regs"
  obtains w a b c d e f g h where "s = (w, a, b, c, d, e, f, g, h)"
  by (cases s) auto

lemma sha_unrolled8_fold: "sha_unrolled8 rnd i s = fold (\<lambda>j s. rot8 (rnd j s)) [i..<i + 8] s"
proof -
  obtain w a b c d e f g h where s: "s = (w, a, b, c, d, e, f, g, h)" by (rule regs_cases)
  obtain w1 a1 b1 c1 d1 e1 f1 g1 h1 where 1: "rnd i (w, a, b, c, d, e, f, g, h) = (w1, a1, b1, c1, d1, e1, f1, g1, h1)"
    by (rule regs_cases)
  obtain w2 a2 b2 c2 d2 e2 f2 g2 h2 where 2: "rnd (i + 1) (w1, h1, a1, b1, c1, d1, e1, f1, g1) = (w2, h2, a2, b2, c2, d2, e2, f2, g2)"
    by (rule regs_cases)
  obtain w3 a3 b3 c3 d3 e3 f3 g3 h3 where 3: "rnd (i + 2) (w2, g2, h2, a2, b2, c2, d2, e2, f2) = (w3, g3, h3, a3, b3, c3, d3, e3, f3)"
    by (rule regs_cases)
  obtain w4 a4 b4 c4 d4 e4 f4 g4 h4 where 4: "rnd (i + 3) (w3, f3, g3, h3, a3, b3, c3, d3, e3) = (w4, f4, g4, h4, a4, b4, c4, d4, e4)"
    by (rule regs_cases)
  obtain w5 a5 b5 c5 d5 e5 f5 g5 h5 where 5: "rnd (i + 4) (w4, e4, f4, g4, h4, a4, b4, c4, d4) = (w5, e5, f5, g5, h5, a5, b5, c5, d5)"
    by (rule regs_cases)
  obtain w6 a6 b6 c6 d6 e6 f6 g6 h6 where 6: "rnd (i + 5) (w5, d5, e5, f5, g5, h5, a5, b5, c5) = (w6, d6, e6, f6, g6, h6, a6, b6, c6)"
    by (rule regs_cases)
  obtain w7 a7 b7 c7 d7 e7 f7 g7 h7 where 7: "rnd (i + 6) (w6, c6, d6, e6, f6, g6, h6, a6, b6) = (w7, c7, d7, e7, f7, g7, h7, a7, b7)"
    by (rule regs_cases)
  obtain w8 a8 b8 c8 d8 e8 f8 g8 h8 where 8: "rnd (i + 7) (w7, b7, c7, d7, e7, f7, g7, h7, a7) = (w8, b8, c8, d8, e8, f8, g8, h8, a8)"
    by (rule regs_cases)
  show ?thesis unfolding s sha_unrolled8_def upt_8 Let_def
    by (simp only: 1 2 3 4 5 6 7 8 rot8.simps fold.simps id_apply o_apply prod.case)
qed

lemma sha_s1_eq: "sha_s1 e = Sigma1 e"
proof -
  have "sha_s1 e = word_rotr (6 + 5 + 14) e XOR (word_rotr (6 + 5) e XOR word_rotr 6 e)"
    by (simp only: sha_s1_def word_rot_logs word_rotr_word_rotr_eq xor.assoc add.assoc)
  then show ?thesis by (simp add: Sigma1_def xor.assoc xor.commute xor.left_commute)
qed

lemma sha_s0_eq: "sha_s0 a = Sigma0 a"
proof -
  have "sha_s0 a = word_rotr (2 + 11 + 9) a XOR (word_rotr (2 + 11) a XOR word_rotr 2 a)"
    by (simp only: sha_s0_def word_rot_logs word_rotr_word_rotr_eq xor.assoc add.assoc)
  then show ?thesis by (simp add: Sigma0_def xor.assoc xor.commute xor.left_commute)
qed

lemma sha_round_commute: "sha_round k w r = sha_round w k r"
proof -
  have "x + k + w = x + w + k" for x by (simp only: add.assoc add.commute[of k w])
  then show ?thesis by (simp only: sha_round_def)
qed

lemma sha_round_eq: "rot8 (w, sha_round (SHA_256_K ! i) (fips_W M i) r) = (w, fips_round M i r)"
proof -
  obtain a b c d e f g h where r: "r = (a, b, c, d, e, f, g, h)" by (cases r) auto
  show ?thesis
    by (simp only: r sha_round_def fips_round_def Let_def sha_ch_def sha_maj_def sha_s0_eq sha_s1_eq prod.case rot8.simps xor.assoc)
qed

lemma sha_schedule_eq:
  assumes "16 \<le> i" "\<forall>t<i. w ! t = fips_W M t"
  shows "sha_schedule w i = fips_W M i"
  using assms by (subst fips_W.simps)
    (simp add: sha_schedule_def Let_def sigma0_def sigma1_def add.assoc add.commute add.left_commute xor.assoc xor.commute xor.left_commute)

text \<open>The state before round \<open>i\<close>: the schedule is filled up to there, and the registers are the standard's.\<close>

definition sha_at :: "u32 list \<Rightarrow> regs \<Rightarrow> nat \<Rightarrow> u32 list \<times> regs \<Rightarrow> bool" where
  "sha_at M H i s \<longleftrightarrow> length (fst s) = 64 \<and> (\<forall>t<max 16 i. fst s ! t = fips_W M t) \<and>
     snd s = fold (fips_round M) [0..<i] H"

lemma sha_at_plain:
  assumes "sha_at M H i s" "i < 16"
  shows "sha_at M H (Suc i) (rot8 (sha_plain_round i s))"
proof -
  obtain w r where s: "s = (w, r)" by (rule prod.exhaust)
  have "rot8 (sha_plain_round i s) = (w, fips_round M i r)"
    using assms by (simp add: s sha_at_def sha_plain_round_def sha_round_eq)
  then show ?thesis using assms by (simp add: s sha_at_def)
qed

lemma sha_at_schedule:
  assumes "sha_at M H i s" "16 \<le> i" "i < 64"
  shows "sha_at M H (Suc i) (rot8 (sha_schedule_round i s))"
proof -
  obtain w r where s: "s = (w, r)" by (rule prod.exhaust)
  have "sha_schedule w i = fips_W M i" using assms by (intro sha_schedule_eq) (auto simp: s sha_at_def)
  then have "rot8 (sha_schedule_round i s) = (w[i := fips_W M i], fips_round M i r)"
    by (simp add: s sha_schedule_round_def Let_def sha_round_commute[of "fips_W M i"] sha_round_eq)
  then show ?thesis using assms by (auto simp: s sha_at_def nth_list_update less_Suc_eq)
qed

lemma sha_at_fold:
  assumes "\<And>j s. sha_at M H j s \<Longrightarrow> i \<le> j \<Longrightarrow> j < i + n \<Longrightarrow> sha_at M H (Suc j) (rot8 (rnd j s))" "sha_at M H i s"
  shows "sha_at M H (i + n) (fold (\<lambda>j s. rot8 (rnd j s)) [i..<i + n] s)"
  using assms(1)
proof (induction n)
  case 0
  then show ?case using assms(2) by simp
next
  case (Suc n)
  then show ?case by simp
qed

lemma sha_at_plain8:
  assumes "sha_at M H i s" "i + 8 \<le> 16"
  shows "sha_at M H (i + 8) (sha_unrolled8 sha_plain_round i s)"
  unfolding sha_unrolled8_fold using assms by (intro sha_at_fold sha_at_plain) auto

lemma sha_at_schedule8:
  assumes "sha_at M H i s" "16 \<le> i" "i + 8 \<le> 64"
  shows "sha_at M H (i + 8) (sha_unrolled8 sha_schedule_round i s)"
  unfolding sha_unrolled8_fold using assms by (intro sha_at_fold sha_at_schedule) auto

lemma sha_at_loop:
  assumes "sha_at M H i s" "16 \<le> i" "i \<le> 64" "16 dvd i"
  shows "sha_at M H 64 (sha_loop i s)"
  using assms
proof (induction i s rule: sha_loop.induct)
  case (1 i s)
  show ?case
  proof (cases "i < 64")
    case True
    then have "i + 16 \<le> 64" using 1(5) by (elim dvdE) simp
    moreover have "sha_at M H (i + 16) (sha_unrolled8 sha_schedule_round (i + 8) (sha_unrolled8 sha_schedule_round i s))"
      using sha_at_schedule8[OF sha_at_schedule8[OF 1(2,3)]] calculation 1(3) by (simp add: add.assoc)
    ultimately show ?thesis using 1 True by (subst sha_loop.simps) simp
  next
    case False
    then show ?thesis using 1 by (subst sha_loop.simps) simp
  qed
qed

lemma length_chunks_exact: "0 < n \<Longrightarrow> length (chunks_exact n xs) = length xs div n"
proof (induction n xs rule: chunks_exact.induct)
  case (1 n xs)
  then show ?case by (subst chunks_exact.simps) (auto simp: le_div_geq)
qed

lemma sha_block_eq:
  assumes "length w = 64" "length block = 64"
  shows "\<exists>w'. sha_block (w, H, H) block = (w', fips_compress H block, fips_compress H block) \<and> length w' = 64"
proof -
  define M where "M = map (be_word :: bytes \<Rightarrow> u32) (chunks_exact 4 block)"
  have M: "length M = 16" using assms by (simp add: M_def length_chunks_exact)
  have "sha_at M H 0 (overwrite w 0 M, H)"
    using assms M by (auto simp: sha_at_def overwrite_def nth_append fips_W.simps)
  from sha_at_plain8[OF sha_at_plain8[OF this]]
  have "sha_at M H 16 (sha_unrolled8 sha_plain_round 8 (sha_unrolled8 sha_plain_round 0 (overwrite w 0 M, H)))" by simp
  from sha_at_loop[OF this]
  have "sha_at M H 64 (sha_loop 16 (sha_unrolled8 sha_plain_round 8 (sha_unrolled8 sha_plain_round 0 (overwrite w 0 M, H))))" by simp
  then show ?thesis unfolding sha_block_def fips_compress_def M_def[symmetric] sha_at_def
    by (auto simp: Let_def split: prod.splits)
qed

lemma sha_update_blocks_eq: "sha_update_blocks_generic H data = foldl fips_compress H (chunks_exact 64 data)"
proof -
  have "\<exists>w'. foldl sha_block (w, H, H) bs = (w', foldl fips_compress H bs, foldl fips_compress H bs)"
    if "length w = 64" "\<forall>b\<in>set bs. length b = 64" for w bs
    using that
  proof (induction bs arbitrary: w H)
    case (Cons b bs)
    obtain w' where w': "sha_block (w, H, H) b = (w', fips_compress H b, fips_compress H b)" "length w' = 64"
      using sha_block_eq[of w b H] Cons.prems by auto
    show ?case using Cons.IH[OF w'(2), of "fips_compress H b"] Cons.prems by (simp add: w'(1))
  qed simp
  from this[of "replicate 64 0" "chunks_exact 64 data"] show ?thesis
    using chunks_exact_length[of _ 64 data] by (auto simp: sha_update_blocks_generic_def)
qed

section \<open>The hasher\<close>

text \<open>The hasher has sha_absorbed a message: full blocks are hashed, and the rest is in the buffer.\<close>

definition sha_absorbed :: "bytes \<Rightarrow> sha256 \<Rightarrow> bool" where
  "sha_absorbed m s \<longleftrightarrow> length (sh_buffer s) = 64 \<and> sh_buffer_fill s = length m mod 64 \<and>
     take (sh_buffer_fill s) (sh_buffer s) = drop (length m - length m mod 64) m \<and>
     sh_bytes_processed s = of_nat (length m - length m mod 64) \<and>
     sh_state s = foldl fips_compress SHA_256_H (chunks_exact 64 m)"

lemma sha_absorbed_reset: "sha_absorbed [] (sha256_reset s)"
  by (simp add: sha_absorbed_def sha256_reset_def)

lemma sha_absorbed_tail:
  assumes "sha_absorbed m s" "64 dvd length m"
  shows "sha_absorbed (m @ data) (sha256_tail data s)"
proof -
  let ?r = "length data mod 64" and ?k = "length data - length data mod 64"
  have m: "length (m @ data) mod 64 = ?r" "length (m @ data) - ?r = length m + ?k"
    using assms(2) by (auto elim!: dvdE)
  have "chunks_exact 64 (m @ data) = chunks_exact 64 m @ chunks_exact 64 (take ?k data)"
    using assms(2) by (simp add: chunks_exact_append chunks_exact_take)
  moreover have "length m mod 64 = 0" using assms(2) by simp
  ultimately show ?thesis using assms(1) m
    by (auto simp: sha_absorbed_def sha256_tail_def Let_def sha_update_blocks_eq overwrite_def)
qed

lemma sha_absorbed_fill:
  assumes "sha_absorbed m s" "sha256_fill s data = (s', rest)"
  shows "\<exists>pre. data = pre @ rest \<and> sha_absorbed (m @ pre) s' \<and> (rest = [] \<or> 64 dvd length (m @ pre))"
proof (cases "sh_buffer_fill s = 0")
  case True
  then show ?thesis using assms by (auto simp: sha256_fill_def sha_absorbed_def mod_eq_0_iff_dvd)
next
  case False
  define n where "n = min (64 - sh_buffer_fill s) (length data)"
  define pre where "pre = take n data"
  let ?buffer = "overwrite (sh_buffer s) (sh_buffer_fill s) pre"
  let ?f = "length m mod 64"
  have fill: "sh_buffer_fill s = ?f" and buf: "length (sh_buffer s) = 64" "take ?f (sh_buffer s) = drop (length m - ?f) m"
    using assms(1) by (auto simp: sha_absorbed_def)
  have n: "length pre = n" "?f + n \<le> 64" "data = pre @ drop n data" "?f < 64" by (auto simp: n_def pre_def fill)
  have buffer: "length ?buffer = 64" "take (?f + n) ?buffer = drop (length m - ?f) (m @ pre)"
    using buf n by (auto simp: overwrite_def fill)
  have split: "m @ pre = take (length m - ?f) m @ take (?f + n) ?buffer"
    unfolding buffer(2) by simp
  have len: "length (m @ pre) = length m - ?f + (?f + n)" using n(1) by simp
  have dvd: "64 dvd length m - ?f" by (simp add: dvd_minus_mod)
  have chunks: "chunks_exact 64 (m @ pre) = chunks_exact 64 m @ chunks_exact 64 (take (?f + n) ?buffer)"
    unfolding split using dvd by (subst chunks_exact_append) (auto simp: chunks_exact_take)
  have step: "sha256_fill s data = (if ?f + n = 64
      then (s\<lparr>sh_buffer := ?buffer, sh_bytes_processed := sh_bytes_processed s + 64,
        sh_state := sha_update_blocks_generic (sh_state s) (take (?f + n) ?buffer), sh_buffer_fill := 0\<rparr>, drop n data)
      else (s\<lparr>sh_buffer := ?buffer, sh_buffer_fill := ?f + n\<rparr>, drop n data))"
    unfolding sha256_fill_def Let_def n_def[symmetric] pre_def[symmetric] using False fill by simp
  show ?thesis
  proof (cases "?f + n = 64")
    case True
    then have "length (m @ pre) mod 64 = 0" using len dvd by (metis dvd_add dvd_imp_mod_0 dvd_refl)
    moreover have "of_nat (length (m @ pre)) = of_nat (length m - ?f) + (64 :: u64)"
      unfolding len True by simp
    moreover have "s' = s\<lparr>sh_buffer := ?buffer, sh_bytes_processed := sh_bytes_processed s + 64,
        sh_state := sha_update_blocks_generic (sh_state s) (take (?f + n) ?buffer), sh_buffer_fill := 0\<rparr>" "rest = drop n data"
      using assms(2) True unfolding step by auto
    ultimately have "sha_absorbed (m @ pre) s'" using assms(1) buffer(1) chunks
      by (simp add: sha_absorbed_def sha_update_blocks_eq)
    then show ?thesis using n(3) \<open>length (m @ pre) mod 64 = 0\<close> \<open>rest = _\<close> by (intro exI[of _ pre]) auto
  next
    case more: False
    then have lt: "?f + n < 64" using n(2) by simp
    then have "(?f + n) mod 64 = ?f + n" by simp
    then have mod: "length (m @ pre) mod 64 = ?f + n" unfolding n(1) length_append mod_add_left_eq .
    have "n = length data" using lt unfolding n_def fill by simp
    then have rest: "rest = []" "s' = s\<lparr>sh_buffer := ?buffer, sh_buffer_fill := ?f + n\<rparr>"
      using assms(2) more unfolding step by auto
    moreover have "chunks_exact 64 (take (?f + n) ?buffer) = []" using lt buffer(1) by simp
    ultimately have "sha_absorbed (m @ pre) s'" using assms(1) buffer chunks mod len
      by (simp add: sha_absorbed_def)
    then show ?thesis using n(3) rest(1) \<open>n = length data\<close> by (intro exI[of _ pre]) simp
  qed
qed

lemma sha_absorbed_update:
  assumes "sha_absorbed m s"
  shows "sha_absorbed (m @ data) (sha256_update data s)"
proof -
  obtain s' rest where f: "sha256_fill s data = (s', rest)" by force
  from sha_absorbed_fill[OF assms this] obtain pre where pre: "data = pre @ rest" "sha_absorbed (m @ pre) s'"
    "rest = [] \<or> 64 dvd length (m @ pre)" by blast
  have "sha_absorbed ((m @ pre) @ rest) (sha256_tail rest s')"
  proof (cases "rest = []")
    case True
    have "sha256_tail [] s' = s'" by (simp add: sha256_tail_def sha_update_blocks_eq)
    then show ?thesis using True pre by simp
  qed (use pre sha_absorbed_tail in blast)
  then show ?thesis unfolding sha256_update_def f by (simp add: pre(1))
qed

lemma sha_absorbed_fold: "sha_absorbed m s \<Longrightarrow> sha_absorbed (m @ concat pieces) (fold sha256_update pieces s)"
proof (induction pieces arbitrary: m s)
  case (Cons x pieces)
  from Cons.IH[OF sha_absorbed_update[OF Cons.prems, of x]] show ?case by simp
qed simp

text \<open>The padding, by the two cases of the hasher.\<close>

lemma chunks_pad:
  assumes "q = drop (length m - length m mod 64) m"
  shows "chunks_exact 64 (fips_pad m) = chunks_exact 64 m @ chunks_exact 64 (q @ [0x80] @
    replicate ((119 - length m mod 64) mod 64) 0 @ be_bytes 8 (of_nat (8 * length m) :: u64))"
proof -
  let ?k = "length m - length m mod 64"
  have "fips_pad m = take ?k m @ (q @ [0x80] @ replicate ((119 - length m mod 64) mod 64) 0 @
      be_bytes 8 (of_nat (8 * length m) :: u64))"
    unfolding assms fips_pad_def append_assoc[symmetric] append_take_drop_id by simp
  moreover have "64 dvd length (take ?k m)" by (simp add: dvd_minus_mod)
  moreover have "chunks_exact 64 (take ?k m) = chunks_exact 64 m" by (simp add: chunks_exact_take)
  ultimately show ?thesis by (simp only: chunks_exact_append)
qed

lemma chunks_64_1: "length x = 64 \<Longrightarrow> chunks_exact 64 x = [x]"
  using chunks_exact_Cons[of 64 x "[]"] by simp

lemma chunks_64_2: "length x = 64 \<Longrightarrow> length y = 64 \<Longrightarrow> chunks_exact 64 (x @ y) = [x, y]"
  using chunks_exact_Cons[of 64 x y] by (simp add: chunks_64_1)

lemma overwrite_after: "length xs = i \<Longrightarrow> overwrite (xs @ ys) i src = xs @ src @ drop (length src) ys"
  by (simp add: overwrite_def)

lemma sha256_zero_fill_eq:
  assumes "sh_buffer_fill s \<le> n"
  shows "sha256_zero_fill n s = s\<lparr>sh_buffer :=
    overwrite (sh_buffer s) (sh_buffer_fill s) (replicate (n - sh_buffer_fill s) 0), sh_buffer_fill := n\<rparr>"
  using assms by (cases s) (auto simp: sha256_zero_fill_def overwrite_def)

lemma sha256_finalize_eq:
  assumes "sha_absorbed m s"
  shows "sha256_finalize s = sha_words (sha256_spec m)"
proof -
  define f where "f = length m mod 64"
  define q where "q = drop (length m - f) m"
  define len where "len = be_bytes 8 (of_nat (8 * length m) :: u64)"
  have f: "f < 64" "sh_buffer_fill s = f" and q: "length q = f" "take f (sh_buffer s) = q"
    and buf: "length (sh_buffer s) = 64" and len8: "length len = 8"
    using assms by (auto simp: sha_absorbed_def f_def q_def len_def)
  have st: "sh_state s = foldl fips_compress SHA_256_H (chunks_exact 64 m)" using assms by (simp add: sha_absorbed_def)
  have bits: "(sh_bytes_processed s + of_nat f) * 8 = (of_nat (8 * length m) :: u64)"
  proof -
    have "sh_bytes_processed s + of_nat f = of_nat (length m - f + f)"
      using assms unfolding of_nat_add by (simp add: sha_absorbed_def f_def)
    then show ?thesis by (simp add: f_def mult.commute)
  qed
  have bits: "be_bytes 8 (sh_bytes_processed s * 8 + of_nat f * 8) = len"
    unfolding len_def bits[symmetric] distrib_right ..
  have buffer: "(sh_buffer s)[f := 0x80] = (q @ [0x80]) @ drop (Suc f) (sh_buffer s)"
    using f buf q by (simp add: upd_conv_take_nth_drop)
  have spec: "sha256_spec m = foldl fips_compress (sh_state s)
      (chunks_exact 64 (q @ [0x80] @ replicate ((119 - f) mod 64) 0 @ len))"
    using chunks_pad[of q m] by (simp add: sha256_spec_def st q_def f_def len_def)
  show ?thesis
  proof (cases "f < 56")
    case True
    let ?last = "q @ [0x80] @ replicate (55 - f) 0 @ len"
    have pad: "(119 - f) mod 64 = 55 - f" using True by (simp add: mod_if)
    have one: "chunks_exact 64 ?last = [?last]" using True q len8 by (intro chunks_64_1) simp
    have "overwrite ((q @ [0x80]) @ drop (Suc f) (sh_buffer s)) (Suc f) (replicate (55 - f) 0) =
        (q @ [0x80] @ replicate (55 - f) 0) @ drop 56 (sh_buffer s)"
      using True q by (subst overwrite_after) auto
    moreover have "length (q @ [0x80] @ replicate (55 - f) 0) = 56" using True q by simp
    ultimately have "overwrite (overwrite ((q @ [0x80]) @ drop (Suc f) (sh_buffer s)) (Suc f) (replicate (55 - f) 0)) 56 len = ?last"
      using buf len8 by (simp add: overwrite_after del: append_assoc)
    then have "sha256_finalize s = sha_words (sha_update_blocks_generic (sh_state s) ?last)"
      using True by (simp add: sha256_finalize_def Let_def sha256_zero_fill_eq f(2) buffer bits)
    then show ?thesis by (simp only: spec pad one sha_update_blocks_eq)
  next
    case False
    let ?one = "q @ [0x80] @ replicate (63 - f) 0" and ?two = "replicate 56 0 @ len"
    have "(119 - f) mod 64 = 63 - f + 56" using False f by (simp add: mod_if)
    then have pad: "q @ [0x80] @ replicate ((119 - f) mod 64) 0 @ len = ?one @ ?two"
      by (simp only: replicate_add append_assoc)
    have lens: "length ?one = 64" "length ?two = 64" using f q len8 False by auto
    have "overwrite ((q @ [0x80]) @ drop (Suc f) (sh_buffer s)) (Suc f) (replicate (63 - f) 0) = ?one"
      using f q buf by (subst overwrite_after) auto
    moreover have "overwrite (overwrite ?one 0 (replicate 56 0)) 56 len = ?two"
      using lens(1) len8 by (simp add: overwrite_def)
    ultimately have "sha256_finalize s =
        sha_words (sha_update_blocks_generic (sha_update_blocks_generic (sh_state s) ?one) ?two)"
      using False f by (simp add: sha256_finalize_def Let_def sha256_zero_fill_eq f(2) buffer bits)
    then show ?thesis
      by (simp only: spec pad chunks_64_2[OF lens] chunks_64_1[OF lens(1)] chunks_64_1[OF lens(2)] sha_update_blocks_eq foldl.simps)
  qed
qed

text \<open>
  C12. The hasher computes SHA-256: for data fed in any pieces after a reset, the digest is that of
  the function of FIPS 180-4 on the whole data.
\<close>

theorem sha256_streaming:
  "sha256_finalize (fold sha256_update pieces (sha256_reset s)) = sha_words (sha256_spec (concat pieces))"
  using sha256_finalize_eq sha_absorbed_fold[OF sha_absorbed_reset] by fastforce

end
