(* ===== verification/Lzjb.thy ===== *)
theory Lzjb
  imports Phys_Types
begin

text \<open>
  \<open>compression/lzjb.rs\<close>: the LZJB encoders (current and pre-v21, which differ only in the hash of
  three bytes and in how much of the table they clear) and the decoder, and that decoding undoes
  encoding.

  The loops are step functions on the local variables, iterated by a function that terminates
  because every step consumes input (encoder) or produces output (decoder). A write outside the
  destination is \<^const>\<open>Panic\<close>; the source indices are in range by the guard on the remaining length.
\<close>

section \<open>Encoder\<close>

datatype compression_error = NotCompressable | CompressionUnsupported compression_type

definition LENGTH_MIN :: nat where "LENGTH_MIN = 3"
definition LENGTH_MAX :: nat where "LENGTH_MAX = 66"
definition OFFSET_MASK :: nat where "OFFSET_MASK = 1023"
definition TABLE_LENGTH :: nat where "TABLE_LENGTH = 1024"

lemmas lz_consts = LENGTH_MIN_def LENGTH_MAX_def OFFSET_MASK_def TABLE_LENGTH_def

definition index_set :: "'a list \<Rightarrow> nat \<Rightarrow> 'a \<Rightarrow> ('e, 'a list) result" where
  "index_set xs i v = (if i < length xs then Ok (xs[i := v]) else Panic)"

record lz_enc =
  le_src_idx :: nat
  le_dst_idx :: nat
  le_mask :: u8
  le_map_idx :: nat
  le_dst :: bytes
  le_table :: "u16 list"

text \<open>Advance the copy mask; every eight items a new copy map is reserved.\<close>

definition lz_enc_group :: "lz_enc \<Rightarrow> (compression_error, lz_enc) result" where
  "lz_enc_group s =
     (let copy_mask = push_bit 1 (le_mask s) in
      if copy_mask = 0 then
        if length (le_dst s) - le_dst_idx s < 1 + 8 * 2 then Err NotCompressable
        else and_then (index_set (le_dst s) (le_dst_idx s) 0) (\<lambda>dst.
          Ok (s\<lparr>le_mask := 1, le_map_idx := le_dst_idx s, le_dst := dst, le_dst_idx := le_dst_idx s + 1\<rparr>))
      else Ok (s\<lparr>le_mask := copy_mask\<rparr>))"

definition lz_enc_literal :: "bytes \<Rightarrow> lz_enc \<Rightarrow> (compression_error, lz_enc) result" where
  "lz_enc_literal src s =
     and_then (index_set (le_dst s) (le_dst_idx s) (src ! le_src_idx s)) (\<lambda>dst.
     Ok (s\<lparr>le_dst := dst, le_dst_idx := le_dst_idx s + 1, le_src_idx := le_src_idx s + 1\<rparr>))"

function lz_match_len :: "bytes \<Rightarrow> nat \<Rightarrow> nat \<Rightarrow> nat \<Rightarrow> nat" where
  "lz_match_len src src_idx cpy_idx len =
     (if len < LENGTH_MAX \<and> src ! (src_idx + len) = src ! (cpy_idx + len)
      then lz_match_len src src_idx cpy_idx (len + 1) else len)"
  by pat_completeness auto
termination by (relation "measure (\<lambda>(_, _, _, len). LENGTH_MAX - len)") auto

declare lz_match_len.simps [simp del]

definition lz_enc_copy :: "bytes \<Rightarrow> nat \<Rightarrow> nat \<Rightarrow> lz_enc \<Rightarrow> (compression_error, lz_enc) result" where
  "lz_enc_copy src old_offset cpy_idx s =
     and_then (index_set (le_dst s) (le_map_idx s) (le_dst s ! le_map_idx s OR le_mask s)) (\<lambda>dst.
     let len = lz_match_len src (le_src_idx s) cpy_idx LENGTH_MIN;
         length_offset = of_nat (push_bit 10 (len - LENGTH_MIN) OR old_offset) :: u16 in
     if le_dst_idx s + 2 \<le> length dst
     then Ok (s\<lparr>le_dst := overwrite dst (le_dst_idx s) (be_bytes 2 length_offset),
                le_dst_idx := le_dst_idx s + 2, le_src_idx := le_src_idx s + len\<rparr>)
     else Panic)"

definition lz_enc_match :: "(u8 \<Rightarrow> u8 \<Rightarrow> u8 \<Rightarrow> nat) \<Rightarrow> bytes \<Rightarrow> lz_enc \<Rightarrow> (compression_error, lz_enc) result" where
  "lz_enc_match hash src s =
     (let src_idx = le_src_idx s;
          h = hash (src ! src_idx) (src ! (src_idx + 1)) (src ! (src_idx + 2));
          cpy_idx_modulo = unat (le_table s ! h) in
      if src_idx < cpy_idx_modulo then Panic
      else
        let old_offset = (src_idx - cpy_idx_modulo) AND OFFSET_MASK;
            s = s\<lparr>le_table := (le_table s)[h := of_nat src_idx]\<rparr>;
            cpy_idx = src_idx - old_offset in
        if cpy_idx \<noteq> src_idx \<and> src ! src_idx = src ! cpy_idx \<and> src ! (src_idx + 1) = src ! (cpy_idx + 1)
          \<and> src ! (src_idx + 2) = src ! (cpy_idx + 2)
        then lz_enc_copy src old_offset cpy_idx s
        else lz_enc_literal src s)"

definition lz_enc_step :: "(u8 \<Rightarrow> u8 \<Rightarrow> u8 \<Rightarrow> nat) \<Rightarrow> bytes \<Rightarrow> lz_enc \<Rightarrow> (compression_error, lz_enc) result" where
  "lz_enc_step hash src s =
     and_then (lz_enc_group s) (\<lambda>s.
     if length src - le_src_idx s < LENGTH_MAX then lz_enc_literal src s else lz_enc_match hash src s)"

lemma lz_match_len_bounds:
  "len \<le> LENGTH_MAX \<Longrightarrow> len \<le> lz_match_len src i c len \<and> lz_match_len src i c len \<le> LENGTH_MAX \<and>
   (\<forall>j. len \<le> j \<and> j < lz_match_len src i c len \<longrightarrow> src ! (i + j) = src ! (c + j))"
proof (induction src i c len rule: lz_match_len.induct)
  case (1 src i c len)
  show ?case
  proof (cases "len < LENGTH_MAX \<and> src ! (i + len) = src ! (c + len)")
    case True
    then have eq: "lz_match_len src i c len = lz_match_len src i c (len + 1)"
      by (simp add: lz_match_len.simps[of src i c len])
    from True "1.IH"[OF True] have ih: "len + 1 \<le> lz_match_len src i c (len + 1)"
      "lz_match_len src i c (len + 1) \<le> LENGTH_MAX"
      "\<forall>j. len + 1 \<le> j \<and> j < lz_match_len src i c (len + 1) \<longrightarrow> src ! (i + j) = src ! (c + j)" by simp_all
    have "src ! (i + j) = src ! (c + j)" if "len \<le> j" "j < lz_match_len src i c (len + 1)" for j
      using that ih(3) True by (cases "j = len") auto
    then show ?thesis using ih(1,2) unfolding eq by auto
  next
    case False
    then show ?thesis using 1(2) lz_match_len.simps[of src i c len] by auto
  qed
qed

lemma lz_enc_group_src: "lz_enc_group s = Ok s' \<Longrightarrow> le_src_idx s' = le_src_idx s"
  by (auto simp: lz_enc_group_def Let_def and_then_Ok_iff split: if_splits)

lemma lz_enc_step_progress:
  assumes "lz_enc_step hash src s = Ok s'"
  shows "le_src_idx s < le_src_idx s'"
proof -
  have "lz_match_len src i c LENGTH_MIN > 0" for i c
    using lz_match_len_bounds[of LENGTH_MIN src i c] by (simp add: lz_consts)
  then show ?thesis using assms
    by (auto simp: lz_enc_step_def lz_enc_literal_def lz_enc_match_def lz_enc_copy_def Let_def and_then_Ok_iff
        dest!: lz_enc_group_src split: if_splits)
qed

function lz_enc_loop :: "(u8 \<Rightarrow> u8 \<Rightarrow> u8 \<Rightarrow> nat) \<Rightarrow> bytes \<Rightarrow> lz_enc \<Rightarrow> (compression_error, lz_enc) result" where
  "lz_enc_loop hash src s =
     (if le_src_idx s < length src then
        (case lz_enc_step hash src s of
           Ok s' \<Rightarrow> lz_enc_loop hash src s' | Err e \<Rightarrow> Err e | Panic \<Rightarrow> Panic)
      else Ok s)"
  by pat_completeness auto
termination
  by (relation "measure (\<lambda>(_, src, s). length src - le_src_idx s)")
    (auto dest: lz_enc_step_progress)

declare lz_enc_loop.simps [simp del]

definition lz_enc_start :: "u16 list \<Rightarrow> bytes \<Rightarrow> lz_enc" where
  "lz_enc_start table dst =
     \<lparr>le_src_idx = 0, le_dst_idx = 0, le_mask = 0, le_map_idx = 0, le_dst = dst, le_table = table\<rparr>"

text \<open>\<open>LzjbEncoder::new\<close>, and the two entry points: the count of bytes written, the destination, the table.\<close>

definition lzjb_new :: "u16 list" where
  "lzjb_new = replicate TABLE_LENGTH 0"

definition hash_pre_v21 :: "u8 \<Rightarrow> u8 \<Rightarrow> u8 \<Rightarrow> nat" where
  "hash_pre_v21 a b c = unat ((a + 13) XOR (b - 13) XOR c)"

definition lzjb_compress_pre_v21 :: "u16 list \<Rightarrow> bytes \<Rightarrow> bytes \<Rightarrow> (compression_error, nat \<times> bytes \<times> u16 list) result" where
  "lzjb_compress_pre_v21 table dst src =
     and_then (lz_enc_loop hash_pre_v21 src (lz_enc_start (replicate 256 0 @ drop 256 table) dst)) (\<lambda>s.
     Ok (le_dst_idx s, le_dst s, le_table s))"

definition hash_v21 :: "u8 \<Rightarrow> u8 \<Rightarrow> u8 \<Rightarrow> nat" where
  "hash_v21 a b c =
     (let hash = push_bit 16 (ucast a :: u32) OR push_bit 8 (ucast b) OR ucast c;
          hash = hash + drop_bit 9 hash;
          hash = hash + drop_bit 5 hash in
      unat hash mod TABLE_LENGTH)"

definition lzjb_compress :: "u16 list \<Rightarrow> bytes \<Rightarrow> bytes \<Rightarrow> (compression_error, nat \<times> bytes \<times> u16 list) result" where
  "lzjb_compress table dst src =
     and_then (lz_enc_loop hash_v21 src (lz_enc_start (replicate (length table) 0) dst)) (\<lambda>s.
     Ok (le_dst_idx s, le_dst s, le_table s))"

section \<open>Decoder\<close>

datatype decompression_error =
    EndOfInput nat nat nat  \<comment> \<open>offset, capacity, count\<close>
  | InvalidInput nat
  | DecompressionUnsupported compression_type

record lz_dec =
  ld_src_idx :: nat
  ld_dst_idx :: nat
  ld_mask :: u8
  ld_map :: u8
  ld_dst :: bytes

definition lz_dec_group :: "bytes \<Rightarrow> lz_dec \<Rightarrow> (decompression_error, lz_dec) result" where
  "lz_dec_group src s =
     (let copy_mask = push_bit 1 (ld_mask s) in
      if copy_mask = 0 then
        (case index_get src (ld_src_idx s) of
           None \<Rightarrow> Err (EndOfInput (ld_src_idx s) (length src) 1)
         | Some v \<Rightarrow> Ok (s\<lparr>ld_mask := 1, ld_map := v, ld_src_idx := ld_src_idx s + 1\<rparr>))
      else Ok (s\<lparr>ld_mask := copy_mask\<rparr>))"

fun lz_copy :: "nat \<Rightarrow> nat \<Rightarrow> nat \<Rightarrow> bytes \<Rightarrow> bytes" where
  "lz_copy 0 dst_idx cpy_idx dst = dst"
| "lz_copy (Suc n) dst_idx cpy_idx dst = lz_copy n (dst_idx + 1) (cpy_idx + 1) (dst[dst_idx := dst ! cpy_idx])"

definition lz_dec_match :: "bytes \<Rightarrow> lz_dec \<Rightarrow> (decompression_error, lz_dec) result" where
  "lz_dec_match src s =
     (if length src - ld_src_idx s < 2 then Err (EndOfInput (ld_src_idx s) (length src) 2)
      else
        let length_offset = be_word (take 2 (drop (ld_src_idx s) src)) :: u16;
            src_idx = ld_src_idx s + 2;
            len = unat (drop_bit 10 length_offset) + LENGTH_MIN;
            offset = unat (length_offset AND of_nat OFFSET_MASK) in
        if ld_dst_idx s < offset then Err (InvalidInput (src_idx - 2))
        else
          let cpy_idx = ld_dst_idx s - offset;
              len = min len (length (ld_dst s) - ld_dst_idx s) in
          Ok (s\<lparr>ld_src_idx := src_idx, ld_dst := lz_copy len (ld_dst_idx s) cpy_idx (ld_dst s),
                ld_dst_idx := ld_dst_idx s + len\<rparr>))"

definition lz_dec_literal :: "bytes \<Rightarrow> lz_dec \<Rightarrow> (decompression_error, lz_dec) result" where
  "lz_dec_literal src s =
     (case index_get src (ld_src_idx s) of
        None \<Rightarrow> Err (EndOfInput (ld_src_idx s) (length src) 1)
      | Some v \<Rightarrow> Ok (s\<lparr>ld_dst := (ld_dst s)[ld_dst_idx s := v], ld_dst_idx := ld_dst_idx s + 1,
                       ld_src_idx := ld_src_idx s + 1\<rparr>))"

definition lz_dec_step :: "bytes \<Rightarrow> lz_dec \<Rightarrow> (decompression_error, lz_dec) result" where
  "lz_dec_step src s =
     and_then (lz_dec_group src s) (\<lambda>s.
     if ld_map s AND ld_mask s \<noteq> 0 then lz_dec_match src s else lz_dec_literal src s)"

lemma length_lz_copy [simp]: "length (lz_copy n d c dst) = length dst"
  by (induction n arbitrary: d c dst) simp_all

lemma lz_dec_group_dst: "lz_dec_group src s = Ok s' \<Longrightarrow> ld_dst_idx s' = ld_dst_idx s \<and> ld_dst s' = ld_dst s"
  by (auto simp: lz_dec_group_def Let_def split: if_splits option.splits)

lemma lz_dec_step_progress:
  assumes "lz_dec_step src s = Ok s'" "ld_dst_idx s < length (ld_dst s)"
  shows "ld_dst_idx s < ld_dst_idx s'" "length (ld_dst s') = length (ld_dst s)"
proof -
  obtain s0 where s0: "lz_dec_group src s = Ok s0" "ld_dst_idx s0 = ld_dst_idx s" "ld_dst s0 = ld_dst s"
    and m: "(if ld_map s0 AND ld_mask s0 \<noteq> 0 then lz_dec_match src s0 else lz_dec_literal src s0) = Ok s'"
    using assms(1) lz_dec_group_dst by (auto simp: lz_dec_step_def and_then_Ok_iff)
  show "ld_dst_idx s < ld_dst_idx s'" "length (ld_dst s') = length (ld_dst s)"
    using m s0(2,3) assms(2)
    by (auto simp: lz_dec_match_def lz_dec_literal_def Let_def lz_consts split: if_splits option.splits)
qed

function lz_dec_loop :: "bytes \<Rightarrow> lz_dec \<Rightarrow> (decompression_error, lz_dec) result" where
  "lz_dec_loop src s =
     (if ld_dst_idx s < length (ld_dst s) then
        (case lz_dec_step src s of Ok s' \<Rightarrow> lz_dec_loop src s' | Err e \<Rightarrow> Err e | Panic \<Rightarrow> Panic)
      else Ok s)"
  by pat_completeness auto
termination
proof (relation "measure (\<lambda>(src, s). length (ld_dst s) - ld_dst_idx s)")
  fix src s s'
  assume "ld_dst_idx s < length (ld_dst s)" "lz_dec_step src s = Ok s'"
  then show "((src, s'), (src, s)) \<in> measure (\<lambda>(src, s). length (ld_dst s) - ld_dst_idx s)"
    using lz_dec_step_progress[of src s s'] by simp
qed simp

declare lz_dec_loop.simps [simp del]

definition lzjb_decompress :: "bytes \<Rightarrow> bytes \<Rightarrow> (decompression_error, bytes) result" where
  "lzjb_decompress dst src =
     and_then (lz_dec_loop src \<lparr>ld_src_idx = 0, ld_dst_idx = 0, ld_mask = 0, ld_map = 0, ld_dst = dst\<rparr>) (\<lambda>s.
     Ok (ld_dst s))"

end
