(* ===== verification/Lzjb_Roundtrip.thy ===== *)
theory Lzjb_Roundtrip
  imports Lzjb
begin

text \<open>
  The LZJB encoder never panics, and the decoder restores what the encoder compressed. The
  encoder sets bits of a copy map after it has reserved the byte, so the simulation speaks of the
  final output: a bit is settled once no later step can change it.
\<close>

section \<open>The encoder\<close>

lemma bit_mask_byte: "bit (2 ^ k :: u8) j \<longleftrightarrow> j = k \<and> k < 8"
  by (auto simp: bit_simps)

lemma push_mask_byte: "k < 8 \<Longrightarrow> push_bit 1 (2 ^ k :: u8) = (if k = 7 then 0 else 2 ^ (k + 1))"
  by (cases "k = 7") (simp_all add: push_bit_eq_mult)

lemma mask_byte_inject: "k < 8 \<Longrightarrow> (2 ^ k :: u8) = 2 ^ j \<Longrightarrow> j = k"
  by (metis bit_mask_byte)

lemma mask_byte_nonzero: "k < 8 \<Longrightarrow> (2 ^ k :: u8) \<noteq> 0"
  by (metis bit_0_eq bit_mask_byte bot_apply bot_bool_def)

text \<open>The state after the copy mask has been advanced: the item at bit \<open>k\<close> is next.\<close>

definition lz_ready :: "nat \<Rightarrow> lz_enc \<Rightarrow> bool" where
  "lz_ready k s \<longleftrightarrow> k < 8 \<and> le_mask s = 2 ^ k \<and> le_map_idx s < le_dst_idx s \<and>
     (\<forall>j\<ge>k. \<not> bit (le_dst s ! le_map_idx s) j) \<and> le_dst_idx s + 2 * (8 - k) \<le> length (le_dst s)"

text \<open>The state between items: the item at bit \<open>k\<close> is done.\<close>

definition lz_done :: "nat \<Rightarrow> lz_enc \<Rightarrow> bool" where
  "lz_done k s \<longleftrightarrow> k < 8 \<and> le_mask s = 2 ^ k \<and> le_map_idx s < le_dst_idx s \<and>
     (\<forall>j>k. \<not> bit (le_dst s ! le_map_idx s) j) \<and> le_dst_idx s + 2 * (7 - k) \<le> length (le_dst s)"

text \<open>Every table entry a hash can reach is an earlier position.\<close>

definition tab_le :: "(u8 \<Rightarrow> u8 \<Rightarrow> u8 \<Rightarrow> nat) \<Rightarrow> u16 list \<Rightarrow> nat \<Rightarrow> bool" where
  "tab_le hash table n \<longleftrightarrow> (\<forall>a b c. unat (table ! hash a b c) \<le> n)"

lemma tab_le_mono: "tab_le hash table n \<Longrightarrow> n \<le> m \<Longrightarrow> tab_le hash table m"
  using order_trans unfolding tab_le_def by blast

definition lz_wf :: "(u8 \<Rightarrow> u8 \<Rightarrow> u8 \<Rightarrow> nat) \<Rightarrow> lz_enc \<Rightarrow> bool" where
  "lz_wf hash s \<longleftrightarrow> (le_mask s = 0 \<and> le_dst_idx s = 0 \<or> (\<exists>k. lz_done k s)) \<and>
     length (le_table s) = TABLE_LENGTH \<and> tab_le hash (le_table s) (le_src_idx s)"

lemma lz_enc_group_wf:
  assumes "lz_wf hash s"
  shows "lz_enc_group s = Err NotCompressable \<or> (\<exists>k s'. lz_enc_group s = Ok s' \<and> lz_ready k s' \<and>
    le_src_idx s' = le_src_idx s \<and> le_table s' = le_table s)"
proof (cases "push_bit 1 (le_mask s) = 0")
  case True
  show ?thesis
  proof (cases "length (le_dst s) - le_dst_idx s < 17")
    case True
    then show ?thesis using \<open>push_bit 1 _ = 0\<close> by (simp add: lz_enc_group_def)
  next
    case False
    then have "lz_enc_group s = Ok (s\<lparr>le_mask := 1, le_map_idx := le_dst_idx s,
        le_dst := (le_dst s)[le_dst_idx s := 0], le_dst_idx := le_dst_idx s + 1\<rparr>)" (is "_ = Ok ?s")
      using True by (simp add: lz_enc_group_def index_set_def)
    moreover have "lz_ready 0 ?s" using False by (simp add: lz_ready_def)
    ultimately show ?thesis by auto
  qed
next
  case False
  then obtain k where k: "lz_done k s" using assms by (auto simp: lz_wf_def)
  then have "k < 8" "le_mask s = 2 ^ k" by (auto simp: lz_done_def)
  then have m: "push_bit 1 (le_mask s) = 2 ^ (k + 1)" "k < 7" using False push_mask_byte[of k] by (auto split: if_splits)
  have "lz_enc_group s = Ok (s\<lparr>le_mask := 2 ^ (k + 1)\<rparr>)" using False m by (simp add: lz_enc_group_def Let_def)
  moreover have "lz_ready (k + 1) (s\<lparr>le_mask := 2 ^ (k + 1)\<rparr>)"
    using k m(2) by (auto simp: lz_done_def lz_ready_def)
  ultimately show ?thesis by auto
qed

lemma lz_enc_literal_ready:
  assumes "lz_ready k s"
  shows "\<exists>s'. lz_enc_literal src s = Ok s' \<and> lz_done k s' \<and> le_table s' = le_table s \<and>
    s' = s\<lparr>le_dst := (le_dst s)[le_dst_idx s := src ! le_src_idx s], le_dst_idx := le_dst_idx s + 1,
      le_src_idx := le_src_idx s + 1\<rparr>"
  using assms by (auto simp: lz_enc_literal_def index_set_def lz_ready_def lz_done_def)

lemma length_be_bytes_2: "length (be_bytes 2 (w :: 'a::len word)) = 2"
  by (simp add: be_bytes_def)

lemma overwrite_nth_below: "i < n \<Longrightarrow> n \<le> length xs \<Longrightarrow> overwrite xs n ys ! i = xs ! i"
  by (simp add: overwrite_def nth_append)

definition lz_copied :: "bytes \<Rightarrow> nat \<Rightarrow> nat \<Rightarrow> lz_enc \<Rightarrow> lz_enc" where
  "lz_copied src old_offset cpy_idx s =
     (let len = lz_match_len src (le_src_idx s) cpy_idx LENGTH_MIN in
      s\<lparr>le_dst := overwrite ((le_dst s)[le_map_idx s := le_dst s ! le_map_idx s OR le_mask s]) (le_dst_idx s)
          (be_bytes 2 (of_nat (push_bit 10 (len - LENGTH_MIN) OR old_offset) :: u16)),
        le_dst_idx := le_dst_idx s + 2, le_src_idx := le_src_idx s + len\<rparr>)"

lemma lz_enc_copy_ready:
  assumes "lz_ready k s"
  shows "lz_enc_copy src old_offset cpy_idx s = Ok (lz_copied src old_offset cpy_idx s)"
    and "lz_done k (lz_copied src old_offset cpy_idx s)"
    and "le_table (lz_copied src old_offset cpy_idx s) = le_table s"
proof -
  have r: "k < 8" "le_mask s = 2 ^ k" "le_map_idx s < le_dst_idx s" "\<forall>j\<ge>k. \<not> bit (le_dst s ! le_map_idx s) j"
    "le_dst_idx s + 2 * (8 - k) \<le> length (le_dst s)" using assms by (auto simp: lz_ready_def)
  have room: "le_dst_idx s + 2 \<le> length (le_dst s)" using r(1,5) by simp
  show "lz_enc_copy src old_offset cpy_idx s = Ok (lz_copied src old_offset cpy_idx s)"
    using room r(3) by (simp add: lz_enc_copy_def lz_copied_def index_set_def Let_def)
  show "lz_done k (lz_copied src old_offset cpy_idx s)"
    using r room by (auto simp: lz_done_def lz_copied_def Let_def overwrite_nth_below length_overwrite
        length_be_bytes_2 bit_simps)
  show "le_table (lz_copied src old_offset cpy_idx s) = le_table s" by (simp add: lz_copied_def Let_def)
qed

text \<open>The two hashes stay inside the table.\<close>

definition hash_ok :: "(u8 \<Rightarrow> u8 \<Rightarrow> u8 \<Rightarrow> nat) \<Rightarrow> bool" where
  "hash_ok hash \<longleftrightarrow> (\<forall>a b c. hash a b c < TABLE_LENGTH)"

lemma hash_pre_v21_ok: "hash_ok hash_pre_v21"
proof -
  have "unat (w :: u8) < 1024" for w using unsigned_less[of w, where 'a = nat] by simp
  then show ?thesis by (simp add: hash_ok_def hash_pre_v21_def TABLE_LENGTH_def)
qed

lemma hash_v21_ok: "hash_ok hash_v21"
  by (simp add: hash_ok_def hash_v21_def TABLE_LENGTH_def Let_def)

text \<open>
  The effect of one step on a well-formed state: no room, a literal, or a copy of at least three
  bytes from an earlier position.
\<close>

definition lz_match_ok :: "bytes \<Rightarrow> lz_enc \<Rightarrow> nat \<Rightarrow> bool" where
  "lz_match_ok src s old_offset \<longleftrightarrow> 0 < old_offset \<and> old_offset \<le> le_src_idx s \<and> old_offset \<le> OFFSET_MASK \<and>
     le_src_idx s + LENGTH_MAX \<le> length src \<and>
     (\<forall>j<LENGTH_MIN. src ! (le_src_idx s + j) = src ! (le_src_idx s - old_offset + j))"

lemma offset_mask_mod: "n AND OFFSET_MASK = n mod 1024" for n :: nat
proof -
  have "OFFSET_MASK = mask 10" by (simp add: OFFSET_MASK_def mask_eq_exp_minus_1)
  then have "n AND OFFSET_MASK = take_bit 10 n" by (simp only: take_bit_eq_mask)
  then show ?thesis by (simp add: take_bit_eq_mod)
qed

lemma offset_mask_le: "n AND OFFSET_MASK \<le> n" "n AND OFFSET_MASK \<le> OFFSET_MASK" for n :: nat
proof -
  have "n mod 1024 < 1024" by simp
  then show "n AND OFFSET_MASK \<le> OFFSET_MASK" unfolding offset_mask_mod unfolding OFFSET_MASK_def by linarith
qed (simp add: offset_mask_mod)

lemma lz_enc_step_cases:
  assumes "lz_wf hash s" "hash_ok hash" "le_src_idx s < length src"
  obtains "lz_enc_step hash src s = Err NotCompressable"
  | k s0 table where "lz_enc_group s = Ok s0" "lz_ready k s0" "le_src_idx s0 = le_src_idx s"
      "lz_enc_step hash src s = Ok (s0\<lparr>le_table := table, le_dst := (le_dst s0)[le_dst_idx s0 := src ! le_src_idx s0],
         le_dst_idx := le_dst_idx s0 + 1, le_src_idx := le_src_idx s0 + 1\<rparr>)"
      "length table = TABLE_LENGTH" "tab_le hash table (le_src_idx s)"
  | k s0 table old_offset where "lz_enc_group s = Ok s0" "lz_ready k s0" "le_src_idx s0 = le_src_idx s"
      "lz_match_ok src s0 old_offset"
      "lz_enc_step hash src s =
         Ok (lz_copied src old_offset (le_src_idx s0 - old_offset) (s0\<lparr>le_table := table\<rparr>))"
      "length table = TABLE_LENGTH" "tab_le hash table (le_src_idx s)"
proof -
  consider "lz_enc_group s = Err NotCompressable" | k s0 where "lz_enc_group s = Ok s0" "lz_ready k s0"
    "le_src_idx s0 = le_src_idx s" "le_table s0 = le_table s" using lz_enc_group_wf[OF assms(1)] by blast
  then show thesis
  proof cases
    case 1
    then show thesis using that(1) by (simp add: lz_enc_step_def)
  next
    case (2 k s0)
    have tab: "length (le_table s) = TABLE_LENGTH" "tab_le hash (le_table s) (le_src_idx s)"
      using assms(1) by (simp_all add: lz_wf_def)
    have lit: "lz_enc_literal src (s0\<lparr>le_table := table\<rparr>) = Ok (s0\<lparr>le_table := table,
        le_dst := (le_dst s0)[le_dst_idx s0 := src ! le_src_idx s0],
        le_dst_idx := le_dst_idx s0 + 1, le_src_idx := le_src_idx s0 + 1\<rparr>)" for table
    proof -
      have "lz_ready k (s0\<lparr>le_table := table\<rparr>)" using 2(2) by (simp add: lz_ready_def)
      from lz_enc_literal_ready[OF this, of src] show ?thesis by auto
    qed
    show thesis
    proof (cases "length src - le_src_idx s0 < LENGTH_MAX")
      case True
      have "lz_enc_literal src s0 = lz_enc_literal src (s0\<lparr>le_table := le_table s0\<rparr>)" by simp
      then have "lz_enc_step hash src s = lz_enc_literal src (s0\<lparr>le_table := le_table s0\<rparr>)"
        using True 2(1) by (simp add: lz_enc_step_def)
      then show thesis using that(2)[OF 2(1-3), of "le_table s0"] lit tab 2(4) by simp
    next
      case False
      let ?i = "le_src_idx s0"
      let ?h = "hash (src ! ?i) (src ! (?i + 1)) (src ! (?i + 2))"
      let ?o = "(?i - unat (le_table s0 ! ?h)) AND OFFSET_MASK"
      let ?t = "(le_table s0)[?h := of_nat ?i]"
      have h: "?h < length (le_table s0)" using assms(2) tab(1) 2(4) by (simp add: hash_ok_def)
      then have le: "unat (le_table s0 ! ?h) \<le> ?i" using tab(2) 2(3,4) by (simp add: tab_le_def)
      have t: "length ?t = TABLE_LENGTH" "tab_le hash ?t (le_src_idx s)"
      proof -
        have "unat (of_nat ?i :: u16) \<le> ?i" by (simp add: unat_of_nat)
        then show "tab_le hash ?t (le_src_idx s)"
          using tab 2(3,4) assms(2) by (auto simp: tab_le_def nth_list_update hash_ok_def)
      qed (use tab 2 in simp)
      have o: "?o \<le> ?i" "?o \<le> OFFSET_MASK"
        using offset_mask_le[of "?i - unat (le_table s0 ! ?h)"] by auto
      let ?c = "?i - ?o"
      let ?C = "?c \<noteq> ?i \<and> src ! ?i = src ! ?c \<and> src ! (?i + 1) = src ! (?c + 1) \<and> src ! (?i + 2) = src ! (?c + 2)"
      have step: "lz_enc_step hash src s = (if ?C then lz_enc_copy src ?o ?c (s0\<lparr>le_table := ?t\<rparr>)
          else lz_enc_literal src (s0\<lparr>le_table := ?t\<rparr>))"
        using False 2(1) le by (simp add: lz_enc_step_def lz_enc_match_def Let_def)
      show thesis
      proof (cases ?C)
        case True
        have r: "lz_ready k (s0\<lparr>le_table := ?t\<rparr>)" using 2(2) by (simp add: lz_ready_def)
        have "lz_enc_step hash src s = lz_enc_copy src ?o ?c (s0\<lparr>le_table := ?t\<rparr>)"
          unfolding step by (rule if_P[OF True])
        moreover have "src ! (?i + j) = src ! (?c + j)" if "j < 3" for j
          using True that by (cases j rule: nat.exhaust, simp, rename_tac j', case_tac j') (auto simp: numeral_3_eq_3 less_Suc_eq)
        then have "lz_match_ok src s0 ?o"
          using o True False assms(3) 2(3) by (auto simp: lz_match_ok_def LENGTH_MIN_def)
        ultimately show thesis
          using that(3)[OF 2(1-3) _ _ t] lz_enc_copy_ready(1)[OF r] by simp
      next
        case F: False
        then have "lz_enc_step hash src s = lz_enc_literal src (s0\<lparr>le_table := ?t\<rparr>)"
          unfolding step by (rule if_not_P)
        then show thesis using that(2)[OF 2(1-3) _ t] lit by simp
      qed
    qed
  qed
qed

lemma lz_enc_step_wf:
  assumes "lz_wf hash s" "hash_ok hash" "le_src_idx s < length src"
  shows "lz_enc_step hash src s \<noteq> Panic" "lz_enc_step hash src s = Ok s' \<Longrightarrow> lz_wf hash s'"
proof -
  have "lz_enc_step hash src s \<noteq> Panic \<and> (lz_enc_step hash src s = Ok s' \<longrightarrow> lz_wf hash s')"
    using assms
  proof (cases rule: lz_enc_step_cases)
    case (2 k s0 table)
    have le: "tab_le hash table (Suc (le_src_idx s))" using tab_le_mono[OF 2(6)] by simp
    have "lz_ready k (s0\<lparr>le_table := table\<rparr>)" using 2(2) by (simp add: lz_ready_def)
    from lz_enc_literal_ready[OF this, of src] 2(1-5) le show ?thesis by (auto simp: lz_wf_def)
  next
    case (3 k s0 table old_offset)
    have r: "lz_ready k (s0\<lparr>le_table := table\<rparr>)" using 3(2) by (simp add: lz_ready_def)
    have "le_src_idx s \<le> le_src_idx (lz_copied src old_offset c (s0\<lparr>le_table := table\<rparr>))" for c
      using 3(3) by (simp add: lz_copied_def Let_def)
    with lz_enc_copy_ready(2,3)[OF r, of src old_offset "le_src_idx s0 - old_offset"] 3 show ?thesis
      by (auto simp: lz_wf_def intro: tab_le_mono)
  qed simp
  then show "lz_enc_step hash src s \<noteq> Panic" "lz_enc_step hash src s = Ok s' \<Longrightarrow> lz_wf hash s'" by simp_all
qed

lemma lz_enc_loop_safe: "lz_wf hash s \<Longrightarrow> hash_ok hash \<Longrightarrow> lz_enc_loop hash src s \<noteq> Panic"
proof (induction hash src s rule: lz_enc_loop.induct)
  case (1 hash src s)
  show ?case
  proof (cases "le_src_idx s < length src")
    case True
    then show ?thesis using 1 lz_enc_step_wf[OF "1.prems" True]
      by (subst lz_enc_loop.simps) (auto split: result.split)
  qed (simp add: lz_enc_loop.simps)
qed

section \<open>Settled bits\<close>

definition settled :: "lz_enc \<Rightarrow> nat \<Rightarrow> nat \<Rightarrow> bool" where
  "settled s i j \<longleftrightarrow> i < le_dst_idx s \<and> (i = le_map_idx s \<longrightarrow> (\<exists>k<8. le_mask s = 2 ^ k \<and> j \<le> k))"

lemma lz_enc_group_settled:
  assumes "lz_enc_group s = Ok s0" "lz_ready k s0" "settled s i j"
  shows "i < le_dst_idx s0" "i = le_map_idx s0 \<Longrightarrow> j < k" "le_dst s0 ! i = le_dst s ! i"
    "length (le_dst s0) = length (le_dst s)"
proof -
  have "i < le_dst_idx s0 \<and> (i = le_map_idx s0 \<longrightarrow> j < k) \<and> le_dst s0 ! i = le_dst s ! i \<and>
    length (le_dst s0) = length (le_dst s)"
  proof (cases "push_bit 1 (le_mask s) = 0")
    case True
    then show ?thesis using assms
      by (auto simp: lz_enc_group_def settled_def index_set_def and_then_Ok_iff split: if_splits)
  next
    case False
    then have s0: "s0 = s\<lparr>le_mask := push_bit 1 (le_mask s)\<rparr>" using assms(1) by (simp add: lz_enc_group_def Let_def)
    have "j < k" if map: "i = le_map_idx s"
    proof -
      obtain k' where k': "k' < 8" "le_mask s = 2 ^ k'" "j \<le> k'" using assms(3) map by (auto simp: settled_def)
      then have "(2 ^ (k' + 1) :: u8) = 2 ^ k" "k' < 7" "k < 8"
        using False assms(2) push_mask_byte[OF k'(1)] by (auto simp: s0 lz_ready_def split: if_splits)
      then have "k = k' + 1" using mask_byte_inject[of "k' + 1" k] by simp
      then show ?thesis using k'(3) by simp
    qed
    then show ?thesis using assms(3) by (auto simp: s0 settled_def)
  qed
  then show "i < le_dst_idx s0" "i = le_map_idx s0 \<Longrightarrow> j < k" "le_dst s0 ! i = le_dst s ! i"
    "length (le_dst s0) = length (le_dst s)" by simp_all
qed

lemma lz_copied_nth:
  assumes "lz_ready k s0" "i < le_dst_idx s0"
  shows "le_dst (lz_copied src off c (s0\<lparr>le_table := t\<rparr>)) ! i =
    (if i = le_map_idx s0 then le_dst s0 ! i OR 2 ^ k else le_dst s0 ! i)"
  using assms by (auto simp: lz_copied_def Let_def overwrite_nth_below lz_ready_def)

lemma lz_enc_step_settled:
  assumes "lz_wf hash s" "hash_ok hash" "le_src_idx s < length src" "lz_enc_step hash src s = Ok s'" "settled s i j"
  shows "settled s' i j" "bit (le_dst s' ! i) j = bit (le_dst s ! i) j"
proof -
  have "settled s' i j \<and> bit (le_dst s' ! i) j = bit (le_dst s ! i) j"
    using assms(1-3)
  proof (cases rule: lz_enc_step_cases)
    case 1
    then show ?thesis using assms(4) by simp
  next
    case (2 k s0 table)
    note g = lz_enc_group_settled[OF 2(1,2) assms(5)]
    have "k < 8" "le_mask s0 = 2 ^ k" using 2(2) by (simp_all add: lz_ready_def)
    then show ?thesis using 2(4) assms(4) g by (auto simp: settled_def intro: less_imp_le)
  next
    case (3 k s0 table off)
    note g = lz_enc_group_settled[OF 3(1,2) assms(5)]
    have "k < 8" "le_mask s0 = 2 ^ k" using 3(2) by (simp_all add: lz_ready_def)
    then show ?thesis using 3(5) assms(4) g lz_copied_nth[OF 3(2) g(1)]
      by (auto simp: settled_def bit_simps lz_copied_def Let_def intro: less_imp_le)
  qed
  then show "settled s' i j" "bit (le_dst s' ! i) j = bit (le_dst s ! i) j" by simp_all
qed

lemma lz_enc_step_length:
  assumes "lz_wf hash s" "hash_ok hash" "le_src_idx s < length src" "lz_enc_step hash src s = Ok s'"
  shows "length (le_dst s') = length (le_dst s)" "le_dst_idx s' \<le> length (le_dst s')"
    "le_dst_idx s \<le> le_dst_idx s'" "le_src_idx s' \<le> length src"
proof -
  have "length (le_dst s') = length (le_dst s) \<and> le_dst_idx s \<le> le_dst_idx s' \<and> le_src_idx s' \<le> length src"
    using assms(1-3)
  proof (cases rule: lz_enc_step_cases)
    case 1
    then show ?thesis using assms(4) by simp
  next
    case (2 k s0 table)
    have "length (le_dst s0) = length (le_dst s)" "le_dst_idx s \<le> le_dst_idx s0"
      using 2(1) by (auto simp: lz_enc_group_def Let_def index_set_def and_then_Ok_iff split: if_splits)
    then show ?thesis using 2 assms(3,4) by auto
  next
    case (3 k s0 table off)
    have g: "length (le_dst s0) = length (le_dst s)" "le_dst_idx s \<le> le_dst_idx s0"
      using 3(1) by (auto simp: lz_enc_group_def Let_def index_set_def and_then_Ok_iff split: if_splits)
    have "le_dst_idx s0 + 2 \<le> length (le_dst s0)" using 3(2) by (auto simp: lz_ready_def)
    then have "length (le_dst s') = length (le_dst s0)" "le_dst_idx s0 \<le> le_dst_idx s'"
      using 3(5) assms(4) by (auto simp: lz_copied_def Let_def length_overwrite length_be_bytes_2)
    moreover have "le_src_idx s' \<le> length src"
      using 3(4,5) assms(4) lz_match_len_bounds[of LENGTH_MIN src "le_src_idx s0" "le_src_idx s0 - off"]
      by (auto simp: lz_copied_def Let_def lz_match_ok_def lz_consts)
    ultimately show ?thesis using g by simp
  qed
  moreover have "le_dst_idx s' \<le> length (le_dst s')"
    using lz_enc_step_wf(2)[OF assms] by (auto simp: lz_wf_def lz_done_def)
  ultimately show "length (le_dst s') = length (le_dst s)" "le_dst_idx s' \<le> length (le_dst s')"
    "le_dst_idx s \<le> le_dst_idx s'" "le_src_idx s' \<le> length src" by simp_all
qed

lemma lz_enc_loop_final:
  assumes "lz_enc_loop hash src s = Ok s'" "lz_wf hash s" "hash_ok hash" "le_dst_idx s \<le> length (le_dst s)"
  shows "length (le_dst s') = length (le_dst s) \<and> le_dst_idx s' \<le> length (le_dst s') \<and> le_dst_idx s \<le> le_dst_idx s' \<and>
    (\<forall>i j. settled s i j \<longrightarrow> bit (le_dst s' ! i) j = bit (le_dst s ! i) j)"
  using assms
proof (induction hash src s rule: lz_enc_loop.induct)
  case (1 hash src s)
  show ?case
  proof (cases "le_src_idx s < length src")
    case True
    then obtain s1 where s1: "lz_enc_step hash src s = Ok s1" "lz_enc_loop hash src s1 = Ok s'"
      using "1.prems"(1) by (subst (asm) lz_enc_loop.simps) (auto split: result.splits)
    note len = lz_enc_step_length[OF "1.prems"(2,3) True s1(1)]
    from "1.IH"[OF True s1(1) s1(2) lz_enc_step_wf(2)[OF "1.prems"(2,3) True s1(1)] "1.prems"(3) len(2)]
    show ?thesis using len lz_enc_step_settled[OF "1.prems"(2,3) True s1(1)] by auto
  next
    case False
    then show ?thesis using "1.prems" by (simp add: lz_enc_loop.simps)
  qed
qed

section \<open>Simulation\<close>

lemma lz_copy_ok:
  assumes "take d dst = take d src" "d + n \<le> length src" "length dst = length src" "c < d"
    "\<forall>j<n. src ! (d + j) = src ! (c + j)"
  shows "take (d + n) (lz_copy n d c dst) = take (d + n) src"
  using assms
proof (induction n arbitrary: d c dst)
  case (Suc n)
  let ?dst = "dst[d := dst ! c]"
  have "dst ! c = src ! c" using Suc.prems(1,4) by (metis nth_take)
  then have "dst ! c = src ! d" using Suc.prems(5) by (metis add_0_right zero_less_Suc)
  then have "take (d + 1) ?dst = take (d + 1) src"
    using Suc.prems(1-3) by (simp add: take_Suc_conv_app_nth)
  moreover have "\<forall>j<n. src ! (d + 1 + j) = src ! (c + 1 + j)"
    using Suc.prems(5) by (metis Suc_less_eq add.assoc plus_1_eq_Suc)
  ultimately show ?case using Suc.IH[of "d + 1" ?dst "c + 1"] Suc.prems by simp
qed simp

lemma length_offset_fields:
  assumes "l \<le> 63" "off \<le> OFFSET_MASK"
  defines "w \<equiv> of_nat (push_bit 10 l OR off) :: u16"
  shows "unat (drop_bit 10 w) = l" "unat (w AND of_nat OFFSET_MASK) = off"
proof -
  have l: "take_bit 6 l = l" using assms(1) by (simp add: take_bit_nat_eq_self_iff)
  have o: "take_bit 10 off = off" using assms(2) by (simp add: take_bit_nat_eq_self_iff OFFSET_MASK_def)
  have bl: "bit l n \<Longrightarrow> n < 6" for n using l by (metis bit_take_bit_iff)
  have bo: "bit off n \<Longrightarrow> n < 10" for n using o by (metis bit_take_bit_iff)
  have m: "(of_nat OFFSET_MASK :: u16) = mask 10" by (simp add: OFFSET_MASK_def mask_eq_exp_minus_1)
  have w: "bit w n \<longleftrightarrow> n < 16 \<and> (10 \<le> n \<and> bit l (n - 10) \<or> bit off n)" for n
    by (auto simp: w_def bit_simps)
  show "unat (drop_bit 10 w) = l"
  proof (rule bit_eqI)
    fix n show "bit (unat (drop_bit 10 w)) n = bit l n"
      using bl[of n] bo[of "10 + n"] by (auto simp: bit_simps w)
  qed
  show "unat (w AND of_nat OFFSET_MASK) = off"
  proof (rule bit_eqI)
    fix n show "bit (unat (w AND of_nat OFFSET_MASK)) n = bit off n"
      using bo[of n] by (auto simp: bit_simps w m)
  qed
qed

definition lz_rel :: "bytes \<Rightarrow> bytes \<Rightarrow> lz_enc \<Rightarrow> lz_dec \<Rightarrow> bool" where
  "lz_rel D src s d \<longleftrightarrow> ld_src_idx d = le_dst_idx s \<and> ld_dst_idx d = le_src_idx s \<and> ld_mask d = le_mask s \<and>
     (le_mask s \<noteq> 0 \<longrightarrow> ld_map d = D ! le_map_idx s) \<and> length (ld_dst d) = length src \<and>
     take (le_src_idx s) (ld_dst d) = take (le_src_idx s) src"

definition lz_agrees :: "bytes \<Rightarrow> lz_enc \<Rightarrow> bool" where
  "lz_agrees D s \<longleftrightarrow> le_dst_idx s \<le> length D \<and> (\<forall>i j. settled s i j \<longrightarrow> bit (D ! i) j = bit (le_dst s ! i) j)"

lemma lz_agrees_nth: "lz_agrees D s \<Longrightarrow> i < le_dst_idx s \<Longrightarrow> i \<noteq> le_map_idx s \<Longrightarrow> D ! i = le_dst s ! i"
  by (rule bit_word_eqI) (simp add: lz_agrees_def settled_def)

lemma lz_agrees_map:
  "lz_agrees D s \<Longrightarrow> le_map_idx s < le_dst_idx s \<Longrightarrow> le_mask s = 2 ^ k \<Longrightarrow> k < 8 \<Longrightarrow>
   bit (D ! le_map_idx s) k = bit (le_dst s ! le_map_idx s) k"
  by (auto simp: lz_agrees_def settled_def)

lemma lz_dec_group_sim:
  assumes "lz_enc_group s = Ok s0" "lz_ready k s0" "lz_rel D src s d" "le_dst_idx s0 \<le> length D"
  shows "\<exists>d0. lz_dec_group D d = Ok d0 \<and> lz_rel D src s0 d0"
proof (cases "push_bit 1 (le_mask s) = 0")
  case True
  then have "le_dst_idx s0 = le_dst_idx s + 1" "le_map_idx s0 = le_dst_idx s" "le_mask s0 = 1" "le_src_idx s0 = le_src_idx s"
    using assms(1) by (auto simp: lz_enc_group_def and_then_Ok_iff split: if_splits)
  then show ?thesis using True assms(3,4) by (auto simp: lz_dec_group_def lz_rel_def index_get_def)
next
  case False
  then have "s0 = s\<lparr>le_mask := push_bit 1 (le_mask s)\<rparr>" using assms(1) by (simp add: lz_enc_group_def Let_def)
  moreover have "le_mask s \<noteq> 0" using False by auto
  ultimately show ?thesis using False assms(3) by (auto simp: lz_dec_group_def Let_def lz_rel_def)
qed

lemma lz_dec_match_sim:
  assumes "lz_ready k s0" "lz_match_ok src s0 off" "lz_rel D src s0 d0"
    and s': "s' = lz_copied src off (le_src_idx s0 - off) (s0\<lparr>le_table := table\<rparr>)" and D: "lz_agrees D s'"
  shows "\<exists>d'. lz_dec_match D d0 = Ok d' \<and> lz_rel D src s' d'"
proof -
  let ?i = "le_src_idx s0" and ?q = "le_dst_idx s0"
  let ?len = "lz_match_len src ?i (?i - off) LENGTH_MIN"
  let ?w = "of_nat (push_bit 10 (?len - LENGTH_MIN) OR off) :: u16"
  have m: "0 < off" "off \<le> ?i" "off \<le> OFFSET_MASK" "?i + LENGTH_MAX \<le> length src"
    "\<forall>j<LENGTH_MIN. src ! (?i + j) = src ! (?i - off + j)" using assms(2) by (simp_all add: lz_match_ok_def)
  have len: "LENGTH_MIN \<le> ?len" "?len \<le> LENGTH_MAX"
    "\<forall>j. LENGTH_MIN \<le> j \<and> j < ?len \<longrightarrow> src ! (?i + j) = src ! (?i - off + j)"
    using lz_match_len_bounds[of LENGTH_MIN src ?i "?i - off"] by (simp_all add: lz_consts)
  have same: "\<forall>j<?len. src ! (?i + j) = src ! (?i - off + j)" using m(5) len(3) by (meson not_le)
  have q: "?q + 2 \<le> length (le_dst s0)" "le_map_idx s0 < ?q" using assms(1) by (auto simp: lz_ready_def)
  have idx: "le_dst_idx s' = ?q + 2" "le_map_idx s' = le_map_idx s0" "le_mask s' = le_mask s0" "le_src_idx s' = ?i + ?len"
    by (simp_all add: s' lz_copied_def Let_def)
  have D2: "?q + 2 \<le> length D" using D idx(1) by (simp add: lz_agrees_def)
  have "D ! (?q + t) = be_bytes 2 ?w ! t" if "t < 2" for t
  proof -
    have "D ! (?q + t) = le_dst s' ! (?q + t)"
      using lz_agrees_nth[OF D, of "?q + t"] idx q(2) that by simp
    also have "\<dots> = be_bytes 2 ?w ! t"
      using q that by (simp add: s' lz_copied_def Let_def overwrite_def nth_append length_be_bytes_2)
    finally show ?thesis .
  qed
  then have "take 2 (drop ?q D) = be_bytes 2 ?w"
    using D2 by (intro nth_equalityI) (auto simp: length_be_bytes_2)
  then have w: "be_word (take 2 (drop ?q D)) = ?w" by (simp add: be_word_be_bytes)
  have l63: "?len - LENGTH_MIN \<le> 63" using len(2) by (simp add: lz_consts)
  have fields: "unat (drop_bit 10 ?w) + LENGTH_MIN = ?len" "unat (?w AND of_nat OFFSET_MASK) = off"
    using length_offset_fields[OF l63 m(3)] len(1) by simp_all
  have rel: "ld_src_idx d0 = ?q" "ld_dst_idx d0 = ?i" "length (ld_dst d0) = length src" "take ?i (ld_dst d0) = take ?i src"
    "ld_mask d0 = le_mask s0" "le_mask s0 \<noteq> 0 \<longrightarrow> ld_map d0 = D ! le_map_idx s0"
    using assms(3) by (simp_all add: lz_rel_def)
  have min: "min ?len (length src - ?i) = ?len" using m(4) len(2) by simp
  have "take (?i + ?len) (lz_copy ?len ?i (?i - off) (ld_dst d0)) = take (?i + ?len) src"
    using m(1,2,4) len(2) rel same by (intro lz_copy_ok) auto
  then show ?thesis
    using D2 rel m(2) idx by (auto simp: lz_dec_match_def Let_def w fields min lz_rel_def)
qed

lemma lz_step_sim:
  assumes "lz_wf hash s" "hash_ok hash" "le_src_idx s < length src" "lz_enc_step hash src s = Ok s'"
    "lz_agrees D s'" "lz_rel D src s d"
  shows "\<exists>d'. lz_dec_step D d = Ok d' \<and> lz_rel D src s' d'"
  using assms(1-3)
proof (cases rule: lz_enc_step_cases)
  case 1
  then show ?thesis using assms(4) by simp
next
  case (2 k s0 table)
  have r: "k < 8" "le_mask s0 = 2 ^ k" "le_map_idx s0 < le_dst_idx s0" "\<not> bit (le_dst s0 ! le_map_idx s0) k"
    "le_dst_idx s0 < length (le_dst s0)"
    using 2(2) by (auto simp: lz_ready_def)
  have s': "s' = s0\<lparr>le_table := table, le_dst := (le_dst s0)[le_dst_idx s0 := src ! le_src_idx s0],
      le_dst_idx := le_dst_idx s0 + 1, le_src_idx := le_src_idx s0 + 1\<rparr>" using 2(4) assms(4) by simp
  then have q: "le_dst_idx s0 + 1 \<le> length D" using assms(5) by (simp add: lz_agrees_def)
  then obtain d0 where d0: "lz_dec_group D d = Ok d0" "lz_rel D src s0 d0"
    using lz_dec_group_sim[OF 2(1,2) assms(6)] by auto
  have "\<not> bit (D ! le_map_idx s0) k"
    using lz_agrees_map[OF assms(5), of k] r by (simp add: s')
  then have lit: "ld_map d0 AND ld_mask d0 = 0"
    using d0(2) r(1,2) mask_byte_nonzero by (simp add: lz_rel_def and_exp_eq_0_iff_not_bit)
  have "D ! le_dst_idx s0 = src ! le_src_idx s0"
    using lz_agrees_nth[OF assms(5), of "le_dst_idx s0"] r(3,5) by (simp add: s')
  then show ?thesis
    using d0 q lit 2(3) assms(3) by (auto simp: lz_dec_step_def lz_dec_literal_def index_get_def lz_rel_def s' take_Suc_conv_app_nth)
next
  case (3 k s0 table off)
  have r: "k < 8" "le_mask s0 = 2 ^ k" "le_map_idx s0 < le_dst_idx s0"
    using 3(2) by (auto simp: lz_ready_def)
  have s': "s' = lz_copied src off (le_src_idx s0 - off) (s0\<lparr>le_table := table\<rparr>)" using 3(5) assms(4) by simp
  then have idx: "le_dst_idx s' = le_dst_idx s0 + 2" "le_map_idx s' = le_map_idx s0" "le_mask s' = 2 ^ k"
    using r(2) by (simp_all add: lz_copied_def Let_def)
  then have "le_dst_idx s0 \<le> length D" using assms(5) by (simp add: lz_agrees_def)
  then obtain d0 where d0: "lz_dec_group D d = Ok d0" "lz_rel D src s0 d0"
    using lz_dec_group_sim[OF 3(1,2) assms(6)] by auto
  have "bit (D ! le_map_idx s0) k"
    using lz_agrees_map[OF assms(5), of k] r idx lz_copied_nth[OF 3(2) r(3)] by (simp add: s' bit_simps)
  then have "ld_map d0 AND ld_mask d0 \<noteq> 0"
    using d0(2) r(1,2) mask_byte_nonzero by (simp add: lz_rel_def and_exp_eq_0_iff_not_bit)
  then show ?thesis
    using d0(1) lz_dec_match_sim[OF 3(2,4) d0(2) s' assms(5)] by (simp add: lz_dec_step_def)
qed

lemma lz_loop_sim:
  assumes "lz_enc_loop hash src s = Ok s'" "lz_wf hash s" "hash_ok hash" "le_src_idx s \<le> length src"
    "D = take (le_dst_idx s') (le_dst s')" "lz_rel D src s d"
  shows "\<exists>d'. lz_dec_loop D d = Ok d' \<and> ld_dst d' = src"
  using assms
proof (induction hash src s arbitrary: d rule: lz_enc_loop.induct)
  case (1 hash src s)
  have rel: "ld_dst_idx d = le_src_idx s" "length (ld_dst d) = length src"
    using "1.prems"(6) by (simp_all add: lz_rel_def)
  show ?case
  proof (cases "le_src_idx s < length src")
    case True
    then obtain s1 where s1: "lz_enc_step hash src s = Ok s1" "lz_enc_loop hash src s1 = Ok s'"
      using "1.prems"(1) by (subst (asm) lz_enc_loop.simps) (auto split: result.splits)
    note len = lz_enc_step_length[OF "1.prems"(2,3) True s1(1)]
    note wf = lz_enc_step_wf(2)[OF "1.prems"(2,3) True s1(1)]
    note final = lz_enc_loop_final[OF s1(2) wf "1.prems"(3) len(2)]
    have "lz_agrees D s1"
      using final by (auto simp: lz_agrees_def "1.prems"(5) settled_def)
    from lz_step_sim[OF "1.prems"(2,3) True s1(1) this "1.prems"(6)]
    obtain d1 where d1: "lz_dec_step D d = Ok d1" "lz_rel D src s1 d1" by auto
    from "1.IH"[OF True s1(1) s1(2) wf "1.prems"(3) len(4) "1.prems"(5) d1(2)] d1(1) True rel show ?thesis
      by (subst lz_dec_loop.simps) simp
  next
    case False
    then show ?thesis using "1.prems"(4,6) rel by (subst lz_dec_loop.simps) (simp add: lz_rel_def)
  qed
qed

lemma lz_start_rel: "length out = length src \<Longrightarrow> lz_rel D src (lz_enc_start table dst)
    \<lparr>ld_src_idx = 0, ld_dst_idx = 0, ld_mask = 0, ld_map = 0, ld_dst = out\<rparr>"
  by (simp add: lz_rel_def lz_enc_start_def)

lemma lz_start_wf:
  "length table = TABLE_LENGTH \<Longrightarrow> lz_wf hash_v21 (lz_enc_start (replicate (length table) 0) dst)"
  "length table = TABLE_LENGTH \<Longrightarrow> lz_wf hash_pre_v21 (lz_enc_start (replicate 256 0 @ drop 256 table) dst)"
proof -
  have "hash_v21 a b c < TABLE_LENGTH" for a b c using hash_v21_ok by (simp add: hash_ok_def)
  then show "length table = TABLE_LENGTH \<Longrightarrow> lz_wf hash_v21 (lz_enc_start (replicate (length table) 0) dst)"
    by (simp add: lz_wf_def lz_enc_start_def tab_le_def)
  have "hash_pre_v21 a b c < 256" for a b c
    using unsigned_less[of "(a + 13) XOR (b - 13) XOR c", where 'a = nat] by (simp add: hash_pre_v21_def)
  then show "length table = TABLE_LENGTH \<Longrightarrow> lz_wf hash_pre_v21 (lz_enc_start (replicate 256 0 @ drop 256 table) dst)"
    by (simp add: lz_wf_def lz_enc_start_def tab_le_def nth_append TABLE_LENGTH_def)
qed

lemma lz_roundtrip:
  assumes "lz_enc_loop hash src (lz_enc_start table dst) = Ok s'" "lz_wf hash (lz_enc_start table dst)" "hash_ok hash"
    "length out = length src"
  shows "lzjb_decompress out (take (le_dst_idx s') (le_dst s')) = Ok src"
proof -
  have "le_src_idx (lz_enc_start table dst) \<le> length src" by (simp add: lz_enc_start_def)
  from lz_loop_sim[OF assms(1-3) this refl lz_start_rel[OF assms(4)]] show ?thesis
    by (auto simp: lzjb_decompress_def)
qed

section \<open>Properties\<close>

text \<open>
  C7. LZJB decoding undoes encoding: whatever the destination buffer and the left-over contents of
  the encoder's table, when either encoder succeeds it reports a length within the destination and
  decompressing that many bytes into a buffer of the original length gives the original data.
\<close>

theorem lzjb_roundtrip:
  assumes "length table = TABLE_LENGTH" "length out = length src"
    and "lzjb_compress table dst src = Ok (n, dst', table') \<or>
      lzjb_compress_pre_v21 table dst src = Ok (n, dst', table')"
  shows "lzjb_decompress out (take n dst') = Ok src \<and> n \<le> length dst'"
  using assms(3)
proof
  note wf = lz_start_wf(1)[OF assms(1), of dst]
  assume "lzjb_compress table dst src = Ok (n, dst', table')"
  then obtain s where s: "lz_enc_loop hash_v21 src (lz_enc_start (replicate (length table) 0) dst) = Ok s"
    "n = le_dst_idx s" "dst' = le_dst s" by (auto simp: lzjb_compress_def and_then_Ok_iff)
  then show ?thesis
    using lz_roundtrip[OF s(1) wf hash_v21_ok assms(2)] lz_enc_loop_final[OF s(1) wf hash_v21_ok]
    by (simp add: lz_enc_start_def)
next
  note wf = lz_start_wf(2)[OF assms(1), of dst]
  assume "lzjb_compress_pre_v21 table dst src = Ok (n, dst', table')"
  then obtain s where s: "lz_enc_loop hash_pre_v21 src (lz_enc_start (replicate 256 0 @ drop 256 table) dst) = Ok s"
    "n = le_dst_idx s" "dst' = le_dst s" by (auto simp: lzjb_compress_pre_v21_def and_then_Ok_iff)
  then show ?thesis
    using lz_roundtrip[OF s(1) wf hash_pre_v21_ok assms(2)] lz_enc_loop_final[OF s(1) wf hash_pre_v21_ok]
    by (simp add: lz_enc_start_def)
qed

theorem lzjb_roundtrip_witness:
  "\<exists>dst' table'. lzjb_compress lzjb_new [0, 0, 0, 0, 0, 0, 0, 0, 0, 0, 0, 0, 0, 0, 0, 0, 0] [7, 8, 9] = Ok (4, dst', table') \<and>
     lzjb_decompress [0, 0, 0] (take 4 dst') = Ok [7, 8, 9]"
proof -
  let ?dst = "[0, 0, 0, 0, 0, 0, 0, 0, 0, 0, 0, 0, 0, 0, 0, 0, 0] :: u8 list"
  have c: "lzjb_compress lzjb_new ?dst [7, 8, 9] = Ok (4, [0, 7, 8, 9] @ drop 4 ?dst, replicate (length lzjb_new) 0)"
    by (simp add: lzjb_compress_def lz_enc_loop.simps lz_enc_start_def lz_enc_step_def lz_enc_group_def index_set_def
        lz_enc_literal_def lz_consts push_bit_eq_mult)
  have "length lzjb_new = TABLE_LENGTH" by (simp add: lzjb_new_def)
  from lzjb_roundtrip[OF this, of "[0, 0, 0]" "[7, 8, 9]" ?dst 4, OF _ disjI1[OF c]] c show ?thesis by simp
qed

text \<open>
  C22. The LZJB encoders never panic: every write to the destination is in range and no index is
  subtracted below zero, for every input, every destination size and every encoder state.
\<close>

theorem lzjb_compress_safe:
  assumes "length table = TABLE_LENGTH"
  shows "lzjb_compress table dst src \<noteq> Panic \<and> lzjb_compress_pre_v21 table dst src \<noteq> Panic"
  using lz_enc_loop_safe[OF lz_start_wf(1)[OF assms] hash_v21_ok]
    lz_enc_loop_safe[OF lz_start_wf(2)[OF assms] hash_pre_v21_ok]
  by (simp add: lzjb_compress_def lzjb_compress_pre_v21_def and_then_Panic_iff)

theorem lzjb_compress_safe_witness:
  "length lzjb_new = TABLE_LENGTH \<and> lzjb_compress lzjb_new [] (replicate 100 1) \<noteq> Panic"
  using lzjb_compress_safe[of lzjb_new "[]" "replicate 100 1"] by (simp add: lzjb_new_def)

end
