(* ===== verification/Pool_Env.thy ===== *)
theory Pool_Env
  imports Phys_Types
begin

text \<open>
  \<open>error.rs\<close>, \<open>block_read.rs\<close>, and the code outside the crate that the reader calls.

  The reader of a device, the hash functions of other crates and their decompressors are the
  fields of a record, an argument of every definition that uses them; the locale \<open>pool_env\<close> states
  what is relied on: a buffer handed out by reference keeps its length. The crate's features are
  flags of the same record, so both branches of every \<open>cfg\<close> are modelled.

  A pool operation takes the members of the pool and returns its result with the members as the
  reads left them, also when it fails.
\<close>

section \<open>Errors\<close>

datatype label_reason = BadMagic | BadChecksum | NoLabels | PoolGuidMismatch | NotAZfsMember

datatype location =
    Loc_Vdev u64
  | Loc_Uberblock
  | Loc_Mos
  | Loc_Dsl u64
  | Loc_Dnode u64
  | Loc_Indirect u64 u8
  | Loc_Zap u64
  | Loc_Zpl u64

datatype error =
    Io string u64 u64
  | BadLabel label_reason
  | NoValidUberblock
  | UnsupportedFeature string
  | UnsupportedTopology string
  | Unsupported string
  | ChecksumMismatch u64 u64 string
  | Inconsistent string location
  | UnsupportedCompression u8
  | BadCompression u8 string
  | NotFound string
  | NotARegularFile
  | NotADirectory
  | NotASymlink
  | FileTooLarge u64 u64
  | OutOfMemory string

fun label_reason_token :: "label_reason \<Rightarrow> string" where
  "label_reason_token BadMagic = ''label_bad_magic''"
| "label_reason_token BadChecksum = ''label_bad_checksum''"
| "label_reason_token NoLabels = ''label_none''"
| "label_reason_token PoolGuidMismatch = ''label_pool_guid_mismatch''"
| "label_reason_token NotAZfsMember = ''label_not_a_member''"

fun error_token :: "error \<Rightarrow> string" where
  "error_token (Io token vdev offset) = token"
| "error_token (Inconsistent token loc) = token"
| "error_token (BadCompression c token) = token"
| "error_token (BadLabel r) = label_reason_token r"
| "error_token NoValidUberblock = ''no_valid_uberblock''"
| "error_token (UnsupportedFeature t) = t"
| "error_token (UnsupportedTopology t) = t"
| "error_token (Unsupported t) = t"
| "error_token (ChecksumMismatch vdev offset what) = what"
| "error_token (UnsupportedCompression c) = ''comp_unsupported''"
| "error_token (NotFound component) = ''not_found''"
| "error_token NotARegularFile = ''not_a_regular_file''"
| "error_token NotADirectory = ''not_a_directory''"
| "error_token NotASymlink = ''not_a_symlink''"
| "error_token (FileTooLarge n limit) = ''file_too_large''"
| "error_token (OutOfMemory site) = site"

section \<open>The environment\<close>

text \<open>
  \<open>read_at r off n\<close> fills a buffer of \<open>n\<close> bytes. \<open>lz4_decompress_into src n\<close> and
  \<open>inflate_to_slice src n\<close> return the buffer of \<open>n\<close> bytes and the count written.
  \<open>zstd_decoder_new framed\<close> is a decoder on which \<open>read_exact\<close> of \<open>n\<close> bytes gives the bytes and the
  outcome of a following one-byte read (the count, or \<^const>\<open>None\<close> for an error).
\<close>

record 'r env =
  read_at :: "'r \<Rightarrow> u64 \<Rightarrow> nat \<Rightarrow> bytes option \<times> 'r"
  sha512_256_digest :: "bytes \<Rightarrow> bytes"
  blake3_keyed_hash :: "bytes \<Rightarrow> bytes \<Rightarrow> bytes"
  lz4_decompress_into :: "bytes \<Rightarrow> nat \<Rightarrow> (bytes \<times> nat) option"
  inflate_to_slice :: "bytes \<Rightarrow> nat \<Rightarrow> (bytes \<times> nat) option"
  zstd_decoder_new :: "bytes \<Rightarrow> (nat \<Rightarrow> (bytes \<times> nat option) option) option"
  feature_sha512 :: bool
  feature_blake3 :: bool
  feature_lz4 :: bool
  feature_gzip :: bool
  feature_zstd :: bool

locale pool_env =
  fixes E :: "'r env"
  assumes read_at_length: "read_at E r off n = (Some bs, r') \<Longrightarrow> length bs = n"
    and lz4_length: "lz4_decompress_into E src n = Some (bs, k) \<Longrightarrow> length bs = n"
    and inflate_length: "inflate_to_slice E src n = Some (bs, k) \<Longrightarrow> length bs = n"
    and zstd_length: "zstd_decoder_new E src = Some dec \<Longrightarrow> dec n = Some (bs, extra) \<Longrightarrow> length bs = n"

text \<open>A reader without a state of its own: reading leaves it as it was.\<close>

definition steady :: "'r env \<Rightarrow> bool" where
  "steady E \<longleftrightarrow> (\<forall>r off n. snd (read_at E r off n) = r)"

text \<open>
  The in-memory reader of the fuzz targets: a slice of an image, an error outside it. The outside
  codecs are off.
\<close>

definition mem_read_at :: "bytes \<Rightarrow> u64 \<Rightarrow> nat \<Rightarrow> bytes option \<times> bytes" where
  "mem_read_at data off n = (slice_get data (unat off) (unat off + n), data)"

definition mem_env :: "bytes env" where
  "mem_env = \<lparr>read_at = mem_read_at, sha512_256_digest = (\<lambda>_. replicate 32 0),
     blake3_keyed_hash = (\<lambda>_ _. replicate 32 0), lz4_decompress_into = (\<lambda>_ _. None),
     inflate_to_slice = (\<lambda>_ _. None), zstd_decoder_new = (\<lambda>_. None), feature_sha512 = False,
     feature_blake3 = False, feature_lz4 = False, feature_gzip = False, feature_zstd = False\<rparr>"

interpretation mem: pool_env mem_env
  by unfold_locales (auto simp: mem_env_def mem_read_at_def dest: slice_get_length)

lemma mem_steady: "steady mem_env"
  by (simp add: steady_def mem_env_def mem_read_at_def)

section \<open>Pool operations\<close>

record 'r pool_member =
  reader :: 'r
  device_size_bytes :: u64

type_synonym ('r, 'a) zio = "'r pool_member list \<Rightarrow> (error, 'a) result \<times> 'r pool_member list"

definition returnZ :: "'a \<Rightarrow> ('r, 'a) zio" where
  "returnZ x ms = (Ok x, ms)"

definition failZ :: "error \<Rightarrow> ('r, 'a) zio" where
  "failZ e ms = (Err e, ms)"

definition liftZ :: "(error, 'a) result \<Rightarrow> ('r, 'a) zio" where
  "liftZ m ms = (m, ms)"

definition bindZ :: "('r, 'a) zio \<Rightarrow> ('a \<Rightarrow> ('r, 'b) zio) \<Rightarrow> ('r, 'b) zio" where
  "bindZ m f ms = (case m ms of (Ok x, ms') \<Rightarrow> f x ms' | (Err e, ms') \<Rightarrow> (Err e, ms') | (Panic, ms') \<Rightarrow> (Panic, ms'))"

text \<open>\<open>.map_err(|_| e)?\<close> on the result of an operation.\<close>

definition map_errZ :: "(error \<Rightarrow> error) \<Rightarrow> ('r, 'a) zio \<Rightarrow> ('r, 'a) zio" where
  "map_errZ f m ms = (case m ms of (res, ms') \<Rightarrow> (map_err f res, ms'))"

text \<open>A read from one member, which must exist.\<close>

definition read_exact :: "'r env \<Rightarrow> nat \<Rightarrow> u64 \<Rightarrow> nat \<Rightarrow> u64 \<Rightarrow> string \<Rightarrow> ('r, bytes) zio" where
  "read_exact E mi offset n vdev token ms =
     (case read_at E (reader (ms ! mi)) offset n of
        (Some bs, r) \<Rightarrow> (Ok bs, ms[mi := (ms ! mi)\<lparr>reader := r\<rparr>])
      | (None, r) \<Rightarrow> (Err (Io token vdev offset), ms[mi := (ms ! mi)\<lparr>reader := r\<rparr>]))"

lemma bindZ_return [simp]: "bindZ (returnZ x) f = f x" "bindZ m returnZ = m"
  by (auto simp: bindZ_def returnZ_def fun_eq_iff split: prod.split result.split)

lemma bindZ_fail [simp]: "bindZ (failZ e) f = failZ e"
  by (simp add: bindZ_def failZ_def fun_eq_iff)

lemma bindZ_assoc: "bindZ (bindZ m f) g = bindZ m (\<lambda>x. bindZ (f x) g)"
  by (auto simp: bindZ_def fun_eq_iff split: prod.split result.split)

lemma bindZ_Ok_iff: "bindZ m f ms = (Ok y, ms') \<longleftrightarrow> (\<exists>x ms1. m ms = (Ok x, ms1) \<and> f x ms1 = (Ok y, ms'))"
  by (auto simp: bindZ_def split: prod.splits result.splits)

lemma fst_bindZ_Ok: "fst (bindZ m f ms) = Ok y \<Longrightarrow> \<exists>x. fst (m ms) = Ok x \<and> fst (f x (snd (m ms))) = Ok y"
  by (auto simp: bindZ_def split: prod.splits result.splits)

section \<open>Contracts\<close>

text \<open>
  \<open>safeZ\<close>: the operation does not panic and keeps the number of members. \<open>pureZ\<close>: it leaves the
  members unchanged. Both are closed under the combinators, so the contract of an operation follows
  from those of its parts.
\<close>

definition safeZ :: "('r, 'a) zio \<Rightarrow> bool" where
  "safeZ m \<longleftrightarrow> (\<forall>ms. fst (m ms) \<noteq> Panic \<and> length (snd (m ms)) = length ms)"

definition pureZ :: "('r, 'a) zio \<Rightarrow> bool" where
  "pureZ m \<longleftrightarrow> (\<forall>ms. snd (m ms) = ms)"

named_theorems pure_intro \<open>operations that leave the members unchanged\<close>

lemma safeZ_return [zio_intro]: "safeZ (returnZ x)"
  by (simp add: safeZ_def returnZ_def)

lemma safeZ_fail [zio_intro]: "safeZ (failZ e)"
  by (simp add: safeZ_def failZ_def)

lemma safeZ_lift [zio_intro]: "m \<noteq> Panic \<Longrightarrow> safeZ (liftZ m)"
  by (simp add: safeZ_def liftZ_def)

lemma safeZ_bind [zio_intro]: "safeZ m \<Longrightarrow> (\<And>x. safeZ (f x)) \<Longrightarrow> safeZ (bindZ m f)"
  unfolding safeZ_def bindZ_def by (auto split: prod.splits result.splits) (metis fst_conv snd_conv)+

lemma safeZ_map_err [zio_intro]: "safeZ m \<Longrightarrow> safeZ (map_errZ f m)"
  unfolding safeZ_def map_errZ_def by (auto split: prod.splits) (metis fst_conv snd_conv)+

lemma safeZ_if [zio_intro]: "(b \<Longrightarrow> safeZ m) \<Longrightarrow> (\<not> b \<Longrightarrow> safeZ n) \<Longrightarrow> safeZ (if b then m else n)"
  by simp

lemma safeZ_let [zio_intro]: "safeZ (f x) \<Longrightarrow> safeZ (let y = x in f y)"
  by simp

lemma safeZ_option [zio_intro]: "(x = None \<Longrightarrow> safeZ m) \<Longrightarrow> (\<And>y. x = Some y \<Longrightarrow> safeZ (f y)) \<Longrightarrow> safeZ (case x of None \<Rightarrow> m | Some y \<Rightarrow> f y)"
  by (cases x) simp_all

lemma safeZ_prod [zio_intro]: "(\<And>a b. x = (a, b) \<Longrightarrow> safeZ (f a b)) \<Longrightarrow> safeZ (case x of (a, b) \<Rightarrow> f a b)"
  by (cases x) simp

lemma pureZ_return [pure_intro]: "pureZ (returnZ x)"
  by (simp add: pureZ_def returnZ_def)

lemma pureZ_fail [pure_intro]: "pureZ (failZ e)"
  by (simp add: pureZ_def failZ_def)

lemma pureZ_lift [pure_intro]: "pureZ (liftZ m)"
  by (simp add: pureZ_def liftZ_def)

lemma pureZ_bind [pure_intro]: "pureZ m \<Longrightarrow> (\<And>x. pureZ (f x)) \<Longrightarrow> pureZ (bindZ m f)"
  unfolding pureZ_def bindZ_def by (auto split: prod.splits result.splits) (metis snd_conv)+

lemma pureZ_map_err [pure_intro]: "pureZ m \<Longrightarrow> pureZ (map_errZ f m)"
  unfolding pureZ_def map_errZ_def by (auto split: prod.splits) (metis snd_conv)

lemma pureZ_if [pure_intro]: "(b \<Longrightarrow> pureZ m) \<Longrightarrow> (\<not> b \<Longrightarrow> pureZ n) \<Longrightarrow> pureZ (if b then m else n)"
  by simp

lemma pureZ_let [pure_intro]: "pureZ (f x) \<Longrightarrow> pureZ (let y = x in f y)"
  by simp

lemma pureZ_option [pure_intro]: "pureZ m \<Longrightarrow> (\<And>y. x = Some y \<Longrightarrow> pureZ (f y)) \<Longrightarrow> pureZ (case x of None \<Rightarrow> m | Some y \<Rightarrow> f y)"
  by (cases x) simp_all

lemma pureZ_prod [pure_intro]: "(\<And>a b. x = (a, b) \<Longrightarrow> pureZ (f a b)) \<Longrightarrow> pureZ (case x of (a, b) \<Rightarrow> f a b)"
  by (cases x) simp

lemma safeZ_read_exact [zio_intro]: "safeZ (read_exact E mi off n vdev token)"
  by (auto simp: safeZ_def read_exact_def split: prod.splits option.splits)

lemma pureZ_read_exact [pure_intro]:
  assumes "steady E"
  shows "pureZ (read_exact E mi off n vdev token)"
proof -
  have same: "ms[mi := (ms ! mi)\<lparr>reader := r'\<rparr>] = ms" if "read_at E (reader (ms ! mi)) off n = (x, r')" for ms x r'
  proof -
    have "r' = reader (ms ! mi)" using assms that by (metis snd_conv steady_def)
    then show ?thesis by simp
  qed
  show ?thesis
    by (auto simp: pureZ_def read_exact_def same split: prod.splits option.splits)
qed

lemma read_exact_Ok: "read_exact E mi off n vdev token ms = (Ok bs, ms') \<Longrightarrow> \<exists>r. fst (read_at E r off n) = Some bs"
  by (auto simp: read_exact_def split: prod.splits option.splits) (metis fst_conv)

end
