(* ===== verification/Compress.thy ===== *)
theory Compress
  imports Pool_Env Lzjb
begin

text \<open>
  \<open>compress.rs\<close>: decompression of a block to its logical size. LZJB and ZLE are decoded by the
  crate; LZ4, gzip and zstd by the codecs of the environment, when their feature is on.
\<close>

definition MAX_BLOCK_LSIZE :: nat where
  "MAX_BLOCK_LSIZE = 16 * 1024 * 1024"

definition lzjb_decode :: "bytes \<Rightarrow> nat \<Rightarrow> (error, bytes) result" where
  "lzjb_decode src lsize =
     map_err (\<lambda>_. BadCompression 3 ''lzjb_bad'') (lzjb_decompress (replicate lsize 0) src)"

definition zle_bad :: error where
  "zle_bad = BadCompression 14 ''zle_bad''"

function zle_loop :: "bytes \<Rightarrow> nat \<Rightarrow> nat \<Rightarrow> nat \<Rightarrow> bytes \<Rightarrow> (error, bytes) result" where
  "zle_loop src lsize s d dst =
     (if d < lsize then
        (case index_get src s of
           None \<Rightarrow> Err zle_bad
         | Some c \<Rightarrow>
             if c < 0x40 then
               (case slice_get src (s + 1) (s + 1 + (unat c + 1)) of
                  None \<Rightarrow> Err zle_bad
                | Some run \<Rightarrow>
                    (case slice_get dst d (d + (unat c + 1)) of
                       None \<Rightarrow> Err zle_bad
                     | Some out \<Rightarrow>
                         zle_loop src lsize (s + 1 + (unat c + 1)) (d + (unat c + 1)) (overwrite dst d run)))
             else if lsize < d + (unat c - 0x40 + 1) then Err zle_bad
             else zle_loop src lsize (s + 1) (d + (unat c - 0x40 + 1)) dst)
      else Ok dst)"
  by pat_completeness auto
termination by (relation "measure (\<lambda>(_, lsize, _, d, _). lsize - d)") auto

declare zle_loop.simps [simp del]

definition zle_decode :: "bytes \<Rightarrow> nat \<Rightarrow> (error, bytes) result" where
  "zle_decode src lsize = zle_loop src lsize 0 0 (replicate lsize 0)"

definition lz4_decode :: "'r env \<Rightarrow> bytes \<Rightarrow> nat \<Rightarrow> (error, bytes) result" where
  "lz4_decode E src lsize =
     (if feature_lz4 E then
        and_then (ok_or (BadCompression 15 ''lz4_no_prefix'') (slice_get src 0 4)) (\<lambda>len_bytes.
        let clen = unat (be_word len_bytes :: u32) in
        and_then (ok_or (BadCompression 15 ''lz4_short'') (slice_get src 4 (4 + clen))) (\<lambda>block.
        and_then (ok_or (BadCompression 15 ''lz4_decode'') (lz4_decompress_into E block lsize)) (\<lambda>(dst, n).
        if n \<noteq> lsize then Err (BadCompression 15 ''lz4_len'') else Ok dst)))
      else Err (UnsupportedCompression 15))"

definition gzip_decode :: "'r env \<Rightarrow> bytes \<Rightarrow> nat \<Rightarrow> (error, bytes) result" where
  "gzip_decode E src lsize =
     (if feature_gzip E then
        and_then (ok_or (BadCompression 5 ''gzip_decode'') (inflate_to_slice E src lsize)) (\<lambda>(dst, n).
        if n \<noteq> lsize then Err (BadCompression 5 ''gzip_len'') else Ok dst)
      else Err (UnsupportedCompression 5))"

definition ZSTD_MAGIC :: bytes where
  "ZSTD_MAGIC = [0x28, 0xb5, 0x2f, 0xfd]"

definition zstd_decode :: "'r env \<Rightarrow> bytes \<Rightarrow> nat \<Rightarrow> (error, bytes) result" where
  "zstd_decode E src lsize =
     (if feature_zstd E then
        and_then (ok_or (BadCompression 16 ''zstd_no_hdr'') (slice_get src 0 8)) (\<lambda>hdr.
        let clen = unat (be_word (take 4 hdr) :: u32) in
        and_then (ok_or (BadCompression 16 ''zstd_short'') (slice_get src 8 (8 + clen))) (\<lambda>frame.
        and_then (ok_or (BadCompression 16 ''zstd_frame'') (zstd_decoder_new E (ZSTD_MAGIC @ frame))) (\<lambda>dec.
        and_then (ok_or (BadCompression 16 ''zstd_decode'') (dec lsize)) (\<lambda>(dst, extra).
        case extra of
          Some n \<Rightarrow> if n \<noteq> 0 then Err (BadCompression 16 ''zstd_len'') else Ok dst
        | None \<Rightarrow> Ok dst))))
      else Err (UnsupportedCompression 16))"

definition decompress :: "'r env \<Rightarrow> compression_type \<Rightarrow> bytes \<Rightarrow> nat \<Rightarrow> (error, bytes) result" where
  "decompress E c src lsize =
     (if lsize > MAX_BLOCK_LSIZE then Err (FileTooLarge (of_nat lsize) (of_nat MAX_BLOCK_LSIZE))
      else (case c of
          Co_Off \<Rightarrow> ok_or (BadCompression 2 ''off_short'') (slice_get src 0 lsize)
        | Co_Zle \<Rightarrow> zle_decode src lsize
        | Co_Lzjb \<Rightarrow> lzjb_decode src lsize
        | Co_Lz4 \<Rightarrow> lz4_decode E src lsize
        | Co_Gzip1 \<Rightarrow> gzip_decode E src lsize
        | Co_Gzip2 \<Rightarrow> gzip_decode E src lsize
        | Co_Gzip3 \<Rightarrow> gzip_decode E src lsize
        | Co_Gzip4 \<Rightarrow> gzip_decode E src lsize
        | Co_Gzip5 \<Rightarrow> gzip_decode E src lsize
        | Co_Gzip6 \<Rightarrow> gzip_decode E src lsize
        | Co_Gzip7 \<Rightarrow> gzip_decode E src lsize
        | Co_Gzip8 \<Rightarrow> gzip_decode E src lsize
        | Co_Gzip9 \<Rightarrow> gzip_decode E src lsize
        | Co_Zstd \<Rightarrow> zstd_decode E src lsize
        | Co_Inherit \<Rightarrow> Err (UnsupportedCompression (compression_type_to_u8 c))
        | Co_On \<Rightarrow> Err (UnsupportedCompression (compression_type_to_u8 c))
        | Co_Empty \<Rightarrow> Err (UnsupportedCompression (compression_type_to_u8 c))))"

section \<open>Output length\<close>

lemma lz_dec_loop_length: "lz_dec_loop src s = Ok s' \<Longrightarrow> length (ld_dst s') = length (ld_dst s)"
proof (induction src s rule: lz_dec_loop.induct)
  case (1 src s)
  show ?case
  proof (cases "ld_dst_idx s < length (ld_dst s)")
    case True
    then obtain s1 where "lz_dec_step src s = Ok s1" "lz_dec_loop src s1 = Ok s'"
      using "1.prems" by (subst (asm) lz_dec_loop.simps) (auto split: result.splits)
    then show ?thesis using "1.IH"[OF True] lz_dec_step_progress(2)[OF _ True] by simp
  next
    case False
    then show ?thesis using "1.prems" by (simp add: lz_dec_loop.simps)
  qed
qed

lemma lzjb_decompress_length: "lzjb_decompress dst src = Ok out \<Longrightarrow> length out = length dst"
  using lz_dec_loop_length by (fastforce simp: lzjb_decompress_def and_then_Ok_iff)

lemma lz_dec_step_not_Panic: "lz_dec_step src s \<noteq> Panic"
  by (auto simp: lz_dec_step_def lz_dec_group_def lz_dec_match_def lz_dec_literal_def Let_def and_then_Panic_iff
      split: if_splits option.splits)

lemma lz_dec_loop_not_Panic: "lz_dec_loop src s \<noteq> Panic"
proof (induction src s rule: lz_dec_loop.induct)
  case (1 src s)
  then show ?case by (subst lz_dec_loop.simps) (simp add: lz_dec_step_not_Panic split: result.split)
qed

lemma zle_loop_length:
  "length dst = lsize \<Longrightarrow> zle_loop src lsize s d dst = Ok out \<Longrightarrow> length out = lsize"
proof (induction src lsize s d dst rule: zle_loop.induct)
  case (1 src lsize s d dst)
  show ?case
  proof (cases "d < lsize")
    case True
    have eq: "zle_loop src lsize s d dst = Ok out" by (rule "1.prems")
    show ?thesis using True "1.IH" "1.prems"(1) eq[unfolded zle_loop.simps[of src lsize s d dst]]
      by (auto simp: slice_get_Some_iff length_overwrite split: option.splits if_splits)
  next
    case False
    then show ?thesis using "1.prems" by (simp add: zle_loop.simps)
  qed
qed

lemma zle_loop_not_Panic: "zle_loop src lsize s d dst \<noteq> Panic"
proof (induction src lsize s d dst rule: zle_loop.induct)
  case (1 src lsize s d dst)
  then show ?case by (subst zle_loop.simps) (auto split: option.split)
qed

lemma decompress_not_Panic: "decompress E c src lsize \<noteq> Panic"
  by (cases c)
    (auto simp: decompress_def zle_decode_def lzjb_decode_def lzjb_decompress_def lz4_decode_def gzip_decode_def
      zstd_decode_def Let_def and_then_Panic_iff zle_loop_not_Panic lz_dec_loop_not_Panic split: option.splits if_splits)

context pool_env
begin

lemma decompress_length:
  assumes "decompress E c src lsize = Ok out"
  shows "length out = lsize \<and> lsize \<le> MAX_BLOCK_LSIZE"
proof -
  have "length out = lsize" if "lz4_decode E src lsize = Ok out"
    using that lz4_length by (auto simp: lz4_decode_def and_then_Ok_iff Let_def split: if_splits)
  moreover have "length out = lsize" if "gzip_decode E src lsize = Ok out"
    using that inflate_length by (auto simp: gzip_decode_def and_then_Ok_iff split: if_splits)
  moreover have "length out = lsize" if "zstd_decode E src lsize = Ok out"
    using that zstd_length
    by (auto simp: zstd_decode_def and_then_Ok_iff Let_def split: if_splits option.splits)
  moreover have "length out = lsize" if "zle_decode src lsize = Ok out"
    using that zle_loop_length[of "replicate lsize 0" lsize] by (simp add: zle_decode_def)
  moreover have "length out = lsize" if "lzjb_decode src lsize = Ok out"
    using that lzjb_decompress_length by (fastforce simp: lzjb_decode_def)
  ultimately show ?thesis
    using assms by (cases c) (auto simp: decompress_def slice_get_Some_iff split: if_splits)
qed

end

end
