(* ===== verification/Cksum.thy ===== *)
theory Cksum
  imports Pool_Env Fletcher Sha256
begin

text \<open>\<open>cksum.rs\<close>: verification of a block against the checksum of its pointer.\<close>

definition checksum_name :: "checksum_type \<Rightarrow> string" where
  "checksum_name kind = (case kind of
       Ck_Fletcher2 \<Rightarrow> ''csum_fletcher2''
     | Ck_Fletcher4 \<Rightarrow> ''csum_fletcher4''
     | Ck_Sha256 \<Rightarrow> ''csum_sha256''
     | Ck_Label \<Rightarrow> ''csum_sha256''
     | Ck_Sha512_256 \<Rightarrow> ''csum_sha512''
     | Ck_Skein \<Rightarrow> ''csum_skein''
     | Ck_Edonr \<Rightarrow> ''csum_edonr''
     | Ck_Blake3 \<Rightarrow> ''csum_blake3''
     | _ \<Rightarrow> ''csum_unsupported'')"

text \<open>The array of four words starts at zero; \<open>zip\<close> stops at the shorter of words and chunks.\<close>

definition digest_words :: "bytes \<Rightarrow> endian_order \<Rightarrow> words4" where
  "digest_words digest ord =
     (let read = (case ord of Big \<Rightarrow> be_word | Little \<Rightarrow> le_word);
          ws = map read (take 4 (chunks_exact 8 digest)) @ replicate 4 0 in
      (ws ! 0, ws ! 1, ws ! 2, ws ! 3))"

definition sha512_256_words :: "'r env \<Rightarrow> bytes \<Rightarrow> endian_order \<Rightarrow> words4" where
  "sha512_256_words E data ord = digest_words (sha512_256_digest E data) ord"

definition blake3_words :: "'r env \<Rightarrow> bytes \<Rightarrow> bytes \<Rightarrow> endian_order \<Rightarrow> words4" where
  "blake3_words E data salt ord = digest_words (blake3_keyed_hash E salt data) ord"

text \<open>
  The computed words: \<^term>\<open>Ok None\<close> is the early return for blocks without a checksum.
\<close>

definition computed_words ::
  "'r env \<Rightarrow> checksum_type \<Rightarrow> endian_order \<Rightarrow> bytes \<Rightarrow> bytes option \<Rightarrow> error \<Rightarrow> (error, words4 option) result" where
  "computed_words E kind ord data salt init = (case kind of
       Ck_Off \<Rightarrow> Ok None
     | Ck_Fletcher2 \<Rightarrow> and_then (ok_or init (fletcher2_new Generic)) (\<lambda>f. Ok (Some (fletcher2_hash data ord f)))
     | Ck_Fletcher4 \<Rightarrow> and_then (ok_or init (fletcher4_new Generic)) (\<lambda>f. Ok (Some (fletcher4_hash data ord f)))
     | Ck_Sha256 \<Rightarrow> and_then (ok_or init (sha256_new Sha_Generic)) (\<lambda>s. Ok (Some (sha256_hash data s)))
     | Ck_Label \<Rightarrow> and_then (ok_or init (sha256_new Sha_Generic)) (\<lambda>s. Ok (Some (sha256_hash data s)))
     | Ck_Sha512_256 \<Rightarrow>
         if feature_sha512 E then Ok (Some (sha512_256_words E data ord))
         else Err (UnsupportedFeature (checksum_name kind))
     | Ck_Blake3 \<Rightarrow>
         if feature_blake3 E then
           (case salt of Some salt \<Rightarrow> Ok (Some (blake3_words E data salt ord))
            | None \<Rightarrow> Err (UnsupportedFeature ''csum_blake3_no_salt''))
         else Err (UnsupportedFeature (checksum_name kind))
     | _ \<Rightarrow> Err (UnsupportedFeature (checksum_name kind)))"

definition verify_block ::
  "'r env \<Rightarrow> checksum_type \<Rightarrow> endian_order \<Rightarrow> bytes \<Rightarrow> checksum_value \<Rightarrow> bytes option \<Rightarrow> u64 \<Rightarrow> u64 \<Rightarrow> (error, unit) result" where
  "verify_block E kind ord data expected salt vdev off =
     and_then (computed_words E kind ord data salt (ChecksumMismatch vdev off ''csum_init'')) (\<lambda>computed.
     case computed of
       None \<Rightarrow> Ok ()
     | Some ws \<Rightarrow> if ws = cv_words expected then Ok ()
         else Err (ChecksumMismatch vdev off (checksum_name kind)))"

lemma computed_words_not_Panic: "computed_words E kind ord data salt init \<noteq> Panic"
  by (cases kind) (auto simp: computed_words_def and_then_Panic_iff split: option.split)

lemma verify_block_not_Panic: "verify_block E kind ord data expected salt vdev off \<noteq> Panic"
  by (auto simp: verify_block_def and_then_Panic_iff computed_words_not_Panic split: option.splits if_splits)

text \<open>The outcome does not depend on the position that an error reports.\<close>

lemma verify_block_Ok_cong:
  "verify_block E kind ord data expected salt vdev off = Ok () \<longleftrightarrow>
   verify_block E kind ord data expected salt vdev' off' = Ok ()"
  by (cases kind) (auto simp: verify_block_def computed_words_def and_then_Ok_iff split: option.splits if_splits)

end
