(* ===== verification/Vdev.thy ===== *)
theory Vdev
  imports Compress Cksum
begin

text \<open>
  \<open>vdev.rs\<close>: reading a block through its pointer, from a single device, the sides of a mirror or
  the columns of a raidz1 group.

  A loop that may return early is a recursion over the list it iterates; its result is \<^const>\<open>Inl\<close>
  of what the function returns, or \<^const>\<open>Inr\<close> of the error to report when no copy is left.
\<close>

definition LABEL_RESERVE :: u64 where "LABEL_RESERVE = 4 * 1024 * 1024"
definition ASHIFT_MAX :: u8 where "ASHIFT_MAX = 16"

datatype layout =
    Single nat
  | Mirror "nat list"
  | RaidZ1 "nat option list" u8  \<comment> \<open>children, ashift\<close>

record topology =
  topo_layout :: layout
  topo_checksum_salt :: "bytes option"

text \<open>\<open>iter().flatten()\<close> of options.\<close>

definition flatten :: "'a option list \<Rightarrow> 'a list" where
  "flatten xs = List.map_filter (\<lambda>x. x) xs"

definition topology_members :: "topology \<Rightarrow> nat list" where
  "topology_members topo = (case topo_layout topo of
     Single idx \<Rightarrow> [idx] | Mirror children \<Rightarrow> children | RaidZ1 children ashift \<Rightarrow> flatten children)"

definition read_order :: "topology \<Rightarrow> nat list" where
  "read_order topo = (case topo_layout topo of
     Single idx \<Rightarrow> [idx] | Mirror children \<Rightarrow> children | RaidZ1 children ashift \<Rightarrow> [])"

definition dva_byte_offset :: "u64 \<Rightarrow> u64 option" where
  "dva_byte_offset sector_offset =
     (case checked_mul sector_offset (push_bit 9 1) of
        None \<Rightarrow> None
      | Some b \<Rightarrow> checked_add b LABEL_RESERVE)"

section \<open>RAID-Z\<close>

record raidz_col =
  rc_devidx :: nat
  rc_offset :: u64
  rc_size :: nat
  rc_parity :: bool

definition raidz_geom :: error where
  "raidz_geom = Inconsistent ''raidz_geom'' (Loc_Vdev 0)"

definition raidz_map :: "dva \<Rightarrow> u8 \<Rightarrow> u64 \<Rightarrow> u64 \<Rightarrow> nat \<Rightarrow> (error, raidz_col list) result" where
  "raidz_map dva ashift dcols nparity psize =
     (if dcols \<le> nparity \<or> \<not> (9 \<le> ashift \<and> ashift \<le> ASHIFT_MAX) then Err raidz_geom
      else
        let ash = unat ashift;
            secsize = push_bit ash 1 :: u64;
            b = drop_bit (ash - 9) (dva_offset dva);
            s = drop_bit ash (of_nat psize + secsize - 1) in
        if s = 0 then Err raidz_geom
        else
          let f = b mod dcols;
              o' = push_bit ash (b div dcols);
              q = s div (dcols - nparity);
              r = s - q * (dcols - nparity);
              bc = (if r = 0 then 0 else r + nparity);
              acols = (if q = 0 then bc else dcols) in
          Ok (map (\<lambda>i.
            let c = of_nat i;
                col = f + c;
                (devidx, coff) = (if dcols \<le> col then (unat (col - dcols), o' + secsize) else (unat col, o'));
                sz = (if c < bc then (q + 1) * secsize else q * secsize) in
            \<lparr>rc_devidx = devidx, rc_offset = coff, rc_size = unat sz, rc_parity = c < nparity\<rparr>)
            [0..<unat acols]))"

text \<open>One column: \<^const>\<open>None\<close> for a missing child, an offset out of range or a failed read.\<close>

definition raidz1_read_column ::
  "'r env \<Rightarrow> nat option list \<Rightarrow> u32 \<Rightarrow> raidz_col \<Rightarrow> 'r pool_member list \<Rightarrow> bytes option \<times> 'r pool_member list" where
  "raidz1_read_column E children vdev col ms =
     (case index_get children (rc_devidx col) of
        Some (Some mi) \<Rightarrow>
          (case checked_add LABEL_RESERVE (rc_offset col) of
             None \<Rightarrow> (None, ms)
           | Some byte \<Rightarrow>
               if mi < length ms then
                 (case read_exact E mi byte (rc_size col) (ucast vdev) ''io_raidz'' ms of
                    (Ok buf, ms') \<Rightarrow> (Some buf, ms')
                  | (_, ms') \<Rightarrow> (None, ms'))
               else (None, ms))
      | _ \<Rightarrow> (None, ms))"

fun raidz1_read_columns ::
  "'r env \<Rightarrow> nat option list \<Rightarrow> raidz_col list \<Rightarrow> u32 \<Rightarrow> 'r pool_member list \<Rightarrow> bytes option list \<times> 'r pool_member list" where
  "raidz1_read_columns E children [] vdev ms = ([], ms)"
| "raidz1_read_columns E children (col # cols) vdev ms =
     (let (buf, ms) = raidz1_read_column E children vdev col ms;
          (bufs, ms) = raidz1_read_columns E children cols vdev ms in
      (buf # bufs, ms))"

fun raidz1_gather :: "(nat \<times> raidz_col) list \<Rightarrow> bytes option list \<Rightarrow> nat option \<Rightarrow> bytes option \<Rightarrow> bytes option" where
  "raidz1_gather [] colbufs replace_idx replacement = Some []"
| "raidz1_gather ((i, col) # cols) colbufs replace_idx replacement =
     (if rc_parity col then raidz1_gather cols colbufs replace_idx replacement
      else
        (case (if Some i = replace_idx then replacement
               else (case index_get colbufs i of Some buf \<Rightarrow> buf | None \<Rightarrow> None)) of
           None \<Rightarrow> None
         | Some part \<Rightarrow>
             (case raidz1_gather cols colbufs replace_idx replacement of
                None \<Rightarrow> None | Some rest \<Rightarrow> Some (part @ rest))))"

definition raidz1_assemble ::
  "raidz_col list \<Rightarrow> bytes option list \<Rightarrow> nat \<Rightarrow> nat option \<Rightarrow> bytes option \<Rightarrow> bytes option" where
  "raidz1_assemble cols colbufs psize replace_idx replacement =
     (case raidz1_gather (enumerate 0 cols) colbufs replace_idx replacement of
        None \<Rightarrow> None
      | Some data \<Rightarrow> if length data < psize then None else Some (take psize data))"

text \<open>\<open>for (k, b) in other.iter().enumerate().take(size) { rebuilt[k] ^= b }\<close>.\<close>

definition xor_into :: "bytes \<Rightarrow> bytes \<Rightarrow> bytes" where
  "xor_into rebuilt other =
     map2 (XOR) (take (length other) rebuilt) (take (length rebuilt) other) @ drop (length other) rebuilt"

fun raidz1_xor_columns :: "nat list \<Rightarrow> bytes option list \<Rightarrow> nat \<Rightarrow> bytes \<Rightarrow> bytes option" where
  "raidz1_xor_columns [] colbufs target rebuilt = Some rebuilt"
| "raidz1_xor_columns (i # is) colbufs target rebuilt =
     (if i = 0 \<or> i = target then raidz1_xor_columns is colbufs target rebuilt
      else
        (case index_get colbufs i of
           Some (Some other) \<Rightarrow> raidz1_xor_columns is colbufs target (xor_into rebuilt other)
         | _ \<Rightarrow> None))"

definition raidz1_reconstruct :: "raidz_col list \<Rightarrow> bytes option list \<Rightarrow> nat \<Rightarrow> bytes option" where
  "raidz1_reconstruct cols colbufs target =
     (case index_get colbufs 0 of
        Some (Some parity) \<Rightarrow>
          (case index_get cols target of
             None \<Rightarrow> None
           | Some col \<Rightarrow>
               let size = rc_size col;
                   n = min size (length parity);
                   rebuilt = take n parity @ replicate (size - n) 0 in
               raidz1_xor_columns [0..<length cols] colbufs target rebuilt)
      | _ \<Rightarrow> None)"

definition verify_regular :: "'r env \<Rightarrow> bytes option \<Rightarrow> bp_regular \<Rightarrow> dva \<Rightarrow> bytes \<Rightarrow> (error, unit) result" where
  "verify_regular E salt r dva raw =
     verify_block E (bpr_checksum_type r) (bpr_order r) raw (bpr_checksum_value r) salt
       (ucast (dva_vdev dva)) (dva_offset dva)"

text \<open>The rebuild loop over the columns; \<^const>\<open>None\<close> when no column gives a verified block.\<close>

fun raidz1_rebuild ::
  "(bytes \<Rightarrow> bool) \<Rightarrow> raidz_col list \<Rightarrow> bytes option list \<Rightarrow> nat \<Rightarrow> (nat \<times> raidz_col) list \<Rightarrow> bytes option" where
  "raidz1_rebuild verify cols colbufs psize [] = None"
| "raidz1_rebuild verify cols colbufs psize ((i, col) # rest) =
     (if rc_parity col then raidz1_rebuild verify cols colbufs psize rest
      else
        (case raidz1_reconstruct cols colbufs i of
           None \<Rightarrow> raidz1_rebuild verify cols colbufs psize rest
         | Some rebuilt \<Rightarrow>
             (case raidz1_assemble cols colbufs psize (Some i) (Some rebuilt) of
                Some raw \<Rightarrow> if verify raw then Some raw else raidz1_rebuild verify cols colbufs psize rest
              | None \<Rightarrow> raidz1_rebuild verify cols colbufs psize rest)))"

text \<open>The first verified block of a set of column buffers, with or without reconstruction.\<close>

definition raidz1_recover :: "(bytes \<Rightarrow> bool) \<Rightarrow> raidz_col list \<Rightarrow> bytes option list \<Rightarrow> nat \<Rightarrow> bytes option" where
  "raidz1_recover verify cols colbufs psize =
     (case raidz1_assemble cols colbufs psize None None of
        Some raw \<Rightarrow> if verify raw then Some raw else raidz1_rebuild verify cols colbufs psize (enumerate 0 cols)
      | None \<Rightarrow> raidz1_rebuild verify cols colbufs psize (enumerate 0 cols))"

fun raidz1_read_dvas ::
  "'r env \<Rightarrow> nat option list \<Rightarrow> u8 \<Rightarrow> bytes option \<Rightarrow> bp_regular \<Rightarrow> nat \<Rightarrow> nat \<Rightarrow> dva list \<Rightarrow> error \<Rightarrow>
   ('r, bytes) zio" where
  "raidz1_read_dvas E children ashift salt r psize lsize [] lst ms = (Err lst, ms)"
| "raidz1_read_dvas E children ashift salt r psize lsize (dva # dvas) lst ms =
     (case raidz_map dva ashift (of_nat (length children)) 1 psize of
        Ok cols \<Rightarrow>
          let (colbufs, ms) = raidz1_read_columns E children cols (dva_vdev dva) ms in
          (case raidz1_recover (\<lambda>raw. is_ok (verify_regular E salt r dva raw)) cols colbufs psize of
             Some raw \<Rightarrow> (decompress E (bpr_compression r) raw lsize, ms)
           | None \<Rightarrow> raidz1_read_dvas E children ashift salt r psize lsize dvas
               (ChecksumMismatch (ucast (dva_vdev dva)) (dva_offset dva) ''raidz_unrecoverable'') ms)
      | Err e \<Rightarrow> raidz1_read_dvas E children ashift salt r psize lsize dvas e ms
      | Panic \<Rightarrow> (Panic, ms))"

definition raidz1_read ::
  "'r env \<Rightarrow> nat option list \<Rightarrow> u8 \<Rightarrow> bytes option \<Rightarrow> bp_regular \<Rightarrow> nat \<Rightarrow> nat \<Rightarrow> ('r, bytes) zio" where
  "raidz1_read E children ashift salt r psize lsize =
     raidz1_read_dvas E children ashift salt r psize lsize (flatten (bpr_dvas r))
       (Inconsistent ''raidz_no_copy'' (Loc_Vdev 0))"

section \<open>Single devices and mirrors\<close>

text \<open>
  The copies of one address, in the order of the members. Verification never panics
  (\<open>verify_block_not_Panic\<close> in \<open>Cksum\<close>), so the last case of the inner distinction does not occur.
\<close>

fun read_copies ::
  "'r env \<Rightarrow> bytes option \<Rightarrow> bp_regular \<Rightarrow> nat \<Rightarrow> dva \<Rightarrow> u64 \<Rightarrow> nat list \<Rightarrow> error \<Rightarrow>
   'r pool_member list \<Rightarrow> (bytes + error) \<times> 'r pool_member list" where
  "read_copies E salt r psize dva byte [] lst ms = (Inr lst, ms)"
| "read_copies E salt r psize dva byte (mi # mis) lst ms =
     (if mi < length ms then
        (case read_exact E mi byte psize (ucast (dva_vdev dva)) ''io_block'' ms of
           (Ok raw, ms') \<Rightarrow>
             (case verify_regular E salt r dva raw of
                Ok _ \<Rightarrow> (Inl raw, ms')
              | Err e \<Rightarrow> read_copies E salt r psize dva byte mis e ms'
              | Panic \<Rightarrow> read_copies E salt r psize dva byte mis lst ms')
         | (_, ms') \<Rightarrow>
             read_copies E salt r psize dva byte mis (Io ''io_block'' (ucast (dva_vdev dva)) byte) ms')
      else read_copies E salt r psize dva byte mis lst ms)"

fun read_dvas ::
  "'r env \<Rightarrow> topology \<Rightarrow> bp_regular \<Rightarrow> nat \<Rightarrow> nat \<Rightarrow> dva list \<Rightarrow> error \<Rightarrow> ('r, bytes) zio" where
  "read_dvas E topo r psize lsize [] lst ms = (Err lst, ms)"
| "read_dvas E topo r psize lsize (dva # dvas) lst ms =
     (case dva_byte_offset (dva_offset dva) of
        None \<Rightarrow> read_dvas E topo r psize lsize dvas (Inconsistent ''dva_out_of_range'' Loc_Mos) ms
      | Some byte \<Rightarrow>
          (case read_copies E (topo_checksum_salt topo) r psize dva byte (read_order topo) lst ms of
             (Inl raw, ms') \<Rightarrow> (decompress E (bpr_compression r) raw lsize, ms')
           | (Inr lst, ms') \<Rightarrow> read_dvas E topo r psize lsize dvas lst ms'))"

fun check_dvas :: "dva list \<Rightarrow> (error, unit) result" where
  "check_dvas [] = Ok ()"
| "check_dvas (dva # dvas) =
     (if dva_is_gang dva then Err (Unsupported ''gang_block'')
      else if dva_vdev dva \<noteq> 0 then Err (Inconsistent ''dva_vdev'' Loc_Mos)
      else check_dvas dvas)"

definition read_regular :: "'r env \<Rightarrow> topology \<Rightarrow> bp_regular \<Rightarrow> ('r, bytes) zio" where
  "read_regular E topo r =
     (let lsize = push_bit 9 (unat (bpr_logical_sectors r));
          psize = push_bit 9 (unat (bpr_physical_sectors r)) in
      if psize = 0 \<or> psize > MAX_BLOCK_LSIZE then failZ (Inconsistent ''bp_bad_psize'' Loc_Mos)
      else
        bindZ (liftZ (check_dvas (flatten (bpr_dvas r)))) (\<lambda>_.
        case topo_layout topo of
          RaidZ1 children ashift \<Rightarrow> raidz1_read E children ashift (topo_checksum_salt topo) r psize lsize
        | _ \<Rightarrow> read_dvas E topo r psize lsize (flatten (bpr_dvas r)) (Inconsistent ''bp_no_readable_copy'' Loc_Mos)))"

definition read_block_pointer :: "'r env \<Rightarrow> topology \<Rightarrow> block_pointer \<Rightarrow> ('r, bytes) zio" where
  "read_block_pointer E topo bp = (case bp of
       Embedded e \<Rightarrow>
         liftZ (and_then (ok_or (Inconsistent ''embedded_short'' Loc_Mos) (slice_get (bpe_payload e) 0 (bpe_physical_size e)))
           (\<lambda>src. decompress E (bpe_compression e) src (bpe_logical_size e)))
     | Encrypted _ \<Rightarrow> failZ (UnsupportedFeature ''encryption'')
     | Regular r \<Rightarrow> read_regular E topo r)"

end
