(* ===== verification/Vdev_Props.thy ===== *)
theory Vdev_Props
  imports Vdev
begin

text \<open>
  Properties of block reads: only verified data is returned, any good copy is found, raidz1
  geometry and reconstruction, and that no pointer makes the reader panic.
\<close>

section \<open>A sample pool\<close>

text \<open>A pool of one or two identical devices with one data sector, for the witnesses.\<close>

definition sample_dva :: dva where
  "sample_dva = \<lparr>dva_allocated = 1, dva_offset = 0, dva_is_gang = False, dva_vdev = 0\<rparr>"

definition sample_regular :: bp_regular where
  "sample_regular = sample_bp_regular\<lparr>bpr_checksum_type := Ck_Off, bpr_compression := Co_Off,
     bpr_dvas := [Some sample_dva, None, None], bpr_logical_sectors := 1, bpr_physical_sectors := 1\<rparr>"

definition sample_member :: "bytes pool_member" where
  "sample_member = \<lparr>reader = replicate 4194816 7, device_size_bytes = 4194816\<rparr>"

lemma sample_offset: "dva_byte_offset (dva_offset sample_dva) = Some 4194304"
proof -
  have "checked_mul (0 :: u64) (push_bit 9 1) = Some 0" "checked_add 0 (LABEL_RESERVE :: u64) = Some 4194304"
    by (simp_all add: checked_mul_Some_iff checked_add_Some_iff LABEL_RESERVE_def)
  then show ?thesis by (simp add: dva_byte_offset_def sample_dva_def)
qed

lemma sample_read: "read_at mem_env (reader sample_member) 4194304 512 = (Some (replicate 512 7), reader sample_member)"
  by (simp add: mem_env_def mem_read_at_def sample_member_def slice_get_def)

lemma sample_verify: "verify_regular mem_env salt sample_regular dva raw = Ok ()"
  by (simp add: verify_regular_def sample_regular_def verify_block_def computed_words_def)

lemma sample_decompress: "decompress mem_env (bpr_compression sample_regular) (replicate 512 7) 512 = Ok (replicate 512 7)"
  by (simp add: decompress_def sample_regular_def MAX_BLOCK_LSIZE_def slice_get_def)

lemma sample_fields: "flatten (bpr_dvas sample_regular) = [sample_dva]" "unat (bpr_logical_sectors sample_regular) = 1"
  "unat (bpr_physical_sectors sample_regular) = 1" "\<not> dva_is_gang sample_dva" "dva_vdev sample_dva = 0"
  by (simp_all add: sample_regular_def flatten_def map_filter_def sample_dva_def)

section \<open>Contracts of the read loops\<close>

lemma raidz1_read_column_length: "length (snd (raidz1_read_column E children vdev col ms)) = length ms"
  by (auto simp: raidz1_read_column_def read_exact_def split: option.splits prod.splits result.splits if_splits)

lemma raidz1_read_columns_length:
  "length (fst (raidz1_read_columns E children cols vdev ms)) = length cols"
  "length (snd (raidz1_read_columns E children cols vdev ms)) = length ms"
proof (induction cols arbitrary: ms)
  case (Cons col cols)
  case 1 show ?case using Cons(1) by (simp add: case_prod_unfold Let_def)
  case 2 show ?case using Cons(2) by (simp add: case_prod_unfold Let_def raidz1_read_column_length)
qed simp_all

lemma raidz_map_not_Panic: "raidz_map dva ashift dcols nparity psize \<noteq> Panic"
  by (simp add: raidz_map_def Let_def)

lemma safeZ_raidz1_read_dvas:
  "safeZ (raidz1_read_dvas E children ashift salt r psize lsize dvas lst)"
proof -
  have "fst (raidz1_read_dvas E children ashift salt r psize lsize dvas lst ms) \<noteq> Panic \<and>
    length (snd (raidz1_read_dvas E children ashift salt r psize lsize dvas lst ms)) = length ms" for ms
  proof (induction dvas arbitrary: lst ms)
    case (Cons dva dvas)
    show ?case
    proof (cases "raidz_map dva ashift (of_nat (length children)) 1 psize")
      case (Ok cols)
      then show ?thesis
        using Cons raidz1_read_columns_length(2)[of E children cols "dva_vdev dva" ms]
        by (auto simp: case_prod_unfold Let_def decompress_not_Panic split: option.split)
    qed (use Cons raidz_map_not_Panic in simp_all)
  qed simp
  then show ?thesis by (simp add: safeZ_def)
qed

lemma read_copies_length: "length (snd (read_copies E salt r psize dva byte mis lst ms)) = length ms"
proof (induction mis arbitrary: lst ms)
  case (Cons mi mis)
  have "length ms' = length ms" if "read_exact E mi byte psize vdev token ms = (x, ms')" for vdev token x ms'
    using that by (auto simp: read_exact_def split: prod.splits option.splits)
  then show ?case using Cons by (auto split: prod.splits result.splits)
qed simp

lemma safeZ_read_dvas: "safeZ (read_dvas E topo r psize lsize dvas lst)"
proof -
  have "fst (read_dvas E topo r psize lsize dvas lst ms) \<noteq> Panic \<and>
    length (snd (read_dvas E topo r psize lsize dvas lst ms)) = length ms" for ms
  proof (induction dvas arbitrary: lst ms)
    case (Cons dva dvas)
    have "length ms' = length ms" if "read_copies E salt r psize dva byte mis lst ms = (x, ms')" for salt byte mis x ms'
      using read_copies_length[of E salt r psize dva byte mis lst ms] that by simp
    then show ?case using Cons
      by (auto simp: decompress_not_Panic split: prod.split sum.split option.split)
  qed simp
  then show ?thesis by (simp add: safeZ_def)
qed

lemma check_dvas_not_Panic: "check_dvas dvas \<noteq> Panic"
  by (induction dvas) auto

lemma safeZ_read_block_pointer [zio_intro]: "safeZ (read_block_pointer E topo bp)"
proof (cases bp)
  case (Embedded e)
  then show ?thesis
    by (auto simp: read_block_pointer_def and_then_Panic_iff decompress_not_Panic intro!: zio_intro)
next
  case (Encrypted p)
  then show ?thesis by (simp add: read_block_pointer_def safeZ_fail)
next
  case (Regular r)
  have "safeZ (case topo_layout topo of
          RaidZ1 children ashift \<Rightarrow> raidz1_read E children ashift (topo_checksum_salt topo) r psize lsize
        | _ \<Rightarrow> read_dvas E topo r psize lsize (flatten (bpr_dvas r)) lst)" for psize lsize lst
    by (simp add: raidz1_read_def safeZ_raidz1_read_dvas safeZ_read_dvas split: layout.split)
  then show ?thesis unfolding Regular read_block_pointer_def read_regular_def Let_def block_pointer.case
    by (intro zio_intro check_dvas_not_Panic)
qed

lemma pureZ_read_exactD:
  "steady E \<Longrightarrow> read_exact E mi byte n vdev token ms = (x, ms') \<Longrightarrow> ms' = ms"
  using pureZ_read_exact[of E mi byte n vdev token] unfolding pureZ_def by (metis snd_conv)

lemma raidz1_read_columns_steady: "steady E \<Longrightarrow> snd (raidz1_read_columns E children cols vdev ms) = ms"
proof (induction cols arbitrary: ms)
  case (Cons col cols)
  have "snd (raidz1_read_column E children vdev col ms) = ms"
    using pureZ_read_exactD[OF Cons.prems]
    by (auto simp: raidz1_read_column_def split: option.splits prod.splits result.splits if_splits)
  then show ?case using Cons by (simp add: case_prod_unfold Let_def)
qed simp

lemma raidz1_read_dvas_steady:
  "steady E \<Longrightarrow> snd (raidz1_read_dvas E children ashift salt r psize lsize dvas lst ms) = ms"
proof (induction dvas arbitrary: lst ms)
  case (Cons dva dvas)
  then show ?case
    by (cases "raidz_map dva ashift (of_nat (length children)) 1 psize")
      (auto simp: case_prod_unfold Let_def raidz1_read_columns_steady split: option.split)
qed simp

lemma read_copies_steady: "steady E \<Longrightarrow> snd (read_copies E salt r psize dva byte mis lst ms) = ms"
proof (induction mis arbitrary: lst ms)
  case (Cons mi mis)
  then show ?case using pureZ_read_exactD[OF Cons.prems]
    by (auto split: prod.splits result.splits)
qed simp

lemma read_dvas_steady: "steady E \<Longrightarrow> snd (read_dvas E topo r psize lsize dvas lst ms) = ms"
proof (induction dvas arbitrary: lst ms)
  case (Cons dva dvas)
  have "ms' = ms" if "read_copies E salt r psize dva byte mis lst ms = (x, ms')" for salt byte mis x ms'
    using read_copies_steady[OF Cons.prems, of salt r psize dva byte mis lst ms] that by simp
  then show ?case using Cons by (auto split: prod.split sum.split option.split)
qed simp

lemma pureZ_read_block_pointer [pure_intro]:
  assumes "steady E"
  shows "pureZ (read_block_pointer E topo bp)"
proof (cases bp)
  case (Regular r)
  have "pureZ (case topo_layout topo of
          RaidZ1 children ashift \<Rightarrow> raidz1_read E children ashift (topo_checksum_salt topo) r psize lsize
        | _ \<Rightarrow> read_dvas E topo r psize lsize (flatten (bpr_dvas r)) lst)" for psize lsize lst
    using assms
    by (simp add: pureZ_def raidz1_read_def raidz1_read_dvas_steady read_dvas_steady split: layout.split)
  then show ?thesis unfolding Regular read_block_pointer_def read_regular_def Let_def block_pointer.case
    by (intro pure_intro)
qed (simp_all add: read_block_pointer_def pure_intro)

section \<open>Integrity\<close>

lemma read_copies_Inl:
  "read_copies E salt r psize dva byte mis lst ms = (Inl raw, ms') \<Longrightarrow> verify_regular E salt r dva raw = Ok ()"
  by (induction mis arbitrary: lst ms) (auto split: if_splits prod.splits result.splits)

context pool_env
begin

lemma read_exact_length: "read_exact E mi off n vdev token ms = (Ok bs, ms') \<Longrightarrow> length bs = n"
  using read_at_length by (auto simp: read_exact_def split: prod.splits option.splits)

lemma read_copies_verified:
  "read_copies E salt r psize dva byte mis lst ms = (Inl raw, ms') \<Longrightarrow>
   length raw = psize \<and> verify_regular E salt r dva raw = Ok ()"
proof (induction mis arbitrary: lst ms)
  case (Cons mi mis)
  then show ?case
    using read_exact_length by (auto split: if_splits prod.splits result.splits)
qed simp

lemma read_dvas_verified:
  "fst (read_dvas E topo r psize lsize dvas lst ms) = Ok data \<Longrightarrow>
   \<exists>dva \<in> set dvas. \<exists>raw. length raw = psize \<and> verify_regular E (topo_checksum_salt topo) r dva raw = Ok () \<and>
     decompress E (bpr_compression r) raw lsize = Ok data"
proof (induction dvas arbitrary: lst ms)
  case (Cons dva dvas)
  show ?case
  proof (cases "dva_byte_offset (dva_offset dva)")
    case None
    then show ?thesis using Cons by auto
  next
    case (Some byte)
    obtain x ms' where rc: "read_copies E (topo_checksum_salt topo) r psize dva byte (read_order topo) lst ms = (x, ms')"
      by (cases "read_copies E (topo_checksum_salt topo) r psize dva byte (read_order topo) lst ms")
    show ?thesis
    proof (cases x)
      case (Inl raw)
      then show ?thesis using Cons.prems Some rc read_copies_verified[OF rc[unfolded Inl]] by auto
    next
      case (Inr e)
      then show ?thesis using Cons Some rc by auto
    qed
  qed
qed simp

end

lemma raidz1_assemble_length: "raidz1_assemble cols colbufs psize i x = Some raw \<Longrightarrow> length raw = psize"
  by (auto simp: raidz1_assemble_def split: option.splits if_splits)

lemma raidz1_rebuild_verified:
  "raidz1_rebuild verify cols colbufs psize rest = Some raw \<Longrightarrow> verify raw \<and> length raw = psize"
proof (induction rest)
  case (Cons ic rest)
  obtain i col where [simp]: "ic = (i, col)" by (cases ic)
  show ?case using Cons raidz1_assemble_length
    by (auto split: if_splits option.splits)
qed simp

lemma raidz1_recover_verified:
  "raidz1_recover verify cols colbufs psize = Some raw \<Longrightarrow> verify raw \<and> length raw = psize"
  by (auto simp: raidz1_recover_def dest: raidz1_rebuild_verified raidz1_assemble_length
      split: option.splits if_splits)

lemma raidz1_read_dvas_verified:
  "fst (raidz1_read_dvas E children ashift salt r psize lsize dvas lst ms) = Ok data \<Longrightarrow>
   \<exists>dva \<in> set dvas. \<exists>raw. length raw = psize \<and> verify_regular E salt r dva raw = Ok () \<and>
     decompress E (bpr_compression r) raw lsize = Ok data"
proof (induction dvas arbitrary: lst ms)
  case (Cons dva dvas)
  show ?case
  proof (cases "raidz_map dva ashift (of_nat (length children)) 1 psize")
    case (Ok cols)
    let ?v = "\<lambda>raw. is_ok (verify_regular E salt r dva raw)"
    obtain bufs ms' where rc: "raidz1_read_columns E children cols (dva_vdev dva) ms = (bufs, ms')"
      by (cases "raidz1_read_columns E children cols (dva_vdev dva) ms")
    show ?thesis
    proof (cases "raidz1_recover ?v cols bufs psize")
      case None
      then show ?thesis using Cons Ok rc by auto
    next
      case (Some raw)
      then have "length raw = psize" "verify_regular E salt r dva raw = Ok ()"
        using raidz1_recover_verified[OF Some] by (auto simp: is_ok_iff)
      then show ?thesis using Cons.prems Ok rc Some by auto
    qed
  qed (use Cons in auto)
qed simp

lemma check_dvas_Ok: "check_dvas dvas = Ok () \<Longrightarrow> \<forall>dva \<in> set dvas. \<not> dva_is_gang dva \<and> dva_vdev dva = 0"
  by (induction dvas) (auto split: if_splits)

text \<open>
  C1. A block read through a regular pointer is never returned unverified: whatever the layout,
  what is returned was decompressed from as many bytes as the pointer's physical size that match
  the pointer's checksum, and has exactly the pointer's logical size, at most 16 MiB.
\<close>

theorem read_block_pointer_integrity:
  assumes "pool_env E" "fst (read_block_pointer E topo (Regular r) ms) = Ok data"
  shows "\<exists>dva \<in> set (flatten (bpr_dvas r)). \<exists>raw. \<not> dva_is_gang dva \<and> dva_vdev dva = 0 \<and>
    length raw = 512 * unat (bpr_physical_sectors r) \<and>
    verify_regular E (topo_checksum_salt topo) r dva raw = Ok () \<and>
    decompress E (bpr_compression r) raw (512 * unat (bpr_logical_sectors r)) = Ok data \<and>
    length data = 512 * unat (bpr_logical_sectors r) \<and> length data \<le> MAX_BLOCK_LSIZE"
proof -
  let ?lsize = "512 * unat (bpr_logical_sectors r)" and ?psize = "512 * unat (bpr_physical_sectors r)"
  have sz: "push_bit 9 n = 512 * n" for n :: nat by (simp add: push_bit_eq_mult)
  have ok: "check_dvas (flatten (bpr_dvas r)) = Ok ()"
    "fst ((case topo_layout topo of
          RaidZ1 children ashift \<Rightarrow> raidz1_read E children ashift (topo_checksum_salt topo) r ?psize ?lsize
        | _ \<Rightarrow> read_dvas E topo r ?psize ?lsize (flatten (bpr_dvas r)) (Inconsistent ''bp_no_readable_copy'' Loc_Mos)) ms) = Ok data"
    using assms(2) unfolding read_block_pointer_def read_regular_def
    by (auto simp: Let_def sz failZ_def liftZ_def bindZ_def split: if_splits result.splits)
  have "\<exists>dva \<in> set (flatten (bpr_dvas r)). \<exists>raw. length raw = ?psize \<and>
    verify_regular E (topo_checksum_salt topo) r dva raw = Ok () \<and>
    decompress E (bpr_compression r) raw ?lsize = Ok data"
  proof (cases "topo_layout topo")
    case (Single mi)
    with ok(2) have "fst (read_dvas E topo r ?psize ?lsize (flatten (bpr_dvas r)) (Inconsistent ''bp_no_readable_copy'' Loc_Mos) ms) = Ok data"
      by simp
    from pool_env.read_dvas_verified[OF assms(1) this] show ?thesis .
  next
    case (Mirror children)
    with ok(2) have "fst (read_dvas E topo r ?psize ?lsize (flatten (bpr_dvas r)) (Inconsistent ''bp_no_readable_copy'' Loc_Mos) ms) = Ok data"
      by simp
    from pool_env.read_dvas_verified[OF assms(1) this] show ?thesis .
  next
    case (RaidZ1 children ashift)
    with ok(2) have "fst (raidz1_read_dvas E children ashift (topo_checksum_salt topo) r ?psize ?lsize
        (flatten (bpr_dvas r)) (Inconsistent ''raidz_no_copy'' (Loc_Vdev 0)) ms) = Ok data"
      by (simp add: raidz1_read_def)
    from raidz1_read_dvas_verified[OF this] show ?thesis .
  qed
  then obtain dva raw where dva: "dva \<in> set (flatten (bpr_dvas r))" and raw: "length raw = ?psize"
    "verify_regular E (topo_checksum_salt topo) r dva raw = Ok ()"
    "decompress E (bpr_compression r) raw ?lsize = Ok data" by auto
  have "\<not> dva_is_gang dva \<and> dva_vdev dva = 0" using check_dvas_Ok[OF ok(1)] dva by simp
  moreover have "length data = ?lsize \<and> ?lsize \<le> MAX_BLOCK_LSIZE"
    using pool_env.decompress_length[OF assms(1) raw(3)] .
  ultimately show ?thesis using raw dva by (intro bexI[OF _ dva] exI[of _ raw]) simp
qed

theorem read_block_pointer_integrity_witness:
  "\<exists>data dva raw. read_block_pointer mem_env \<lparr>topo_layout = Single 0, topo_checksum_salt = None\<rparr>
      (Regular sample_regular) [sample_member] = (Ok data, [sample_member]) \<and>
    dva \<in> set (flatten (bpr_dvas sample_regular)) \<and> verify_regular mem_env None sample_regular dva raw = Ok () \<and>
    length data = 512"
proof -
  let ?topo = "\<lparr>topo_layout = Single 0, topo_checksum_salt = None\<rparr>"
  have ok: "read_block_pointer mem_env ?topo (Regular sample_regular) [sample_member] =
      (Ok (replicate 512 7), [sample_member])"
    by (simp add: read_block_pointer_def read_regular_def sample_fields MAX_BLOCK_LSIZE_def push_bit_eq_mult bindZ_def
        liftZ_def read_order_def sample_offset read_exact_def sample_read sample_verify sample_decompress)
  have "fst (read_block_pointer mem_env ?topo (Regular sample_regular) [sample_member]) = Ok (replicate 512 7)"
    by (simp add: ok)
  from read_block_pointer_integrity[OF mem.pool_env_axioms this] ok show ?thesis
    by (auto simp: sample_fields)
qed

section \<open>Copies\<close>

lemma read_exact_same_reader:
  assumes "steady E" "read_at E (reader (ms ! mi)) byte n = (Some raw, r')"
  shows "read_exact E mi byte n vdev token ms = (Ok raw, ms)"
proof -
  have eq: "read_exact E mi byte n vdev token ms = (Ok raw, ms[mi := (ms ! mi)\<lparr>reader := r'\<rparr>])"
    using assms(2) by (simp add: read_exact_def)
  show ?thesis using eq pureZ_read_exactD[OF assms(1) eq] by simp
qed

text \<open>A good copy of a block: a member to be read holds, at the place an address of the pointer gives, bytes that match the checksum.\<close>

definition verified_copy ::
  "'r env \<Rightarrow> topology \<Rightarrow> bp_regular \<Rightarrow> 'r pool_member list \<Rightarrow> dva \<Rightarrow> nat \<Rightarrow> bytes \<Rightarrow> bool" where
  "verified_copy E topo r ms dva mi raw \<longleftrightarrow>
     dva \<in> set (flatten (bpr_dvas r)) \<and> mi \<in> set (read_order topo) \<and> mi < length ms \<and>
     (case dva_byte_offset (dva_offset dva) of
        None \<Rightarrow> False
      | Some byte \<Rightarrow> fst (read_at E (reader (ms ! mi)) byte (512 * unat (bpr_physical_sectors r))) = Some raw) \<and>
     verify_regular E (topo_checksum_salt topo) r dva raw = Ok ()"

lemma read_copies_finds:
  assumes "steady E" "mi \<in> set mis" "mi < length ms" "fst (read_at E (reader (ms ! mi)) byte psize) = Some raw"
    "verify_regular E salt r dva raw = Ok ()"
  shows "\<exists>raw'. read_copies E salt r psize dva byte mis lst ms = (Inl raw', ms)"
  using assms(2)
proof (induction mis arbitrary: lst)
  case (Cons m mis)
  show ?case
  proof (cases "m = mi")
    case True
    obtain r' where "read_at E (reader (ms ! mi)) byte psize = (Some raw, r')"
      using assms(4) by (metis prod.collapse)
    then show ?thesis using read_exact_same_reader[OF assms(1)] True assms(3,5) by auto
  next
    case False
    then have ih: "\<exists>raw'. read_copies E salt r psize dva byte mis lst ms = (Inl raw', ms)" for lst
      using Cons by simp
    obtain x ms' where re: "read_exact E m byte psize (ucast (dva_vdev dva)) ''io_block'' ms = (x, ms')"
      by (cases "read_exact E m byte psize (ucast (dva_vdev dva)) ''io_block'' ms")
    then have ms': "ms' = ms" using pureZ_read_exactD[OF assms(1) re] by simp
    from ih re ms' show ?thesis
      by (cases x) (auto split: result.split)
  qed
qed simp

lemma read_copies_Inl_member:
  assumes "steady E" "read_copies E salt r psize dva byte mis lst ms = (Inl raw, ms')"
  shows "\<exists>mi \<in> set mis. mi < length ms \<and> fst (read_at E (reader (ms ! mi)) byte psize) = Some raw"
  using assms(2)
proof (induction mis arbitrary: lst)
  case (Cons m mis)
  show ?case
  proof (cases "m < length ms")
    case True
    obtain x ms1 where re: "read_exact E m byte psize (ucast (dva_vdev dva)) ''io_block'' ms = (x, ms1)"
      by (cases "read_exact E m byte psize (ucast (dva_vdev dva)) ''io_block'' ms")
    then have ms1: "ms1 = ms" using pureZ_read_exactD[OF assms(1) re] by simp
    show ?thesis
    proof (cases x)
      case (Ok raw')
      then have "fst (read_at E (reader (ms ! m)) byte psize) = Some raw'"
        using re by (auto simp: read_exact_def split: prod.splits option.splits)
      then show ?thesis using Cons True re ms1 Ok by (auto split: result.splits)
    qed (use Cons True re ms1 in auto)
  qed (use Cons in auto)
qed simp

lemma read_dvas_finds:
  assumes "steady E" "verified_copy E topo r ms dva mi raw" "dva \<in> set dvas" "set dvas \<subseteq> set (flatten (bpr_dvas r))"
  shows "\<exists>dva' mi' raw'. verified_copy E topo r ms dva' mi' raw' \<and>
    read_dvas E topo r (512 * unat (bpr_physical_sectors r)) lsize dvas lst ms =
      (decompress E (bpr_compression r) raw' lsize, ms)"
  using assms(3,4)
proof (induction dvas arbitrary: lst)
  case (Cons d dvas)
  let ?psize = "512 * unat (bpr_physical_sectors r)"
  show ?case
  proof (cases "dva_byte_offset (dva_offset d)")
    case None
    then have "dva \<in> set dvas" using Cons.prems assms(2) by (auto simp: verified_copy_def)
    then show ?thesis using Cons.IH[of "Inconsistent ''dva_out_of_range'' Loc_Mos"] Cons.prems None by simp
  next
    case (Some b)
    let ?rc = "read_copies E (topo_checksum_salt topo) r ?psize d b (read_order topo) lst ms"
    obtain x where rc: "?rc = (x, ms)"
      using read_copies_steady[OF assms(1), of "topo_checksum_salt topo" r ?psize d b "read_order topo" lst ms]
      by (cases ?rc) simp
    show ?thesis
    proof (cases x)
      case (Inl raw')
      obtain mi' where "mi' \<in> set (read_order topo)" "mi' < length ms"
        "fst (read_at E (reader (ms ! mi')) b ?psize) = Some raw'"
        using read_copies_Inl_member[OF assms(1) rc[unfolded Inl]] by auto
      then have "verified_copy E topo r ms d mi' raw'"
        using read_copies_Inl[OF rc[unfolded Inl]] Cons.prems Some by (simp add: verified_copy_def)
      then show ?thesis using Some rc Inl by auto
    next
      case (Inr e)
      have "d \<noteq> dva"
      proof
        assume "d = dva"
        then have "\<exists>raw'. ?rc = (Inl raw', ms)"
          using assms(2) Some by (intro read_copies_finds[OF assms(1), of mi _ _ _ _ raw]) (simp_all add: verified_copy_def)
        with rc Inr show False by simp
      qed
      then show ?thesis using Cons.IH[of e] Cons.prems Some rc Inr by simp
    qed
  qed
qed simp

text \<open>
  C2. Self-healing over mirrors and copies: with readers that have no state of their own, on a single
  device or a mirror, if some member holds a copy, at one of the addresses of the pointer, that reads
  back at the pointer's physical size and matches the checksum, then the read is the decompression of
  such a copy, whatever the copies tried before it, and leaves the members as they were. When the
  copies that match decompress, the read succeeds.
\<close>

theorem read_block_pointer_finds_copy:
  assumes "steady E" "\<And>children ashift. topo_layout topo \<noteq> RaidZ1 children ashift"
    and "check_dvas (flatten (bpr_dvas r)) = Ok ()"
    and "0 < bpr_physical_sectors r" "512 * unat (bpr_physical_sectors r) \<le> MAX_BLOCK_LSIZE"
    and "verified_copy E topo r ms dva mi raw"
  shows "(\<exists>dva' mi' raw'. verified_copy E topo r ms dva' mi' raw' \<and>
      read_block_pointer E topo (Regular r) ms =
        (decompress E (bpr_compression r) raw' (512 * unat (bpr_logical_sectors r)), ms)) \<and>
    ((\<forall>dva' mi' raw'. verified_copy E topo r ms dva' mi' raw' \<longrightarrow>
        is_ok (decompress E (bpr_compression r) raw' (512 * unat (bpr_logical_sectors r)))) \<longrightarrow>
      (\<exists>data. read_block_pointer E topo (Regular r) ms = (Ok data, ms)))"
proof -
  have sz: "push_bit 9 n = 512 * n" for n :: nat by (simp add: push_bit_eq_mult)
  have "0 < unat (bpr_physical_sectors r)" using assms(4) by (simp add: unat_gt_0)
  then have "read_block_pointer E topo (Regular r) ms =
      read_dvas E topo r (512 * unat (bpr_physical_sectors r)) (512 * unat (bpr_logical_sectors r))
        (flatten (bpr_dvas r)) (Inconsistent ''bp_no_readable_copy'' Loc_Mos) ms"
    using assms(2,3,5)
    by (simp add: read_block_pointer_def read_regular_def Let_def sz bindZ_def liftZ_def split: layout.split)
  moreover have "dva \<in> set (flatten (bpr_dvas r))" using assms(6) by (simp add: verified_copy_def)
  ultimately have "\<exists>dva' mi' raw'. verified_copy E topo r ms dva' mi' raw' \<and>
      read_block_pointer E topo (Regular r) ms =
        (decompress E (bpr_compression r) raw' (512 * unat (bpr_logical_sectors r)), ms)"
    using read_dvas_finds[OF assms(1,6)] by simp
  then show ?thesis by (metis is_ok_iff)
qed

text \<open>A mirror whose first side cannot be read.\<close>

theorem read_block_pointer_finds_copy_witness:
  "\<exists>data. read_block_pointer mem_env \<lparr>topo_layout = Mirror [0, 1], topo_checksum_salt = None\<rparr> (Regular sample_regular)
     [sample_member\<lparr>reader := []\<rparr>, sample_member] = (Ok data, [sample_member\<lparr>reader := []\<rparr>, sample_member])"
proof -
  let ?topo = "\<lparr>topo_layout = Mirror [0, 1], topo_checksum_salt = None\<rparr>" and ?ms = "[sample_member\<lparr>reader := []\<rparr>, sample_member]"
  have pos: "0 < bpr_physical_sectors sample_regular" by (simp add: sample_regular_def)
  have empty: "fst (read_at mem_env [] byte (512 * unat (bpr_physical_sectors sample_regular))) = None" for byte
    by (simp add: mem_env_def mem_read_at_def slice_get_def sample_fields)
  have copy: "verified_copy mem_env ?topo sample_regular ?ms dva mi raw \<longleftrightarrow>
      dva = sample_dva \<and> mi = 1 \<and> raw = replicate 512 7" for dva mi raw
    using empty by (cases mi) (auto simp: verified_copy_def sample_fields read_order_def sample_offset sample_read sample_verify)
  have "verified_copy mem_env ?topo sample_regular ?ms sample_dva 1 (replicate 512 7)" by (simp only: copy)
  from read_block_pointer_finds_copy[OF mem_steady _ _ pos _ this]
  show ?thesis
    unfolding copy by (simp add: sample_fields sample_decompress MAX_BLOCK_LSIZE_def)
qed

end
