(* ===== verification/Raidz_Props.thy ===== *)
theory Raidz_Props
  imports Vdev_Props
begin

text \<open>
  RAID-Z1: the column geometry of \<open>raidz_map\<close>, and that a stripe with any one column lost or
  corrupted is still read.
\<close>

section \<open>XOR parity\<close>

definition byte_at :: "bytes \<Rightarrow> nat \<Rightarrow> u8" where
  "byte_at b k = (if k < length b then b ! k else 0)"

definition xors :: "(nat \<Rightarrow> u8) \<Rightarrow> nat list \<Rightarrow> u8" where
  "xors f is = foldr (\<lambda>i x. f i XOR x) is 0"

lemma xors_simps [simp]: "xors f [] = 0" "xors f (i # is) = f i XOR xors f is"
  by (simp_all add: xors_def)

lemma xors_remove: "distinct is \<Longrightarrow> t \<in> set is \<Longrightarrow> xors f is = f t XOR xors f (filter (\<lambda>i. i \<noteq> t) is)"
proof (induction "is")
  case (Cons i "is")
  show ?case
  proof (cases "i = t")
    case True
    then have "filter (\<lambda>i. i \<noteq> t) is = is" using Cons.prems by (auto simp: filter_id_conv)
    then show ?thesis using True by simp
  next
    case False
    then show ?thesis using Cons by (simp add: xor.left_commute)
  qed
qed simp

lemma xor_into_nth: "k < length rebuilt \<Longrightarrow> xor_into rebuilt other ! k = rebuilt ! k XOR byte_at other k"
  by (auto simp: xor_into_def byte_at_def nth_append min_def)

lemma length_xor_into [simp]: "length (xor_into rebuilt other) = length rebuilt"
  by (simp add: xor_into_def min_def)

text \<open>
  A consistent stripe: one buffer per column, of the column's size; the first column is the parity,
  the XOR of the others, which are no longer than it.
\<close>

definition raidz1_stripe :: "raidz_col list \<Rightarrow> bytes list \<Rightarrow> bool" where
  "raidz1_stripe cols bufs \<longleftrightarrow> cols \<noteq> [] \<and> length bufs = length cols \<and>
     (\<forall>i<length cols. length (bufs ! i) = rc_size (cols ! i) \<and> rc_size (cols ! i) \<le> rc_size (cols ! 0) \<and>
        (rc_parity (cols ! i) \<longleftrightarrow> i = 0)) \<and>
     (\<forall>k<rc_size (cols ! 0). bufs ! 0 ! k = xors (\<lambda>i. byte_at (bufs ! i) k) [1..<length cols])"

text \<open>Column buffers of the stripe, all but perhaps one as they were written.\<close>

definition intact_but :: "nat \<Rightarrow> bytes list \<Rightarrow> bytes option list \<Rightarrow> bool" where
  "intact_but t bufs colbufs \<longleftrightarrow> length colbufs = length bufs \<and> (\<forall>i<length bufs. i \<noteq> t \<longrightarrow> colbufs ! i = Some (bufs ! i))"

lemma raidz1_xor_columns_ok:
  assumes "\<forall>i \<in> set is. i \<noteq> 0 \<and> i \<noteq> t \<longrightarrow> index_get colbufs i = Some (Some (bufs ! i))"
  shows "\<exists>out. raidz1_xor_columns is colbufs t rebuilt = Some out \<and> length out = length rebuilt \<and>
    (\<forall>k<length rebuilt. out ! k = rebuilt ! k XOR xors (\<lambda>i. byte_at (bufs ! i) k) (filter (\<lambda>i. i \<noteq> 0 \<and> i \<noteq> t) is))"
  using assms
proof (induction "is" arbitrary: rebuilt)
  case (Cons i "is")
  show ?case
  proof (cases "i = 0 \<or> i = t")
    case True
    then show ?thesis using Cons.IH[of rebuilt] Cons.prems by auto
  next
    case False
    then have "index_get colbufs i = Some (Some (bufs ! i))" using Cons.prems by auto
    then show ?thesis using Cons.IH[of "xor_into rebuilt (bufs ! i)"] Cons.prems False
      by (auto simp: xor_into_nth xor.assoc)
  qed
qed simp

lemma raidz1_reconstruct_ok:
  assumes "raidz1_stripe cols bufs" "intact_but t bufs colbufs" "0 < t" "t < length cols"
  shows "raidz1_reconstruct cols colbufs t = Some (bufs ! t)"
proof -
  have len: "length bufs = length cols" "length colbufs = length cols" "cols \<noteq> []"
    using assms(1,2) by (auto simp: raidz1_stripe_def intact_but_def)
  have get: "index_get colbufs i = Some (Some (bufs ! i))" if "i < length cols" "i \<noteq> t" for i
    using assms(2) that len by (auto simp: intact_but_def index_get_def)
  have st: "length (bufs ! t) = rc_size (cols ! t)" "rc_size (cols ! t) \<le> length (bufs ! 0)"
    using assms(1,4) len by (auto simp: raidz1_stripe_def)
  let ?rebuilt = "take (rc_size (cols ! t)) (bufs ! 0)"
  have "\<forall>i \<in> set [0..<length cols]. i \<noteq> 0 \<and> i \<noteq> t \<longrightarrow> index_get colbufs i = Some (Some (bufs ! i))"
    using get by simp
  from raidz1_xor_columns_ok[OF this, of ?rebuilt] obtain out where
    out: "raidz1_xor_columns [0..<length cols] colbufs t ?rebuilt = Some out" "length out = length ?rebuilt"
    "\<forall>k<length ?rebuilt. out ! k = ?rebuilt ! k XOR
       xors (\<lambda>i. byte_at (bufs ! i) k) (filter (\<lambda>i. i \<noteq> 0 \<and> i \<noteq> t) [0..<length cols])" by auto
  have range: "filter (\<lambda>i. i \<noteq> 0 \<and> i \<noteq> t) [0..<length cols] = filter (\<lambda>i. i \<noteq> t) [1..<length cols]"
  proof -
    have "[0..<length cols] = 0 # [1..<length cols]" using upt_conv_Cons[of 0 "length cols"] len(3) by simp
    then show ?thesis by (auto intro: filter_cong)
  qed
  have "out ! k = bufs ! t ! k" if "k < rc_size (cols ! t)" for k
  proof -
    let ?f = "\<lambda>i. byte_at (bufs ! i) k"
    have "rc_size (cols ! t) \<le> rc_size (cols ! 0)" using assms(1,4) by (simp add: raidz1_stripe_def)
    then have "k < rc_size (cols ! 0)" using that by simp
    then have "bufs ! 0 ! k = xors ?f [1..<length cols]" using assms(1) by (simp add: raidz1_stripe_def)
    also have "\<dots> = ?f t XOR xors ?f (filter (\<lambda>i. i \<noteq> t) [1..<length cols])"
      using assms(3,4) by (intro xors_remove) auto
    finally have "out ! k = (?f t XOR xors ?f (filter (\<lambda>i. i \<noteq> t) [1..<length cols])) XOR
        xors ?f (filter (\<lambda>i. i \<noteq> t) [1..<length cols])"
      using out(3) that st(2) range by simp
    then show ?thesis using that st(1) by (simp add: xor.assoc byte_at_def)
  qed
  moreover have "length out = rc_size (cols ! t)" using out(2) st by simp
  ultimately have "out = bufs ! t" using st(1) by (intro nth_equalityI) simp_all
  then have xor: "raidz1_xor_columns [0..<length cols] colbufs t ?rebuilt = Some (bufs ! t)" using out(1) by simp
  have "index_get colbufs 0 = Some (Some (bufs ! 0))" using get[of 0] assms(3,4) len(3) by simp
  moreover have "index_get cols t = Some (cols ! t)" using assms(4) by (simp add: index_get_def)
  moreover have "min (rc_size (cols ! t)) (length (bufs ! 0)) = rc_size (cols ! t)" using st(2) by simp
  ultimately show ?thesis
    unfolding raidz1_reconstruct_def by (simp only: option.case Let_def xor diff_self_eq_0 replicate_0 append_Nil2)
qed

section \<open>Assembly\<close>

definition stripe_data :: "(nat \<times> raidz_col) list \<Rightarrow> bytes list \<Rightarrow> bytes" where
  "stripe_data xs bufs = concat (map (\<lambda>(i, col). bufs ! i) (filter (\<lambda>(i, col). \<not> rc_parity col) xs))"

lemma raidz1_gather_ok:
  assumes "\<forall>(i, col) \<in> set xs. \<not> rc_parity col \<longrightarrow>
    (if Some i = ridx then repl else (case index_get colbufs i of Some buf \<Rightarrow> buf | None \<Rightarrow> None)) = Some (bufs ! i)"
  shows "raidz1_gather xs colbufs ridx repl = Some (stripe_data xs bufs)"
  using assms
proof (induction xs)
  case (Cons x xs)
  obtain i col where x: "x = (i, col)" by (cases x)
  have ih: "raidz1_gather xs colbufs ridx repl = Some (stripe_data xs bufs)" using Cons by auto
  show ?case
  proof (cases "rc_parity col")
    case True
    then show ?thesis using ih by (simp add: x stripe_data_def)
  next
    case False
    then have "(if Some i = ridx then repl else (case index_get colbufs i of Some buf \<Rightarrow> buf | None \<Rightarrow> None)) = Some (bufs ! i)"
      using Cons.prems x by auto
    then show ?thesis using ih False by (simp only: x raidz1_gather.simps) (simp add: stripe_data_def)
  qed
qed (simp add: stripe_data_def)

lemma raidz1_rebuild_finds:
  assumes "(t, col) \<in> set rest" "\<not> rc_parity col" "raidz1_reconstruct cols colbufs t = Some rebuilt"
    "raidz1_assemble cols colbufs psize (Some t) (Some rebuilt) = Some raw" "verify raw"
  shows "\<exists>raw'. raidz1_rebuild verify cols colbufs psize rest = Some raw'"
  using assms(1)
proof (induction rest)
  case (Cons x rest)
  obtain i c where x: "x = (i, c)" by (cases x)
  show ?case
  proof (cases "x = (t, col)")
    case True
    then show ?thesis using assms(2-5) by simp
  next
    case False
    then show ?thesis using Cons x by (auto split: option.split)
  qed
qed simp

text \<open>
  C3. RAID-Z1 survives the loss of any one column: for a consistent stripe whose data matches the
  checksum, if at most one column buffer, data or parity, is missing or holds other bytes, a
  verified block of the requested size is recovered; rebuilding the lost column from the others
  gives back exactly its bytes.
\<close>

theorem raidz1_single_loss:
  assumes "raidz1_stripe cols bufs" "intact_but t bufs colbufs" "t < length cols"
    and "psize \<le> length (stripe_data (enumerate 0 cols) bufs)" "verify (take psize (stripe_data (enumerate 0 cols) bufs))"
  shows "(\<exists>raw. raidz1_recover verify cols colbufs psize = Some raw \<and> verify raw \<and> length raw = psize) \<and>
    (0 < t \<longrightarrow> raidz1_reconstruct cols colbufs t = Some (bufs ! t))"
proof -
  let ?xs = "enumerate 0 cols"
  have len: "length bufs = length cols" "length colbufs = length cols"
    using assms(1,2) by (auto simp: raidz1_stripe_def intact_but_def)
  have mem: "i < length cols \<and> col = cols ! i" if "(i, col) \<in> set ?xs" for i col
    using that by (auto simp: in_set_conv_nth nth_enumerate_eq)
  have par: "rc_parity (cols ! i) \<longleftrightarrow> i = 0" if "i < length cols" for i
    using assms(1) that by (simp add: raidz1_stripe_def)
  have intact: "index_get colbufs i = Some (Some (bufs ! i))" if "i < length cols" "i \<noteq> t" for i
    using assms(2) that len by (auto simp: intact_but_def index_get_def)
  obtain raw where raw: "raidz1_recover verify cols colbufs psize = Some raw"
  proof (cases "t = 0")
    case True
    have "\<forall>(i, col) \<in> set ?xs. \<not> rc_parity col \<longrightarrow>
        (if Some i = None then None else (case index_get colbufs i of Some buf \<Rightarrow> buf | None \<Rightarrow> None)) = Some (bufs ! i)"
      using mem par intact True by fastforce
    from raidz1_gather_ok[OF this] have "raidz1_assemble cols colbufs psize None None = Some (take psize (stripe_data ?xs bufs))"
      using assms(4) by (simp add: raidz1_assemble_def)
    then show thesis using assms(5) that by (simp add: raidz1_recover_def)
  next
    case False
    have rec: "raidz1_reconstruct cols colbufs t = Some (bufs ! t)"
      using raidz1_reconstruct_ok[OF assms(1,2) _ assms(3)] False by simp
    have "\<forall>(i, col) \<in> set ?xs. \<not> rc_parity col \<longrightarrow>
        (if Some i = Some t then Some (bufs ! t) else (case index_get colbufs i of Some buf \<Rightarrow> buf | None \<Rightarrow> None)) = Some (bufs ! i)"
      using mem intact by fastforce
    from raidz1_gather_ok[OF this] have asm: "raidz1_assemble cols colbufs psize (Some t) (Some (bufs ! t)) =
        Some (take psize (stripe_data ?xs bufs))"
      using assms(4) by (simp add: raidz1_assemble_def)
    have "(t, cols ! t) \<in> set ?xs" using assms(3) by (auto simp: in_set_conv_nth nth_enumerate_eq)
    from raidz1_rebuild_finds[OF this _ rec asm, of verify] par[OF assms(3)] False assms(5)
    obtain raw' where "raidz1_rebuild verify cols colbufs psize ?xs = Some raw'" by auto
    then have "raidz1_recover verify cols colbufs psize \<noteq> None"
      by (cases "raidz1_assemble cols colbufs psize None None") (simp_all add: raidz1_recover_def)
    then show thesis using that by blast
  qed
  then show ?thesis
    using raidz1_recover_verified[OF raw] raidz1_reconstruct_ok[OF assms(1,2) _ assms(3)] by simp
qed

definition sample_cols :: "raidz_col list" where
  "sample_cols = [\<lparr>rc_devidx = 0, rc_offset = 0, rc_size = 2, rc_parity = True\<rparr>,
     \<lparr>rc_devidx = 1, rc_offset = 0, rc_size = 2, rc_parity = False\<rparr>,
     \<lparr>rc_devidx = 2, rc_offset = 0, rc_size = 1, rc_parity = False\<rparr>]"

theorem raidz1_single_loss_witness:
  "raidz1_stripe sample_cols [[6, 3], [5, 3], [3]] \<and> intact_but 1 [[6, 3], [5, 3], [3]] [Some [6, 3], None, Some [3]] \<and>
   raidz1_reconstruct sample_cols [Some [6, 3], None, Some [3]] 1 = Some [5, 3]"
proof -
  have range: "[1..<length sample_cols] = [1, 2]" by (simp add: sample_cols_def upt_rec)
  have three: "i < length sample_cols \<longleftrightarrow> i = 0 \<or> i = 1 \<or> i = 2" for i by (auto simp: sample_cols_def)
  have two: "k < rc_size (sample_cols ! 0) \<longleftrightarrow> k = 0 \<or> k = 1" for k by (auto simp: sample_cols_def)
  have s: "raidz1_stripe sample_cols [[6, 3], [5, 3], [3]]"
    unfolding raidz1_stripe_def range three two by (auto simp: sample_cols_def byte_at_def)
  have i: "intact_but 1 [[6, 3], [5, 3], [3]] [Some [6, 3], None, Some [3]]"
    by (auto simp: intact_but_def less_Suc_eq)
  have d: "stripe_data (enumerate 0 sample_cols) [[6, 3], [5, 3], [3]] = [5, 3, 3]"
    by (simp add: stripe_data_def sample_cols_def)
  from raidz1_single_loss[OF s i, of 3 "\<lambda>_. True"] s i show ?thesis by (simp add: d three)
qed

end
