(* ===== verification/Decode_Props.thy ===== *)
theory Decode_Props
  imports Codec
begin

text \<open>
  Postconditions of decoding and encoding steps, and the parts of the decoder interface that read
  the position of the buffer without moving it.
\<close>

section \<open>Postconditions\<close>

text \<open>\<open>yields m P\<close>: whenever the step succeeds, its value satisfies \<open>P\<close>.\<close>

definition yields :: "('s, 'e, 'a) step \<Rightarrow> ('a \<Rightarrow> bool) \<Rightarrow> bool" where
  "yields m P \<longleftrightarrow> (\<forall>s x s'. m s = Ok (x, s') \<longrightarrow> P x)"

lemma yields_return: "P x \<Longrightarrow> yields (returnD x) P"
  by (simp add: yields_def returnD_def)

lemma yields_fail: "yields (failD e) P"
  by (simp add: yields_def failD_def)

lemma yields_lift: "yields m P \<Longrightarrow> yields (liftD C m) P"
  by (simp add: yields_def liftD_def)

lemma yields_bind: "yields m Q \<Longrightarrow> (\<And>x. Q x \<Longrightarrow> yields (f x) P) \<Longrightarrow> yields (bindD m f) P"
  by (fastforce simp: yields_def bindD_def and_then_Ok_iff)

lemma yields_any: "yields m (\<lambda>_. True)"
  by (simp add: yields_def)

lemma yields_if: "(b \<Longrightarrow> yields m P) \<Longrightarrow> (\<not> b \<Longrightarrow> yields n P) \<Longrightarrow> yields (if b then m else n) P"
  by simp

lemma endian_get_bytes_n_length: "yields (get_bytes_n (endian_decoder ord) n) (\<lambda>bs. length bs = n)"
  by (cases ord) (auto simp: yields_def endian_decoder_def BigEndianDecoder_def LittleEndianDecoder_def buf_get_bytes_def
      bindD_def and_then_Ok_iff slice_Ok_iff dest: slice_get_length)

lemma yields_bind_any: "(\<And>x. yields (f x) P) \<Longrightarrow> yields (bindD m f) P"
  by (rule yields_bind[OF yields_any])

section \<open>Reading the position\<close>

text \<open>\<open>decoder.is_empty()\<close>, \<open>len()\<close>, \<open>offset()\<close> and \<open>capacity()\<close>: the buffer is left as it is.\<close>

definition queryD :: "(buffer \<Rightarrow> 'a) \<Rightarrow> (buffer, 'e, 'a) step" where
  "queryD f b = Ok (f b, b)"

lemma safe_queryD [dec_safe]: "safe_dec (queryD f)"
  by (simp add: safe_dec_def queryD_def)

end
