(* ===== verification/Decode_Progress.thy ===== *)
theory Decode_Progress
  imports Decode_Props
begin

text \<open>
  Progress of decoding steps: \<open>moves m k\<close> says that the step moves the offset forward by at least \<open>k\<close>
  bytes when it succeeds. Loops over a decoder terminate because the steps in their bodies move.
\<close>

definition moves :: "(buffer, 'e, 'a) step \<Rightarrow> nat \<Rightarrow> bool" where
  "moves m k \<longleftrightarrow> (\<forall>b x b'. m b = Ok (x, b') \<longrightarrow> buf_offset b + k \<le> buf_offset b' \<and> buf_max_offset b' = buf_max_offset b)"

lemma movesD:
  "moves m k \<Longrightarrow> m b = Ok (x, b') \<Longrightarrow> buf_offset b + k \<le> buf_offset b' \<and> buf_max_offset b' = buf_max_offset b"
  by (simp add: moves_def)

lemma movesI:
  "(\<And>b x b'. m b = Ok (x, b') \<Longrightarrow> buf_offset b + k \<le> buf_offset b' \<and> buf_max_offset b' = buf_max_offset b) \<Longrightarrow> moves m k"
  by (simp add: moves_def)

named_theorems dec_moves \<open>steps that move the offset forward\<close>

lemma moves_return [dec_moves]: "moves (returnD x) 0"
  by (simp add: moves_def returnD_def)

lemma moves_fail [dec_moves]: "moves (failD e) k"
  by (simp add: moves_def failD_def)

lemma moves_result [dec_moves]: "moves (resultD r) 0"
  by (cases r) (simp_all add: moves_def resultD_def)

lemma moves_query [dec_moves]: "moves (queryD f) 0"
  by (simp add: moves_def queryD_def)

lemma moves_lift [dec_moves]: "moves m k \<Longrightarrow> moves (liftD C m) k"
  by (simp add: moves_def liftD_def)

lemma moves_if: "(c \<Longrightarrow> moves m k) \<Longrightarrow> (\<not> c \<Longrightarrow> moves n k) \<Longrightarrow> moves (if c then m else n) k"
  by simp

lemma moves_bind:
  assumes "moves m i" "\<And>x. moves (f x) j"
  shows "moves (bindD m f) (i + j)"
proof (rule movesI)
  fix b y b2
  assume "bindD m f b = Ok (y, b2)"
  then obtain x b1 where "m b = Ok (x, b1)" "f x b1 = Ok (y, b2)"
    by (auto simp: bindD_def and_then_Ok_iff)
  from movesD[OF assms(1) this(1)] movesD[OF assms(2) this(2)]
  show "buf_offset b + (i + j) \<le> buf_offset b2 \<and> buf_max_offset b2 = buf_max_offset b"
    by simp
qed

lemma moves_weaken:
  assumes "moves m i" "k \<le> i"
  shows "moves m k"
proof (rule movesI)
  fix b x b'
  assume "m b = Ok (x, b')"
  from movesD[OF assms(1) this] assms(2)
  show "buf_offset b + k \<le> buf_offset b' \<and> buf_max_offset b' = buf_max_offset b"
    by simp
qed

text \<open>A step that starts or ends with one that moves.\<close>

lemma moves_bind_first: "moves m k \<Longrightarrow> (\<And>x. moves (f x) 0) \<Longrightarrow> moves (bindD m f) k"
  using moves_bind[of m k f 0] by simp

lemma moves_bind_rest: "moves m 0 \<Longrightarrow> (\<And>x. moves (f x) k) \<Longrightarrow> moves (bindD m f) k"
  using moves_bind[of m 0 f k] by simp

lemma moves_buf_get_bytes [dec_moves]: "moves (buf_get_bytes n) n"
  by (auto simp: moves_def buf_get_bytes_def buf_check_need_def bindD_def and_then_Ok_iff split: if_splits)

lemma moves_any_0: "moves m k \<Longrightarrow> moves m 0"
  by (rule moves_weaken) simp_all

lemma moves_buf_zeros [dec_moves]: "moves (buf_skip_zeros n) n" "moves (buf_is_skip_zeros n) 0" "moves (buf_skip n) n"
  using moves_buf_get_bytes[of n] moves_any_0[OF moves_buf_get_bytes[of n]]
  by (auto simp: moves_def buf_skip_zeros_def buf_is_skip_zeros_def buf_skip_def buf_check_need_def bindD_def
      and_then_Ok_iff split: if_splits)

lemma moves_buf_words [dec_moves]:
  "moves buf_get_1_byte (Suc 0)" "moves buf_get_2_bytes 2" "moves buf_get_4_bytes 4" "moves buf_get_8_bytes 8"
  by (auto simp: moves_def buf_get_1_byte_def buf_get_2_bytes_def buf_get_4_bytes_def buf_get_8_bytes_def
      buf_check_need_def bindD_def and_then_Ok_iff split: if_splits)

lemma moves_wordD [dec_moves]: "moves m k \<Longrightarrow> moves (wordD conv m) k"
  unfolding wordD_def by (intro moves_bind_first moves_return)

lemma endian_moves [dec_moves]:
  "moves (get_u8 (endian_decoder ord)) 1" "moves (get_u16 (endian_decoder ord)) 2"
  "moves (get_u32 (endian_decoder ord)) 4" "moves (get_u64 (endian_decoder ord)) 8"
  by (cases ord; simp add: endian_decoder_def BigEndianDecoder_def LittleEndianDecoder_def moves_wordD moves_buf_words)+

lemma moves_progress:
  assumes "moves m k" "0 < k" "m b = Ok (x, b')" "\<not> buf_is_empty b"
  shows "buf_len b' < buf_len b"
proof -
  have "buf_offset b + k \<le> buf_offset b'" "buf_max_offset b' = buf_max_offset b"
    using assms(1,3) by (auto simp: moves_def)
  then show ?thesis
    using assms(2,4) by (simp add: buf_len_def buf_is_empty_def)
qed

end
