(* ===== verification/Nv.thy ===== *)
theory Nv
  imports Decode_Progress
begin

text \<open>
  \<open>phys/nv.rs\<close>: name/value lists in their XDR encoding, as in the configuration of a label. A list is a
  range of the bytes it is decoded from; its pairs are decoded when it is iterated over. Signed integers
  and doubles are the words of their bits.
\<close>

section \<open>Enumerations\<close>

datatype nv_endian_order = Nv_Big | Nv_Little
datatype nv_encoding = Nv_Native | Nv_Xdr
datatype nv_unique = Nv_Unique_None | Nv_Unique_Name | Nv_Unique_NameType

datatype nv_data_type =
    Dt_Boolean
  | Dt_Byte
  | Dt_Int16
  | Dt_Uint16
  | Dt_Int32
  | Dt_Uint32
  | Dt_Int64
  | Dt_Uint64
  | Dt_String
  | Dt_ByteArray
  | Dt_Int16Array
  | Dt_Uint16Array
  | Dt_Int32Array
  | Dt_Uint32Array
  | Dt_Int64Array
  | Dt_Uint64Array
  | Dt_StringArray
  | Dt_HrTime
  | Dt_NvList
  | Dt_NvListArray
  | Dt_BooleanValue
  | Dt_Int8
  | Dt_Uint8
  | Dt_BooleanArray
  | Dt_Int8Array
  | Dt_Uint8Array
  | Dt_Double

datatype nv_decode_error =
    NvBinary binary_decode_error
  | NvDataMismatch
  | NvDataTypeMismatch nv_data_type nv_data_type
  | NvEndOfArray
  | NvEndOfInput nat nat nat string
  | NvInvalidCount nv_data_type nat
  | NvInvalidEncodedSize nat nat
  | NvInvalidNestedSize
  | NvInvalidReservedBytes u8 u8
  | NvNestedDecoderMismatch
  | NvUnknownDataType u32
  | NvUnknownEncoding u8
  | NvUnknownEndian u8
  | NvUnknownFlags u32
  | NvUnknownUnique u8
  | NvUnknownVersion u32

definition endian_order_of_nv :: "nv_endian_order \<Rightarrow> endian_order" where
  "endian_order_of_nv val = (case val of Nv_Big \<Rightarrow> Big | Nv_Little \<Rightarrow> Little)"

definition nv_endian_order_to_u8 :: "nv_endian_order \<Rightarrow> u8" where
  "nv_endian_order_to_u8 val = (case val of Nv_Big \<Rightarrow> 0 | Nv_Little \<Rightarrow> 1)"

definition nv_endian_order_try_from :: "u8 \<Rightarrow> (nv_decode_error, nv_endian_order) result" where
  "nv_endian_order_try_from order =
     (if order = 0 then Ok Nv_Big else if order = 1 then Ok Nv_Little else Err (NvUnknownEndian order))"

definition nv_encoding_to_u8 :: "nv_encoding \<Rightarrow> u8" where
  "nv_encoding_to_u8 val = (case val of Nv_Native \<Rightarrow> 0 | Nv_Xdr \<Rightarrow> 1)"

definition nv_encoding_try_from :: "u8 \<Rightarrow> (nv_decode_error, nv_encoding) result" where
  "nv_encoding_try_from encoding =
     (if encoding = 0 then Ok Nv_Native else if encoding = 1 then Ok Nv_Xdr else Err (NvUnknownEncoding encoding))"

definition nv_unique_to_u8 :: "nv_unique \<Rightarrow> u8" where
  "nv_unique_to_u8 val = (case val of Nv_Unique_None \<Rightarrow> 0 | Nv_Unique_Name \<Rightarrow> 1 | Nv_Unique_NameType \<Rightarrow> 2)"

definition nv_unique_try_from :: "u8 \<Rightarrow> (nv_decode_error, nv_unique) result" where
  "nv_unique_try_from unique =
     (if unique = 0 then Ok Nv_Unique_None else if unique = 1 then Ok Nv_Unique_Name
      else if unique = 2 then Ok Nv_Unique_NameType else Err (NvUnknownUnique unique))"

definition nv_data_type_table :: "(nv_data_type \<times> u32) list" where
  "nv_data_type_table = [
     (Dt_Boolean, 1),
     (Dt_Byte, 2),
     (Dt_Int16, 3),
     (Dt_Uint16, 4),
     (Dt_Int32, 5),
     (Dt_Uint32, 6),
     (Dt_Int64, 7),
     (Dt_Uint64, 8),
     (Dt_String, 9),
     (Dt_ByteArray, 10),
     (Dt_Int16Array, 11),
     (Dt_Uint16Array, 12),
     (Dt_Int32Array, 13),
     (Dt_Uint32Array, 14),
     (Dt_Int64Array, 15),
     (Dt_Uint64Array, 16),
     (Dt_StringArray, 17),
     (Dt_HrTime, 18),
     (Dt_NvList, 19),
     (Dt_NvListArray, 20),
     (Dt_BooleanValue, 21),
     (Dt_Int8, 22),
     (Dt_Uint8, 23),
     (Dt_BooleanArray, 24),
     (Dt_Int8Array, 25),
     (Dt_Uint8Array, 26),
     (Dt_Double, 27)]"

definition nv_data_type_to_u32 :: "nv_data_type \<Rightarrow> u32" where
  "nv_data_type_to_u32 val = the (map_of nv_data_type_table val)"

definition nv_data_type_try_from :: "u32 \<Rightarrow> (nv_decode_error, nv_data_type) result" where
  "nv_data_type_try_from data_type =
     (case find (\<lambda>(_, code). code = data_type) nv_data_type_table of
        Some (val, _) \<Rightarrow> Ok val
      | None \<Rightarrow> Err (NvUnknownDataType data_type))"

definition is_fixed_width_array :: "nv_data_type \<Rightarrow> bool" where
  "is_fixed_width_array data_type \<longleftrightarrow> data_type \<in> {Dt_BooleanArray, Dt_Int8Array, Dt_Uint8Array, Dt_Int16Array,
     Dt_Uint16Array, Dt_Int32Array, Dt_Uint32Array, Dt_Int64Array, Dt_Uint64Array}"

definition check_data_type_count_and_get_array_size :: "nv_data_type \<Rightarrow> nat \<Rightarrow> (nv_decode_error, nat) result" where
  "check_data_type_count_and_get_array_size data_type count =
     and_then
       (if data_type = Dt_Boolean then if count = 0 then Ok 0 else Err (NvInvalidCount data_type count)
        else if data_type \<in> {Dt_Byte, Dt_Int16, Dt_Uint16, Dt_Int32, Dt_Uint32, Dt_Int64, Dt_Uint64, Dt_String, Dt_HrTime,
          Dt_NvList, Dt_BooleanValue, Dt_Int8, Dt_Uint8, Dt_Double}
        then if count = 1 then Ok 0 else Err (NvInvalidCount data_type count)
        else if data_type \<in> {Dt_BooleanArray, Dt_Int16Array, Dt_Uint16Array, Dt_Int32Array, Dt_Uint32Array, Dt_Int8Array,
          Dt_Uint8Array} then Ok 4
        else if data_type \<in> {Dt_Int64Array, Dt_Uint64Array} then Ok 8
        else Ok 0)
     (\<lambda>array_element_size.
        if count * array_element_size < 2 ^ 64 then Ok (count * array_element_size) else Err (NvInvalidCount data_type count))"

section \<open>Lists, arrays and pairs\<close>

record nv_list =
  nl_data :: bytes
  nl_offset :: nat
  nl_length :: nat
  nl_encoding :: nv_encoding
  nl_order :: endian_order
  nl_unique :: nv_unique

record nv_array =
  na_data :: bytes
  na_offset :: nat
  na_length :: nat
  na_count :: nat
  na_encoding :: nv_encoding
  na_order :: endian_order

datatype nv_data_value =
    Dv_Boolean
  | Dv_Byte "u8"
  | Dv_Int16 "16 word"
  | Dv_Uint16 "u16"
  | Dv_Int32 "32 word"
  | Dv_Uint32 "u32"
  | Dv_Int64 "64 word"
  | Dv_Uint64 "u64"
  | Dv_String "bytes"
  | Dv_ByteArray "bytes"
  | Dv_Int16Array nv_array
  | Dv_Uint16Array nv_array
  | Dv_Int32Array nv_array
  | Dv_Uint32Array nv_array
  | Dv_Int64Array nv_array
  | Dv_Uint64Array nv_array
  | Dv_StringArray nv_array
  | Dv_HrTime "64 word"
  | Dv_NvList "nv_list"
  | Dv_NvListArray nv_array
  | Dv_BooleanValue "bool"
  | Dv_Int8 "8 word"
  | Dv_Uint8 "u8"
  | Dv_BooleanArray nv_array
  | Dv_Int8Array nv_array
  | Dv_Uint8Array nv_array
  | Dv_Double "64 word"

record nv_pair =
  np_name :: bytes
  np_value :: nv_data_value

definition nv_data_type_of :: "nv_data_value \<Rightarrow> nv_data_type" where
  "nv_data_type_of v = (case v of
     Dv_Boolean \<Rightarrow> Dt_Boolean
   | Dv_Byte _ \<Rightarrow> Dt_Byte
   | Dv_Int16 _ \<Rightarrow> Dt_Int16
   | Dv_Uint16 _ \<Rightarrow> Dt_Uint16
   | Dv_Int32 _ \<Rightarrow> Dt_Int32
   | Dv_Uint32 _ \<Rightarrow> Dt_Uint32
   | Dv_Int64 _ \<Rightarrow> Dt_Int64
   | Dv_Uint64 _ \<Rightarrow> Dt_Uint64
   | Dv_String _ \<Rightarrow> Dt_String
   | Dv_ByteArray _ \<Rightarrow> Dt_ByteArray
   | Dv_Int16Array _ \<Rightarrow> Dt_Int16Array
   | Dv_Uint16Array _ \<Rightarrow> Dt_Uint16Array
   | Dv_Int32Array _ \<Rightarrow> Dt_Int32Array
   | Dv_Uint32Array _ \<Rightarrow> Dt_Uint32Array
   | Dv_Int64Array _ \<Rightarrow> Dt_Int64Array
   | Dv_Uint64Array _ \<Rightarrow> Dt_Uint64Array
   | Dv_StringArray _ \<Rightarrow> Dt_StringArray
   | Dv_HrTime _ \<Rightarrow> Dt_HrTime
   | Dv_NvList _ \<Rightarrow> Dt_NvList
   | Dv_NvListArray _ \<Rightarrow> Dt_NvListArray
   | Dv_BooleanValue _ \<Rightarrow> Dt_BooleanValue
   | Dv_Int8 _ \<Rightarrow> Dt_Int8
   | Dv_Uint8 _ \<Rightarrow> Dt_Uint8
   | Dv_BooleanArray _ \<Rightarrow> Dt_BooleanArray
   | Dv_Int8Array _ \<Rightarrow> Dt_Int8Array
   | Dv_Uint8Array _ \<Rightarrow> Dt_Uint8Array
   | Dv_Double _ \<Rightarrow> Dt_Double)"

definition NV_HEADER_SIZE :: nat where "NV_HEADER_SIZE = 4"

definition nv_list_from_partial ::
  "bytes \<Rightarrow> nat \<Rightarrow> nat \<Rightarrow> nv_encoding \<Rightarrow> endian_order \<Rightarrow> (nv_decode_error, nv_list) result" where
  "nv_list_from_partial data start len encoding order =
     (if encoding = Nv_Native then Err (NvUnknownEncoding (nv_encoding_to_u8 Nv_Native))
      else
        and_then (map_err NvBinary (buf_from_bytes_clamped data start len)) (\<lambda>b.
        and_then (map_err NvBinary (get_u32 XdrDecoder b)) (\<lambda>(version, b).
        if version \<noteq> 0 then Err (NvUnknownVersion version)
        else
          and_then (map_err NvBinary (get_u32 XdrDecoder b)) (\<lambda>(flags, b).
          let unique_flags = flags AND 3 in
          if unique_flags \<noteq> flags then Err (NvUnknownFlags flags)
          else
            and_then (nv_unique_try_from (ucast unique_flags)) (\<lambda>unique.
            Ok \<lparr>nl_data = data, nl_offset = buf_offset b, nl_length = buf_len b, nl_encoding = encoding,
              nl_order = order, nl_unique = unique\<rparr>)))))"

definition nv_list_from_bytes :: "bytes \<Rightarrow> (nv_decode_error, nv_list) result" where
  "nv_list_from_bytes data =
     (if length data < NV_HEADER_SIZE
      then Err (NvEndOfInput 0 (length data) NV_HEADER_SIZE ''NV List header is truncated'')
      else
        and_then (slice data 0 NV_HEADER_SIZE) (\<lambda>header.
        and_then (index header 0) (\<lambda>b0.
        and_then (nv_encoding_try_from b0) (\<lambda>encoding.
        and_then (index header 1) (\<lambda>b1.
        and_then (nv_endian_order_try_from b1) (\<lambda>endian.
        and_then (index header 2) (\<lambda>reserved_0.
        and_then (index header 3) (\<lambda>reserved_1.
        if reserved_0 \<noteq> 0 \<or> reserved_1 \<noteq> 0 then Err (NvInvalidReservedBytes reserved_0 reserved_1)
        else
          let start = length header; len = length data - start in
          nv_list_from_partial data start len encoding (endian_order_of_nv endian)))))))))"

section \<open>Iteration over a list\<close>

abbreviation xdr_get :: "'a dec \<Rightarrow> (buffer, nv_decode_error, 'a) step" where
  "xdr_get m \<equiv> liftD NvBinary m"

text \<open>The arrays of a pair are ranges of the list's bytes.\<close>

definition nv_array_at :: "nv_list \<Rightarrow> nat \<Rightarrow> nat \<Rightarrow> nat \<Rightarrow> nv_array" where
  "nv_array_at l offset len count = \<lparr>na_data = nl_data l, na_offset = offset, na_length = len, na_count = count,
     na_encoding = nl_encoding l, na_order = nl_order l\<rparr>"

definition nv_skip_array ::
  "(nv_array \<Rightarrow> nv_data_value) \<Rightarrow> nv_list \<Rightarrow> nat \<Rightarrow> nat \<Rightarrow> nat \<Rightarrow> (buffer, nv_decode_error, nv_data_value) step" where
  "nv_skip_array C l offset len count =
     bindD (xdr_get (skip XdrDecoder len)) (\<lambda>_. returnD (C (nv_array_at l offset len count)))"

definition nv_value ::
  "nv_list \<Rightarrow> nv_data_type \<Rightarrow> nat \<Rightarrow> nat \<Rightarrow> nat \<Rightarrow> nat \<Rightarrow> nat \<Rightarrow> (buffer, nv_decode_error, nv_data_value) step" where
  "nv_value l data_type value_offset bytes_rem array_offset array_size count = (case data_type of
       Dt_Boolean \<Rightarrow> returnD Dv_Boolean
     | Dt_Byte \<Rightarrow> bindD (xdr_get (get_u8 XdrDecoder)) (\<lambda>v. returnD (Dv_Byte v))
     | Dt_Int16 \<Rightarrow> bindD (xdr_get (get_i16 XdrDecoder)) (\<lambda>v. returnD (Dv_Int16 v))
     | Dt_Uint16 \<Rightarrow> bindD (xdr_get (get_u16 XdrDecoder)) (\<lambda>v. returnD (Dv_Uint16 v))
     | Dt_Int32 \<Rightarrow> bindD (xdr_get (get_i32 XdrDecoder)) (\<lambda>v. returnD (Dv_Int32 v))
     | Dt_Uint32 \<Rightarrow> bindD (xdr_get (get_u32 XdrDecoder)) (\<lambda>v. returnD (Dv_Uint32 v))
     | Dt_Int64 \<Rightarrow> bindD (xdr_get (get_i64 XdrDecoder)) (\<lambda>v. returnD (Dv_Int64 v))
     | Dt_Uint64 \<Rightarrow> bindD (xdr_get (get_u64 XdrDecoder)) (\<lambda>v. returnD (Dv_Uint64 v))
     | Dt_String \<Rightarrow> bindD (xdr_get (get_str XdrDecoder)) (\<lambda>v. returnD (Dv_String v))
     | Dt_ByteArray \<Rightarrow> bindD (xdr_get (get_bytes XdrDecoder)) (\<lambda>v. returnD (Dv_ByteArray v))
     | Dt_Int16Array \<Rightarrow> nv_skip_array Dv_Int16Array l array_offset array_size count
     | Dt_Uint16Array \<Rightarrow> nv_skip_array Dv_Uint16Array l array_offset array_size count
     | Dt_Int32Array \<Rightarrow> nv_skip_array Dv_Int32Array l array_offset array_size count
     | Dt_Uint32Array \<Rightarrow> nv_skip_array Dv_Uint32Array l array_offset array_size count
     | Dt_Int64Array \<Rightarrow> nv_skip_array Dv_Int64Array l array_offset array_size count
     | Dt_Uint64Array \<Rightarrow> nv_skip_array Dv_Uint64Array l array_offset array_size count
     | Dt_StringArray \<Rightarrow> nv_skip_array Dv_StringArray l value_offset bytes_rem count
     | Dt_HrTime \<Rightarrow> bindD (xdr_get (get_i64 XdrDecoder)) (\<lambda>v. returnD (Dv_HrTime v))
     | Dt_NvList \<Rightarrow> bindD (xdr_get (skip XdrDecoder bytes_rem)) (\<lambda>_.
         bindD (resultD (nv_list_from_partial (nl_data l) value_offset bytes_rem (nl_encoding l) (nl_order l))) (\<lambda>v.
         returnD (Dv_NvList v)))
     | Dt_NvListArray \<Rightarrow> nv_skip_array Dv_NvListArray l value_offset bytes_rem count
     | Dt_BooleanValue \<Rightarrow> bindD (xdr_get (get_bool XdrDecoder)) (\<lambda>v. returnD (Dv_BooleanValue v))
     | Dt_Int8 \<Rightarrow> bindD (xdr_get (get_i8 XdrDecoder)) (\<lambda>v. returnD (Dv_Int8 v))
     | Dt_Uint8 \<Rightarrow> bindD (xdr_get (get_u8 XdrDecoder)) (\<lambda>v. returnD (Dv_Uint8 v))
     | Dt_BooleanArray \<Rightarrow> nv_skip_array Dv_BooleanArray l array_offset array_size count
     | Dt_Int8Array \<Rightarrow> nv_skip_array Dv_Int8Array l array_offset array_size count
     | Dt_Uint8Array \<Rightarrow> nv_skip_array Dv_Uint8Array l array_offset array_size count
     | Dt_Double \<Rightarrow> bindD (xdr_get (get_f64 XdrDecoder)) (\<lambda>v. returnD (Dv_Double v)))"

definition nv_array_prefix :: "nv_data_type \<Rightarrow> nat \<Rightarrow> nat \<Rightarrow> (buffer, nv_decode_error, nat) step" where
  "nv_array_prefix data_type count value_offset =
     (if is_fixed_width_array data_type then
        bindD (xdr_get (get_usize_32 XdrDecoder)) (\<lambda>prefix.
        if prefix \<noteq> count then failD (NvInvalidCount data_type prefix) else queryD buf_offset)
      else returnD value_offset)"

text \<open>A pair after its sizes; \<open>start\<close> is the offset of the sizes.\<close>

definition nv_pair_body :: "nv_list \<Rightarrow> nat \<Rightarrow> nat \<Rightarrow> (buffer, nv_decode_error, nv_pair) step" where
  "nv_pair_body l start encoded_size =
     bindD (xdr_get (get_str XdrDecoder)) (\<lambda>name.
     bindD (xdr_get (get_u32 XdrDecoder)) (\<lambda>code.
     bindD (resultD (nv_data_type_try_from code)) (\<lambda>data_type.
     bindD (xdr_get (get_usize_32 XdrDecoder)) (\<lambda>count.
     bindD (queryD buf_offset) (\<lambda>value_offset.
     if encoded_size < value_offset - start then failD (NvInvalidEncodedSize encoded_size (value_offset - start))
     else
       bindD (resultD (check_data_type_count_and_get_array_size data_type count)) (\<lambda>array_size.
       bindD (nv_array_prefix data_type count value_offset) (\<lambda>array_offset.
       bindD (nv_value l data_type value_offset (encoded_size - (value_offset - start)) array_offset array_size count) (\<lambda>v.
       bindD (queryD buf_offset) (\<lambda>stop.
       if encoded_size < stop - start then failD (NvInvalidEncodedSize encoded_size (stop - start))
       else if encoded_size - (stop - start) > 0 then failD (NvInvalidEncodedSize encoded_size (stop - start))
       else returnD \<lparr>np_name = name, np_value = v\<rparr>)))))))))"

definition nv_next_pair :: "nv_list \<Rightarrow> (buffer, nv_decode_error, nv_pair option) step" where
  "nv_next_pair l b =
     (if buf_is_empty b then Ok (None, b)
      else
        bindD (xdr_get (get_usize_32 XdrDecoder)) (\<lambda>encoded_size.
        bindD (xdr_get (get_usize_32 XdrDecoder)) (\<lambda>decoded_size.
        if encoded_size = 0 \<and> decoded_size = 0 then returnD None
        else bindD (nv_pair_body l (buf_offset b) encoded_size) (\<lambda>pair. returnD (Some pair)))) b)"

lemma xdr_moves [dec_moves]:
  "moves (get_usize_32 XdrDecoder) 4" "moves (get_u32 XdrDecoder) 0" "moves (get_str XdrDecoder) 0" "moves (get_bytes XdrDecoder) 0"
  "moves (skip XdrDecoder n) 0" "moves (get_u8 XdrDecoder) 0" "moves (get_u16 XdrDecoder) 0" "moves (get_u64 XdrDecoder) 0"
  "moves (get_i8 XdrDecoder) 0" "moves (get_i16 XdrDecoder) 0" "moves (get_i32 XdrDecoder) 0" "moves (get_i64 XdrDecoder) 0"
  "moves (get_f64 XdrDecoder) 0" "moves (get_bool XdrDecoder) 0"
proof -
  have u32: "moves xdr_get_u32 4"
    unfolding xdr_get_u32_def by (intro dec_moves)
  have pad: "moves (xdr_consume_padding n) 0" for n
    unfolding xdr_consume_padding_def by (intro moves_if moves_return moves_any_0[OF moves_buf_zeros(1)])
  have usize: "moves xdr_get_usize_32 4"
    unfolding xdr_get_usize_32_def by (intro moves_bind_first u32 moves_return)
  have str: "moves (buf_get_str n) 0" for n
    using moves_any_0[OF moves_buf_get_bytes[of n]]
    by (auto simp: moves_def buf_get_str_def bindD_def and_then_Ok_iff)
  show "moves (get_usize_32 XdrDecoder) 4"
    unfolding get_usize_32_def by (simp add: XdrDecoder_def) (intro moves_bind_first u32 moves_return)
  show "moves (get_u32 XdrDecoder) 0"
    using moves_any_0[OF u32] by (simp add: XdrDecoder_def)
  show "moves (get_str XdrDecoder) 0"
    by (simp add: XdrDecoder_def)
      (intro moves_bind_rest moves_any_0[OF usize]; unfold xdr_get_str_n_def; intro moves_bind_rest str pad moves_return)
  show "moves (get_bytes XdrDecoder) 0"
    by (simp add: XdrDecoder_def)
      (intro moves_bind_rest moves_any_0[OF usize]; unfold xdr_get_bytes_n_def;
       intro moves_bind_rest moves_any_0[OF moves_buf_get_bytes] pad moves_return)
  show "moves (skip XdrDecoder n) 0"
    by (simp add: XdrDecoder_def xdr_aligned_def moves_fail moves_any_0[OF moves_buf_zeros(3)])
  show "moves (get_u64 XdrDecoder) 0" "moves (get_i32 XdrDecoder) 0" "moves (get_i64 XdrDecoder) 0" "moves (get_f64 XdrDecoder) 0"
    by (simp_all add: XdrDecoder_def moves_any_0[OF moves_wordD[OF moves_buf_words(3)]] moves_any_0[OF moves_wordD[OF moves_buf_words(4)]])
  have guarded: "moves (\<lambda>b. bindD m (f b) b) 0" if "moves m 4" "\<And>b x. moves (f b x) 0" for m :: "'x dec" and f :: "buffer \<Rightarrow> 'x \<Rightarrow> 'y dec"
  proof (rule movesI)
    fix b x b'
    assume run: "bindD m (f b) b = Ok (x, b')"
    have "moves (bindD m (f b)) 4"
      by (rule moves_bind_first[OF that(1)]) (rule that(2))
    from movesD[OF moves_any_0[OF this] run] show "buf_offset b + 0 \<le> buf_offset b' \<and> buf_max_offset b' = buf_max_offset b" .
  qed
  show "moves (get_u8 XdrDecoder) 0" "moves (get_u16 XdrDecoder) 0"
    by (simp_all add: XdrDecoder_def xdr_get_u8_def[abs_def] xdr_get_u16_def[abs_def] Let_def)
      (intro guarded u32 moves_if moves_return moves_fail)+
  show "moves (get_i8 XdrDecoder) 0" "moves (get_i16 XdrDecoder) 0"
    by (simp_all add: XdrDecoder_def xdr_get_i8_def[abs_def] xdr_get_i16_def[abs_def])
      (intro guarded moves_wordD moves_buf_words moves_if moves_return moves_fail)+
  show "moves (get_bool XdrDecoder) 0"
    using moves_any_0[OF u32] by (auto simp: XdrDecoder_def moves_def bool_of_u32_def bindD_def and_then_Ok_iff split: if_splits)
qed

lemma nv_value_moves [dec_moves]:
  "moves (nv_value l data_type value_offset bytes_rem array_offset array_size count) 0"
  by (cases data_type; simp only: nv_value_def nv_data_type.case nv_skip_array_def;
      intro moves_bind_rest moves_lift moves_result moves_return xdr_moves)

lemma nv_array_prefix_moves [dec_moves]: "moves (nv_array_prefix data_type count value_offset) 0"
  unfolding nv_array_prefix_def
  by (intro moves_if moves_bind_rest moves_lift moves_any_0[OF xdr_moves(1)] moves_fail moves_query moves_return)

lemma nv_pair_body_moves: "moves (nv_pair_body l start encoded_size) 0"
  unfolding nv_pair_body_def
  by (intro moves_bind_rest moves_if moves_lift moves_result moves_return moves_fail moves_query xdr_moves(2-)
      moves_any_0[OF xdr_moves(1)] nv_value_moves nv_array_prefix_moves)

lemma nv_next_pair_moves:
  assumes "nv_next_pair l b = Ok (r, b')" "\<not> buf_is_empty b"
  shows "buf_len b' < buf_len b"
proof -
  let ?m = "bindD (xdr_get (get_usize_32 XdrDecoder)) (\<lambda>encoded_size.
    bindD (xdr_get (get_usize_32 XdrDecoder)) (\<lambda>decoded_size.
    if encoded_size = 0 \<and> decoded_size = 0 then returnD None
    else bindD (nv_pair_body l (buf_offset b) encoded_size) (\<lambda>pair. returnD (Some pair))))"
  have rest: "moves (bindD (xdr_get (get_usize_32 XdrDecoder)) (\<lambda>decoded_size.
    if encoded_size = 0 \<and> decoded_size = 0 then returnD None
    else bindD (nv_pair_body l (buf_offset b) encoded_size) (\<lambda>pair. returnD (Some pair)))) 0" for encoded_size :: nat
    by (intro moves_bind_rest moves_if moves_lift moves_any_0[OF xdr_moves(1)] moves_return nv_pair_body_moves)
  have "moves ?m 4"
    by (rule moves_bind_first[OF moves_lift[OF xdr_moves(1)] rest])
  moreover have "?m b = Ok (r, b')"
    using assms by (simp only: nv_next_pair_def if_False)
  ultimately show ?thesis
    using moves_progress[of ?m 4 b r b'] assms(2) by simp
qed

lemma nv_next_pair_Some_moves:
  assumes "nv_next_pair l b = Ok (Some pair, b')"
  shows "buf_len b' < buf_len b"
proof -
  have "\<not> buf_is_empty b"
    using assms by (auto simp: nv_next_pair_def)
  with nv_next_pair_moves[OF assms] show ?thesis
    by blast
qed

text \<open>
  The iterator of a list starts at its range; a range that does not fit is reported as an error by the first
  \<open>next\<close>. All loops over it stop at the first error.
\<close>

definition nv_list_iter :: "nv_list \<Rightarrow> (nv_decode_error, buffer) result" where
  "nv_list_iter l = map_err NvBinary (buf_from_bytes_clamped (nl_data l) (nl_offset l) (nl_length l))"

function nv_find_loop :: "nv_list \<Rightarrow> bytes \<Rightarrow> buffer \<Rightarrow> (nv_decode_error, nv_pair option) result" where
  "nv_find_loop l name b =
     (case nv_next_pair l b of
        Ok (None, _) \<Rightarrow> Ok None
      | Ok (Some pair, b') \<Rightarrow> if np_name pair = name then Ok (Some pair) else nv_find_loop l name b'
      | Err err \<Rightarrow> Err err
      | Panic \<Rightarrow> Panic)"
  by pat_completeness auto
termination
  by (relation "measure (\<lambda>(l, name, b). buf_len b)") (auto dest: nv_next_pair_Some_moves)

declare nv_find_loop.simps [simp del]

definition nv_list_find :: "nv_list \<Rightarrow> bytes \<Rightarrow> (nv_decode_error, nv_pair option) result" where
  "nv_list_find l name = and_then (nv_list_iter l) (\<lambda>b. nv_find_loop l name b)"

text \<open>The offset at which the iteration over a list ends.\<close>

function nv_end_loop :: "nv_list \<Rightarrow> buffer \<Rightarrow> (nv_decode_error, nat) result" where
  "nv_end_loop l b =
     (case nv_next_pair l b of
        Ok (None, b') \<Rightarrow> Ok (buf_offset b')
      | Ok (Some pair, b') \<Rightarrow> nv_end_loop l b'
      | Err err \<Rightarrow> Err err
      | Panic \<Rightarrow> Panic)"
  by pat_completeness auto
termination
  by (relation "measure (\<lambda>(l, b). buf_len b)") (auto dest: nv_next_pair_Some_moves)

declare nv_end_loop.simps [simp del]

section \<open>Iteration over an array\<close>

text \<open>One call of \<open>next\<close> on the iterator of an array: of values, and of lists.\<close>

definition nv_array_iter :: "nv_array \<Rightarrow> (nv_decode_error, buffer) result" where
  "nv_array_iter a = map_err NvBinary (buf_from_bytes_clamped (na_data a) (na_offset a) (na_length a))"

definition nv_array_is_empty :: "nv_array \<Rightarrow> bool" where
  "nv_array_is_empty a \<longleftrightarrow> na_count a = 0"

definition nv_array_len :: "nv_array \<Rightarrow> nat" where
  "nv_array_len a = na_count a"

definition nv_array_next ::
  "(binary_decoder \<Rightarrow> 'a dec) \<Rightarrow> nv_array \<Rightarrow> nat \<Rightarrow> buffer \<Rightarrow> (nv_decode_error, ('a \<times> nat \<times> buffer) option) result" where
  "nv_array_next get a idx b =
     (if idx < na_count a then and_then (map_err NvBinary (get XdrDecoder b)) (\<lambda>(v, b'). Ok (Some (v, idx + 1, b')))
      else Ok None)"

definition nv_list_array_next ::
  "nv_array \<Rightarrow> nat \<Rightarrow> buffer \<Rightarrow> (nv_decode_error, (nv_list \<times> nat \<times> buffer) option) result" where
  "nv_list_array_next a idx b =
     (if idx < na_count a then
        let start = buf_offset b in
        and_then (nv_list_from_partial (buf_data b) (buf_offset b) (buf_len b) (na_encoding a) (na_order a)) (\<lambda>l.
        and_then (nv_list_iter l) (\<lambda>iter.
        and_then (nv_end_loop l iter) (\<lambda>stop.
        let bytes_used = stop - start in
        and_then (map_err NvBinary (skip XdrDecoder bytes_used b)) (\<lambda>(_, b').
        and_then (nv_list_from_partial (buf_data b') start bytes_used (na_encoding a) (na_order a)) (\<lambda>l.
        Ok (Some (l, idx + 1, b')))))))
      else Ok None)"

section \<open>Accessors\<close>

definition np_get_bool_array :: "nv_pair \<Rightarrow> (nv_decode_error, nv_array) result" where
  "np_get_bool_array p = (case np_value p of Dv_BooleanArray v \<Rightarrow> Ok v | _ \<Rightarrow> Err (NvDataTypeMismatch Dt_BooleanArray (nv_data_type_of (np_value p))))"

definition np_get_byte_array :: "nv_pair \<Rightarrow> (nv_decode_error, bytes) result" where
  "np_get_byte_array p = (case np_value p of Dv_ByteArray v \<Rightarrow> Ok v | _ \<Rightarrow> Err (NvDataTypeMismatch Dt_ByteArray (nv_data_type_of (np_value p))))"

definition np_get_i8_array :: "nv_pair \<Rightarrow> (nv_decode_error, nv_array) result" where
  "np_get_i8_array p = (case np_value p of Dv_Int8Array v \<Rightarrow> Ok v | _ \<Rightarrow> Err (NvDataTypeMismatch Dt_Int8Array (nv_data_type_of (np_value p))))"

definition np_get_i16_array :: "nv_pair \<Rightarrow> (nv_decode_error, nv_array) result" where
  "np_get_i16_array p = (case np_value p of Dv_Int16Array v \<Rightarrow> Ok v | _ \<Rightarrow> Err (NvDataTypeMismatch Dt_Int16Array (nv_data_type_of (np_value p))))"

definition np_get_i32_array :: "nv_pair \<Rightarrow> (nv_decode_error, nv_array) result" where
  "np_get_i32_array p = (case np_value p of Dv_Int32Array v \<Rightarrow> Ok v | _ \<Rightarrow> Err (NvDataTypeMismatch Dt_Int32Array (nv_data_type_of (np_value p))))"

definition np_get_i64_array :: "nv_pair \<Rightarrow> (nv_decode_error, nv_array) result" where
  "np_get_i64_array p = (case np_value p of Dv_Int64Array v \<Rightarrow> Ok v | _ \<Rightarrow> Err (NvDataTypeMismatch Dt_Int64Array (nv_data_type_of (np_value p))))"

definition np_get_nv_list :: "nv_pair \<Rightarrow> (nv_decode_error, nv_list) result" where
  "np_get_nv_list p = (case np_value p of Dv_NvList v \<Rightarrow> Ok v | _ \<Rightarrow> Err (NvDataTypeMismatch Dt_NvList (nv_data_type_of (np_value p))))"

definition np_get_nv_list_array :: "nv_pair \<Rightarrow> (nv_decode_error, nv_array) result" where
  "np_get_nv_list_array p = (case np_value p of Dv_NvListArray v \<Rightarrow> Ok v | _ \<Rightarrow> Err (NvDataTypeMismatch Dt_NvListArray (nv_data_type_of (np_value p))))"

definition np_get_str :: "nv_pair \<Rightarrow> (nv_decode_error, bytes) result" where
  "np_get_str p = (case np_value p of Dv_String v \<Rightarrow> Ok v | _ \<Rightarrow> Err (NvDataTypeMismatch Dt_String (nv_data_type_of (np_value p))))"

definition np_get_str_array :: "nv_pair \<Rightarrow> (nv_decode_error, nv_array) result" where
  "np_get_str_array p = (case np_value p of Dv_StringArray v \<Rightarrow> Ok v | _ \<Rightarrow> Err (NvDataTypeMismatch Dt_StringArray (nv_data_type_of (np_value p))))"

definition np_get_u8_array :: "nv_pair \<Rightarrow> (nv_decode_error, nv_array) result" where
  "np_get_u8_array p = (case np_value p of Dv_Uint8Array v \<Rightarrow> Ok v | _ \<Rightarrow> Err (NvDataTypeMismatch Dt_Uint8Array (nv_data_type_of (np_value p))))"

definition np_get_u16_array :: "nv_pair \<Rightarrow> (nv_decode_error, nv_array) result" where
  "np_get_u16_array p = (case np_value p of Dv_Uint16Array v \<Rightarrow> Ok v | _ \<Rightarrow> Err (NvDataTypeMismatch Dt_Uint16Array (nv_data_type_of (np_value p))))"

definition np_get_u32_array :: "nv_pair \<Rightarrow> (nv_decode_error, nv_array) result" where
  "np_get_u32_array p = (case np_value p of Dv_Uint32Array v \<Rightarrow> Ok v | _ \<Rightarrow> Err (NvDataTypeMismatch Dt_Uint32Array (nv_data_type_of (np_value p))))"

definition np_get_u64_array :: "nv_pair \<Rightarrow> (nv_decode_error, nv_array) result" where
  "np_get_u64_array p = (case np_value p of Dv_Uint64Array v \<Rightarrow> Ok v | _ \<Rightarrow> Err (NvDataTypeMismatch Dt_Uint64Array (nv_data_type_of (np_value p))))"

definition np_get_bool :: "nv_pair \<Rightarrow> (nv_decode_error, bool) result" where
  "np_get_bool p = (case np_value p of Dv_BooleanValue v \<Rightarrow> Ok v | _ \<Rightarrow> Err (NvDataTypeMismatch Dt_BooleanValue (nv_data_type_of (np_value p))))"

definition np_get_bool_flag :: "nv_pair \<Rightarrow> (nv_decode_error, bool) result" where
  "np_get_bool_flag p = (case np_value p of Dv_Boolean \<Rightarrow> Ok True | _ \<Rightarrow> Err (NvDataTypeMismatch Dt_Boolean (nv_data_type_of (np_value p))))"

definition np_get_byte :: "nv_pair \<Rightarrow> (nv_decode_error, u8) result" where
  "np_get_byte p = (case np_value p of Dv_Byte v \<Rightarrow> Ok v | _ \<Rightarrow> Err (NvDataTypeMismatch Dt_Byte (nv_data_type_of (np_value p))))"

definition np_get_f64 :: "nv_pair \<Rightarrow> (nv_decode_error, 64 word) result" where
  "np_get_f64 p = (case np_value p of Dv_Double v \<Rightarrow> Ok v | _ \<Rightarrow> Err (NvDataTypeMismatch Dt_Double (nv_data_type_of (np_value p))))"

definition np_get_hr_time :: "nv_pair \<Rightarrow> (nv_decode_error, 64 word) result" where
  "np_get_hr_time p = (case np_value p of Dv_HrTime v \<Rightarrow> Ok v | _ \<Rightarrow> Err (NvDataTypeMismatch Dt_HrTime (nv_data_type_of (np_value p))))"

definition np_get_i8 :: "nv_pair \<Rightarrow> (nv_decode_error, 8 word) result" where
  "np_get_i8 p = (case np_value p of Dv_Int8 v \<Rightarrow> Ok v | _ \<Rightarrow> Err (NvDataTypeMismatch Dt_Int8 (nv_data_type_of (np_value p))))"

definition np_get_i16 :: "nv_pair \<Rightarrow> (nv_decode_error, 16 word) result" where
  "np_get_i16 p = (case np_value p of Dv_Int16 v \<Rightarrow> Ok v | _ \<Rightarrow> Err (NvDataTypeMismatch Dt_Int16 (nv_data_type_of (np_value p))))"

definition np_get_i32 :: "nv_pair \<Rightarrow> (nv_decode_error, 32 word) result" where
  "np_get_i32 p = (case np_value p of Dv_Int32 v \<Rightarrow> Ok v | _ \<Rightarrow> Err (NvDataTypeMismatch Dt_Int32 (nv_data_type_of (np_value p))))"

definition np_get_i64 :: "nv_pair \<Rightarrow> (nv_decode_error, 64 word) result" where
  "np_get_i64 p = (case np_value p of Dv_Int64 v \<Rightarrow> Ok v | _ \<Rightarrow> Err (NvDataTypeMismatch Dt_Int64 (nv_data_type_of (np_value p))))"

definition np_get_u8 :: "nv_pair \<Rightarrow> (nv_decode_error, u8) result" where
  "np_get_u8 p = (case np_value p of Dv_Uint8 v \<Rightarrow> Ok v | _ \<Rightarrow> Err (NvDataTypeMismatch Dt_Uint8 (nv_data_type_of (np_value p))))"

definition np_get_u16 :: "nv_pair \<Rightarrow> (nv_decode_error, u16) result" where
  "np_get_u16 p = (case np_value p of Dv_Uint16 v \<Rightarrow> Ok v | _ \<Rightarrow> Err (NvDataTypeMismatch Dt_Uint16 (nv_data_type_of (np_value p))))"

definition np_get_u32 :: "nv_pair \<Rightarrow> (nv_decode_error, u32) result" where
  "np_get_u32 p = (case np_value p of Dv_Uint32 v \<Rightarrow> Ok v | _ \<Rightarrow> Err (NvDataTypeMismatch Dt_Uint32 (nv_data_type_of (np_value p))))"

definition np_get_u64 :: "nv_pair \<Rightarrow> (nv_decode_error, u64) result" where
  "np_get_u64 p = (case np_value p of Dv_Uint64 v \<Rightarrow> Ok v | _ \<Rightarrow> Err (NvDataTypeMismatch Dt_Uint64 (nv_data_type_of (np_value p))))"

definition nv_list_get ::
  "(nv_pair \<Rightarrow> (nv_decode_error, 'a) result) \<Rightarrow> nv_list \<Rightarrow> bytes \<Rightarrow> (nv_decode_error, 'a option) result" where
  "nv_list_get get l name = and_then (nv_list_find l name) (\<lambda>pair.
     case pair of Some pair \<Rightarrow> and_then (get pair) (\<lambda>v. Ok (Some v)) | None \<Rightarrow> Ok None)"

definition nl_get_bool_array :: "nv_list \<Rightarrow> bytes \<Rightarrow> (nv_decode_error, nv_array option) result" where
  "nl_get_bool_array = nv_list_get np_get_bool_array"

definition nl_get_byte_array :: "nv_list \<Rightarrow> bytes \<Rightarrow> (nv_decode_error, bytes option) result" where
  "nl_get_byte_array = nv_list_get np_get_byte_array"

definition nl_get_i8_array :: "nv_list \<Rightarrow> bytes \<Rightarrow> (nv_decode_error, nv_array option) result" where
  "nl_get_i8_array = nv_list_get np_get_i8_array"

definition nl_get_i16_array :: "nv_list \<Rightarrow> bytes \<Rightarrow> (nv_decode_error, nv_array option) result" where
  "nl_get_i16_array = nv_list_get np_get_i16_array"

definition nl_get_i32_array :: "nv_list \<Rightarrow> bytes \<Rightarrow> (nv_decode_error, nv_array option) result" where
  "nl_get_i32_array = nv_list_get np_get_i32_array"

definition nl_get_i64_array :: "nv_list \<Rightarrow> bytes \<Rightarrow> (nv_decode_error, nv_array option) result" where
  "nl_get_i64_array = nv_list_get np_get_i64_array"

definition nl_get_nv_list :: "nv_list \<Rightarrow> bytes \<Rightarrow> (nv_decode_error, nv_list option) result" where
  "nl_get_nv_list = nv_list_get np_get_nv_list"

definition nl_get_nv_list_array :: "nv_list \<Rightarrow> bytes \<Rightarrow> (nv_decode_error, nv_array option) result" where
  "nl_get_nv_list_array = nv_list_get np_get_nv_list_array"

definition nl_get_str :: "nv_list \<Rightarrow> bytes \<Rightarrow> (nv_decode_error, bytes option) result" where
  "nl_get_str = nv_list_get np_get_str"

definition nl_get_str_array :: "nv_list \<Rightarrow> bytes \<Rightarrow> (nv_decode_error, nv_array option) result" where
  "nl_get_str_array = nv_list_get np_get_str_array"

definition nl_get_u8_array :: "nv_list \<Rightarrow> bytes \<Rightarrow> (nv_decode_error, nv_array option) result" where
  "nl_get_u8_array = nv_list_get np_get_u8_array"

definition nl_get_u16_array :: "nv_list \<Rightarrow> bytes \<Rightarrow> (nv_decode_error, nv_array option) result" where
  "nl_get_u16_array = nv_list_get np_get_u16_array"

definition nl_get_u32_array :: "nv_list \<Rightarrow> bytes \<Rightarrow> (nv_decode_error, nv_array option) result" where
  "nl_get_u32_array = nv_list_get np_get_u32_array"

definition nl_get_u64_array :: "nv_list \<Rightarrow> bytes \<Rightarrow> (nv_decode_error, nv_array option) result" where
  "nl_get_u64_array = nv_list_get np_get_u64_array"

definition nl_get_bool :: "nv_list \<Rightarrow> bytes \<Rightarrow> (nv_decode_error, bool option) result" where
  "nl_get_bool = nv_list_get np_get_bool"

definition nl_get_bool_flag :: "nv_list \<Rightarrow> bytes \<Rightarrow> (nv_decode_error, bool option) result" where
  "nl_get_bool_flag = nv_list_get np_get_bool_flag"

definition nl_get_byte :: "nv_list \<Rightarrow> bytes \<Rightarrow> (nv_decode_error, u8 option) result" where
  "nl_get_byte = nv_list_get np_get_byte"

definition nl_get_f64 :: "nv_list \<Rightarrow> bytes \<Rightarrow> (nv_decode_error, 64 word option) result" where
  "nl_get_f64 = nv_list_get np_get_f64"

definition nl_get_hr_time :: "nv_list \<Rightarrow> bytes \<Rightarrow> (nv_decode_error, 64 word option) result" where
  "nl_get_hr_time = nv_list_get np_get_hr_time"

definition nl_get_i8 :: "nv_list \<Rightarrow> bytes \<Rightarrow> (nv_decode_error, 8 word option) result" where
  "nl_get_i8 = nv_list_get np_get_i8"

definition nl_get_i16 :: "nv_list \<Rightarrow> bytes \<Rightarrow> (nv_decode_error, 16 word option) result" where
  "nl_get_i16 = nv_list_get np_get_i16"

definition nl_get_i32 :: "nv_list \<Rightarrow> bytes \<Rightarrow> (nv_decode_error, 32 word option) result" where
  "nl_get_i32 = nv_list_get np_get_i32"

definition nl_get_i64 :: "nv_list \<Rightarrow> bytes \<Rightarrow> (nv_decode_error, 64 word option) result" where
  "nl_get_i64 = nv_list_get np_get_i64"

definition nl_get_u8 :: "nv_list \<Rightarrow> bytes \<Rightarrow> (nv_decode_error, u8 option) result" where
  "nl_get_u8 = nv_list_get np_get_u8"

definition nl_get_u16 :: "nv_list \<Rightarrow> bytes \<Rightarrow> (nv_decode_error, u16 option) result" where
  "nl_get_u16 = nv_list_get np_get_u16"

definition nl_get_u32 :: "nv_list \<Rightarrow> bytes \<Rightarrow> (nv_decode_error, u32 option) result" where
  "nl_get_u32 = nv_list_get np_get_u32"

definition nl_get_u64 :: "nv_list \<Rightarrow> bytes \<Rightarrow> (nv_decode_error, u64 option) result" where
  "nl_get_u64 = nv_list_get np_get_u64"

section \<open>Decoding never panics\<close>

lemma and_then_safe: "r \<noteq> Panic \<Longrightarrow> (\<And>x. r = Ok x \<Longrightarrow> f x \<noteq> Panic) \<Longrightarrow> and_then r f \<noteq> Panic"
  by (auto simp: and_then_Panic_iff)

lemma nv_try_from_safe [simp]:
  "nv_endian_order_try_from a \<noteq> Panic" "nv_encoding_try_from a \<noteq> Panic" "nv_unique_try_from a \<noteq> Panic"
  "nv_data_type_try_from w \<noteq> Panic" "check_data_type_count_and_get_array_size t n \<noteq> Panic"
  by (auto simp: nv_endian_order_try_from_def nv_encoding_try_from_def nv_unique_try_from_def nv_data_type_try_from_def
      check_data_type_count_and_get_array_size_def and_then_Panic_iff split: option.split)

lemma nv_data_type_roundtrip: "nv_data_type_try_from (nv_data_type_to_u32 t) = Ok t"
  by (cases t) (simp_all add: nv_data_type_try_from_def nv_data_type_to_u32_def nv_data_type_table_def)

lemma xdr_word_step:
  assumes "wf_buf b"
  shows "get_u32 XdrDecoder b \<noteq> Panic" "get_u32 XdrDecoder b = Ok (w, b') \<Longrightarrow> wf_buf b'"
  using safe_decD[OF xdr.get_u32 assms] by blast+

lemma clamped_safe: "buf_from_bytes_clamped bs off len \<noteq> Panic"
  by (simp add: buf_from_bytes_clamped_def)

lemma nv_list_from_partial_safe: "nv_list_from_partial data start len encoding order \<noteq> Panic"
  by (auto simp: nv_list_from_partial_def Let_def and_then_Panic_iff clamped_safe xdr_word_step(1)
      dest!: wf_buf_from_bytes_clamped dest: xdr_word_step(2) split: if_splits)

lemma nv_list_from_bytes_safe: "nv_list_from_bytes data \<noteq> Panic"
proof (cases "length data < NV_HEADER_SIZE")
  case False
  then obtain a b c d rest where "data = a # b # c # d # rest"
    by (auto simp: NV_HEADER_SIZE_def Suc_le_length_iff numeral_eq_Suc not_less)
  then show ?thesis
    by (auto simp: nv_list_from_bytes_def NV_HEADER_SIZE_def slice_def slice_get_def index_def index_get_def Let_def
        nv_list_from_partial_safe and_then_Panic_iff split: if_splits)
qed (simp add: nv_list_from_bytes_def)

lemma xdr_usize_safe: "safe_dec (get_usize_32 XdrDecoder)"
  unfolding get_usize_32_def by (intro dec_safe xdr.get_u32)

lemma nv_value_safe: "safe_dec (nv_value l data_type value_offset bytes_rem array_offset array_size count)"
  by (cases data_type; simp only: nv_value_def nv_data_type.case nv_skip_array_def;
      intro dec_safe xdr.methods nv_list_from_partial_safe)

lemma nv_pair_body_safe: "safe_dec (nv_pair_body l start encoded_size)"
  unfolding nv_pair_body_def nv_array_prefix_def
  by (intro dec_safe xdr.methods xdr_usize_safe nv_value_safe nv_try_from_safe)

lemma nv_next_pair_safe: "safe_dec (nv_next_pair l)"
proof -
  have "safe_dec (bindD (xdr_get (get_usize_32 XdrDecoder)) (\<lambda>encoded_size.
    bindD (xdr_get (get_usize_32 XdrDecoder)) (\<lambda>decoded_size.
    if encoded_size = 0 \<and> decoded_size = 0 then returnD None
    else bindD (nv_pair_body l start encoded_size) (\<lambda>pair. returnD (Some pair)))))" for start
    by (intro dec_safe xdr_usize_safe nv_pair_body_safe)
  then show ?thesis
    unfolding safe_dec_def nv_next_pair_def by simp
qed

lemma nv_find_loop_safe: "wf_buf b \<Longrightarrow> nv_find_loop l name b \<noteq> Panic"
proof (induction l name b rule: nv_find_loop.induct)
  case (1 l name b)
  show ?case
    using safe_decD[OF nv_next_pair_safe "1.prems", of l] "1.IH"
    by (subst nv_find_loop.simps) (auto split: result.splits prod.splits option.splits)
qed

lemma nv_end_loop_safe: "wf_buf b \<Longrightarrow> nv_end_loop l b \<noteq> Panic"
proof (induction l b rule: nv_end_loop.induct)
  case (1 l b)
  show ?case
    using safe_decD[OF nv_next_pair_safe "1.prems", of l] "1.IH"
    by (subst nv_end_loop.simps) (auto split: result.splits prod.splits option.splits)
qed

lemma nv_list_iter_safe: "nv_list_iter l \<noteq> Panic" "nv_list_iter l = Ok b \<Longrightarrow> wf_buf b"
  by (auto simp: nv_list_iter_def clamped_safe dest: wf_buf_from_bytes_clamped)

text \<open>
  The loop \<open>for list in array\<close> over an array of lists, on the index and the decoder of its iterator. It stops at the
  first error.
\<close>

function nv_list_array_loop :: "nv_array \<Rightarrow> nat \<Rightarrow> buffer \<Rightarrow> (nv_decode_error, nv_list list) result" where
  "nv_list_array_loop a idx b =
     (case nv_list_array_next a idx b of
        Ok None \<Rightarrow> Ok []
      | Ok (Some (l, idx', b')) \<Rightarrow> and_then (nv_list_array_loop a idx' b') (\<lambda>ls. Ok (l # ls))
      | Err err \<Rightarrow> Err err
      | Panic \<Rightarrow> Panic)"
  by pat_completeness auto
termination
  by (relation "measure (\<lambda>(a, idx, b). na_count a - idx)")
    (auto simp: nv_list_array_next_def Let_def and_then_Ok_iff split: if_splits)

declare nv_list_array_loop.simps [simp del]

definition nv_list_array_collect :: "nv_array \<Rightarrow> (nv_decode_error, nv_list list) result" where
  "nv_list_array_collect a = and_then (nv_array_iter a) (nv_list_array_loop a 0)"

lemma nv_list_array_next_safe:
  assumes "wf_buf b"
  shows "nv_list_array_next a idx b \<noteq> Panic" "nv_list_array_next a idx b = Ok (Some (l, idx', b')) \<Longrightarrow> wf_buf b'"
proof -
  have skip: "skip XdrDecoder n b \<noteq> Panic" "skip XdrDecoder n b = Ok (u, c) \<Longrightarrow> wf_buf c" for n u c
    using safe_decD[OF xdr.skip assms] by blast+
  show "nv_list_array_next a idx b \<noteq> Panic"
    by (auto simp: nv_list_array_next_def Let_def and_then_Panic_iff skip(1) nv_list_from_partial_safe nv_list_iter_safe(1)
        nv_end_loop_safe dest!: nv_list_iter_safe(2) split: if_splits)
  show "wf_buf b'" if "nv_list_array_next a idx b = Ok (Some (l, idx', b'))"
    using that by (auto simp: nv_list_array_next_def Let_def and_then_Ok_iff intro: skip(2) split: if_splits)
qed

lemma nv_list_array_loop_safe: "wf_buf b \<Longrightarrow> nv_list_array_loop a idx b \<noteq> Panic"
proof (induction a idx b rule: nv_list_array_loop.induct)
  case (1 a idx b)
  show ?case
    using nv_list_array_next_safe[OF "1.prems", of a idx] "1.IH"
    by (subst nv_list_array_loop.simps) (auto simp: and_then_Panic_iff split: result.splits prod.splits option.splits)
qed

lemma nv_list_find_safe: "nv_list_find l name \<noteq> Panic"
  unfolding nv_list_find_def using nv_list_iter_safe by (intro and_then_safe nv_find_loop_safe)

lemma nv_array_iter_safe: "nv_array_iter a \<noteq> Panic" "nv_array_iter a = Ok b \<Longrightarrow> wf_buf b"
  by (auto simp: nv_array_iter_def clamped_safe dest: wf_buf_from_bytes_clamped)

lemma nv_list_array_collect_safe: "nv_list_array_collect a \<noteq> Panic"
  unfolding nv_list_array_collect_def using nv_array_iter_safe by (intro and_then_safe nv_list_array_loop_safe)

end
