(* ===== verification/Nv_Props.thy ===== *)
theory Nv_Props
  imports Nv
begin

text \<open>
  The search of a name/value list against the layout of the list: a header, the pairs one after the other, and
  an end mark. The layout is given for integers and strings, which are what an import reads.
\<close>

section \<open>Steps at an offset\<close>

text \<open>\<open>reads_at o m bs x\<close>: as \<open>reads\<close>, for a step that starts at the offset \<open>o\<close> and may ask for it.\<close>

definition reads_at :: "nat \<Rightarrow> (buffer, 'e, 'a) step \<Rightarrow> bytes \<Rightarrow> 'a \<Rightarrow> bool" where
  "reads_at off m bs x \<longleftrightarrow> (\<forall>b. wf_buf b \<longrightarrow> buf_offset b = off \<longrightarrow> off + length bs \<le> buf_max_offset b \<longrightarrow>
     take (length bs) (drop off (buf_data b)) = bs \<longrightarrow> m b = Ok (x, b\<lparr>buf_offset := off + length bs\<rparr>))"

lemma reads_at_reads: "reads m bs x \<Longrightarrow> reads_at off m bs x"
  by (simp add: reads_def reads_at_def)

lemma reads_at_bind:
  assumes "reads_at off m bs x" "reads_at (off + length bs) (f x) cs y"
  shows "reads_at off (bindD m f) (bs @ cs) y"
  unfolding reads_at_def
proof (intro allI impI)
  fix b :: buffer
  assume b: "wf_buf b" "buf_offset b = off" "off + length (bs @ cs) \<le> buf_max_offset b"
    "take (length (bs @ cs)) (drop off (buf_data b)) = bs @ cs"
  let ?b = "b\<lparr>buf_offset := off + length bs\<rparr>"
  have bs: "take (length bs) (drop off (buf_data b)) = bs"
    using arg_cong[OF b(4), of "take (length bs)"] by simp
  have cs: "take (length cs) (drop (off + length bs) (buf_data b)) = cs"
    using arg_cong[OF b(4), of "drop (length bs)"] by (simp add: drop_take add.commute)
  have "m b = Ok (x, ?b)"
    using assms(1) b bs by (simp add: reads_at_def)
  moreover have "f x ?b = Ok (y, ?b\<lparr>buf_offset := off + length bs + length cs\<rparr>)"
    using assms(2) b cs by (simp add: reads_at_def wf_buf_def)
  ultimately show "bindD m f b = Ok (y, b\<lparr>buf_offset := off + length (bs @ cs)\<rparr>)"
    by (simp add: bindD_def add.assoc)
qed

lemma reads_at_bind_nil: "reads_at off m [] x \<Longrightarrow> reads_at off (f x) cs y \<Longrightarrow> reads_at off (bindD m f) cs y"
  using reads_at_bind[of off m "[]" x f cs y] by simp

lemma reads_at_bind_last: "reads_at off m bs x \<Longrightarrow> reads_at (off + length bs) (f x) [] y \<Longrightarrow> reads_at off (bindD m f) bs y"
  using reads_at_bind[of off m bs x f "[]" y] by simp

lemma reads_at_offset: "reads_at off (queryD buf_offset) [] off"
  by (simp add: reads_at_def queryD_def)

section \<open>XDR values\<close>

definition xdr_pad :: "nat \<Rightarrow> bytes" where
  "xdr_pad n = replicate (if n mod 4 = 0 then 0 else 4 - n mod 4) 0"

definition xdr_usize_bytes :: "nat \<Rightarrow> bytes" where
  "xdr_usize_bytes n = be_bytes 4 (of_nat n :: u32)"

definition xdr_str_bytes :: "bytes \<Rightarrow> bytes" where
  "xdr_str_bytes s = xdr_usize_bytes (length s) @ s @ xdr_pad (length s)"

lemma length_xdr_usize [simp]: "length (xdr_usize_bytes n) = 4"
  by (simp add: xdr_usize_bytes_def)

lemma xdr_u32_reads: "reads (get_u32 XdrDecoder) (be_bytes 4 w) w"
  by (rule xdr_codec.get_u32)

lemma xdr_usize_reads:
  assumes "n < 2 ^ 32"
  shows "reads (get_usize_32 XdrDecoder) (xdr_usize_bytes n) n"
proof -
  have "unat (of_nat n :: u32) = n"
    using assms by (simp add: unsigned_of_nat take_bit_nat_eq_self)
  then show ?thesis
    unfolding get_usize_32_def xdr_usize_bytes_def
    by (intro reads_bindD_last[OF xdr_u32_reads] reads_returnD_eq)
qed

lemma xdr_str_reads:
  assumes "length s < 2 ^ 32" "utf8_valid s"
  shows "reads (get_str XdrDecoder) (xdr_str_bytes s) s"
proof -
  have pad: "reads (xdr_consume_padding (length s)) (xdr_pad (length s)) ()"
    using reads_buf_skip_zeros[of "4 - length s mod 4"] by (simp add: xdr_consume_padding_def xdr_pad_def reads_returnD)
  have str: "reads (buf_get_str (length s)) s s"
    using reads_buf_get_bytes[OF refl, of s] assms(2)
    by (auto simp: reads_def buf_get_str_def bindD_def from_utf8_Ok_iff[THEN iffD2])
  have "reads (xdr_get_str_n (length s)) (s @ xdr_pad (length s)) s"
    unfolding xdr_get_str_n_def by (rule reads_bindD[OF str]) (rule reads_bindD_last[OF pad reads_returnD])
  moreover have "reads xdr_get_usize_32 (xdr_usize_bytes (length s)) (length s)"
    using xdr_usize_reads[OF assms(1)] by (simp add: get_usize_32_def xdr_get_usize_32_def XdrDecoder_def)
  ultimately have "reads (bindD xdr_get_usize_32 xdr_get_str_n) (xdr_str_bytes s) s"
    unfolding xdr_str_bytes_def by (rule reads_bindD[rotated])
  then show ?thesis
    by (simp add: XdrDecoder_def)
qed

section \<open>The layout of a list\<close>

definition nv_value_bytes :: "nv_data_value \<Rightarrow> bytes" where
  "nv_value_bytes v = (case v of Dv_Uint64 w \<Rightarrow> be_bytes 8 w | Dv_String s \<Rightarrow> xdr_str_bytes s | _ \<Rightarrow> [])"

definition wf_nv_value :: "nv_data_value \<Rightarrow> bool" where
  "wf_nv_value v = (case v of Dv_Uint64 w \<Rightarrow> True | Dv_String s \<Rightarrow> length s < 2 ^ 16 \<and> utf8_valid s | _ \<Rightarrow> False)"

definition nv_body_bytes :: "bytes \<times> nv_data_value \<Rightarrow> bytes" where
  "nv_body_bytes p = xdr_str_bytes (fst p) @ be_bytes 4 (nv_data_type_to_u32 (nv_data_type_of (snd p))) @ xdr_usize_bytes 1 @
     nv_value_bytes (snd p)"

definition nv_pair_bytes :: "bytes \<times> nv_data_value \<Rightarrow> bytes" where
  "nv_pair_bytes p = (let n = 8 + length (nv_body_bytes p) in xdr_usize_bytes n @ xdr_usize_bytes n @ nv_body_bytes p)"

definition wf_nv_pair :: "bytes \<times> nv_data_value \<Rightarrow> bool" where
  "wf_nv_pair p \<longleftrightarrow> length (fst p) < 2 ^ 16 \<and> utf8_valid (fst p) \<and> wf_nv_value (snd p)"

definition nv_list_bytes :: "(bytes \<times> nv_data_value) list \<Rightarrow> bytes" where
  "nv_list_bytes ps = [1, 1, 0, 0] @ be_bytes 4 (0 :: u32) @ be_bytes 4 (1 :: u32) @
     concat (map nv_pair_bytes ps) @ xdr_usize_bytes 0 @ xdr_usize_bytes 0"

lemma length_xdr_str: "length (xdr_str_bytes s) \<le> length s + 8"
  by (simp add: xdr_str_bytes_def xdr_pad_def)

lemma nv_body_small: "wf_nv_pair p \<Longrightarrow> 8 + length (nv_body_bytes p) < 2 ^ 32"
  using length_xdr_str[of "fst p"]
  by (cases "snd p") (auto simp: wf_nv_pair_def wf_nv_value_def nv_body_bytes_def nv_value_bytes_def
      intro: le_less_trans[OF add_mono[OF length_xdr_str length_xdr_str]])

lemma nv_value_reads:
  assumes "wf_nv_value v"
  shows "reads (nv_value l (nv_data_type_of v) off n aoff asize cnt) (nv_value_bytes v) v"
proof (cases v)
  case (Dv_Uint64 w)
  then show ?thesis
    by (simp add: nv_data_type_of_def nv_value_def nv_value_bytes_def)
      (intro reads_bindD_last[OF reads_liftD[OF xdr_codec.get_u64]] reads_returnD)
next
  case (Dv_String s)
  with assms have str: "reads (get_str XdrDecoder) (xdr_str_bytes s) s"
    by (intro xdr_str_reads) (simp_all add: wf_nv_value_def)
  show ?thesis
    by (simp add: Dv_String nv_data_type_of_def nv_value_def nv_value_bytes_def)
      (intro reads_bindD_last[OF reads_liftD[OF str]] reads_returnD)
qed (use assms in \<open>simp_all add: wf_nv_value_def\<close>)

lemma nv_pair_body_reads:
  assumes "wf_nv_pair p"
  shows "reads_at (start + 8) (nv_pair_body l start (8 + length (nv_body_bytes p))) (nv_body_bytes p)
    \<lparr>np_name = fst p, np_value = snd p\<rparr>"
proof -
  let ?t = "nv_data_type_of (snd p)"
  have name: "length (fst p) < 2 ^ 32" "utf8_valid (fst p)" and v: "wf_nv_value (snd p)"
    using assms by (simp_all add: wf_nv_pair_def)
  have type: "\<not> is_fixed_width_array ?t" "check_data_type_count_and_get_array_size ?t 1 = Ok 0"
    using v by (cases "snd p"; simp add: wf_nv_value_def nv_data_type_of_def is_fixed_width_array_def
        check_data_type_count_and_get_array_size_def)+
  show ?thesis
    unfolding nv_pair_body_def nv_body_bytes_def
    apply (rule reads_at_bind[OF reads_at_reads[OF reads_liftD[OF xdr_str_reads[OF name]]]])
    apply (rule reads_at_bind[OF reads_at_reads[OF reads_liftD[OF xdr_u32_reads]]])
    apply (rule reads_at_bind_nil[OF reads_at_reads[OF reads_resultD[OF nv_data_type_roundtrip]]])
    apply (rule reads_at_bind[OF reads_at_reads[OF reads_liftD[OF xdr_usize_reads]]], simp)
    apply (rule reads_at_bind_nil[OF reads_at_offset])
    apply (subst if_not_P, simp)
    apply (rule reads_at_bind_nil[OF reads_at_reads[OF reads_resultD[OF type(2)]]])
    apply (rule reads_at_bind_nil[where x = "off" for off], simp only: nv_array_prefix_def type(1) if_False,
        rule reads_at_reads[OF reads_returnD])
    apply (rule reads_at_bind_last[OF reads_at_reads[OF nv_value_reads[OF v]]])
    apply (rule reads_at_bind_nil[OF reads_at_offset])
    apply (simp, rule reads_at_reads[OF reads_returnD])
    done
qed

section \<open>Searching a list\<close>

definition at_bytes :: "buffer \<Rightarrow> bytes \<Rightarrow> bool" where
  "at_bytes b bs \<longleftrightarrow> wf_buf b \<and> buf_max_offset b = length (buf_data b) \<and> drop (buf_offset b) (buf_data b) = bs"

lemma at_bytes_advance:
  assumes "at_bytes b (bs @ cs)"
  shows "at_bytes (b\<lparr>buf_offset := buf_offset b + length bs\<rparr>) cs" "buf_offset b + length bs \<le> buf_max_offset b"
    "take (length bs) (drop (buf_offset b) (buf_data b)) = bs" "wf_buf b"
proof -
  have split: "drop (buf_offset b) (buf_data b) = bs @ cs"
    using assms by (simp add: at_bytes_def)
  then have "drop (length bs) (drop (buf_offset b) (buf_data b)) = cs"
    by simp
  moreover show room: "buf_offset b + length bs \<le> buf_max_offset b"
    using arg_cong[OF split, of length] assms by (auto simp: at_bytes_def wf_buf_def)
  ultimately show "at_bytes (b\<lparr>buf_offset := buf_offset b + length bs\<rparr>) cs"
    using assms by (simp add: at_bytes_def wf_buf_def add.commute)
qed (use assms in \<open>simp_all add: at_bytes_def\<close>)

lemma at_bytes_len: "at_bytes b bs \<Longrightarrow> buf_len b = length bs"
  by (auto simp: at_bytes_def buf_len_def)

lemma nv_next_pair_at:
  assumes "wf_nv_pair p" "at_bytes b (nv_pair_bytes p @ rest)"
  shows "\<exists>b'. nv_next_pair l b = Ok (Some \<lparr>np_name = fst p, np_value = snd p\<rparr>, b') \<and> at_bytes b' rest"
proof -
  let ?n = "8 + length (nv_body_bytes p)"
  let ?m = "bindD (xdr_get (get_usize_32 XdrDecoder)) (\<lambda>encoded_size.
    bindD (xdr_get (get_usize_32 XdrDecoder)) (\<lambda>decoded_size.
    if encoded_size = 0 \<and> decoded_size = 0 then returnD None
    else bindD (nv_pair_body l (buf_offset b) encoded_size) (\<lambda>pair. returnD (Some pair))))"
  note size = reads_at_reads[OF reads_liftD[OF xdr_usize_reads[OF nv_body_small[OF assms(1)]]]]
  have body: "reads_at (buf_offset b + length (xdr_usize_bytes ?n) + length (xdr_usize_bytes ?n))
      (nv_pair_body l (buf_offset b) ?n) (nv_body_bytes p) \<lparr>np_name = fst p, np_value = snd p\<rparr>"
    using nv_pair_body_reads[OF assms(1), of "buf_offset b" l] by (simp add: add.assoc)
  have "reads_at (buf_offset b) ?m (nv_pair_bytes p) (Some \<lparr>np_name = fst p, np_value = snd p\<rparr>)"
    unfolding nv_pair_bytes_def Let_def
    apply (rule reads_at_bind[OF size])
    apply (rule reads_at_bind[OF size])
    apply (subst if_not_P, simp)
    by (rule reads_at_bind_last[OF body]) (rule reads_at_reads[OF reads_returnD])
  then have "?m b = Ok (Some \<lparr>np_name = fst p, np_value = snd p\<rparr>, b\<lparr>buf_offset := buf_offset b + length (nv_pair_bytes p)\<rparr>)"
    using at_bytes_advance[OF assms(2)] by (simp only: reads_at_def)
  moreover have "\<not> buf_is_empty b"
    using at_bytes_len[OF assms(2)] by (simp add: buf_is_empty_def nv_pair_bytes_def Let_def)
  ultimately show ?thesis
    using at_bytes_advance(1)[OF assms(2)] unfolding nv_next_pair_def by (intro exI conjI) (simp_all only: if_False)
qed

lemma nv_end_mark:
  assumes "at_bytes b (xdr_usize_bytes 0 @ xdr_usize_bytes 0 @ rest)"
  shows "\<exists>b'. nv_next_pair l b = Ok (None, b')"
proof -
  have zero: "reads (xdr_get (get_usize_32 XdrDecoder)) (xdr_usize_bytes 0) 0"
    by (intro reads_liftD xdr_usize_reads) simp
  have "reads (bindD (xdr_get (get_usize_32 XdrDecoder)) (\<lambda>encoded_size.
    bindD (xdr_get (get_usize_32 XdrDecoder)) (\<lambda>decoded_size.
    if encoded_size = 0 \<and> decoded_size = 0 then returnD None
    else bindD (nv_pair_body l (buf_offset b) encoded_size) (\<lambda>pair. returnD (Some pair)))))
    (xdr_usize_bytes 0 @ xdr_usize_bytes 0) None"
    by (rule reads_bindD[OF zero], rule reads_bindD_last[OF zero], subst if_P, simp, rule reads_returnD)
  from readsD[OF this] at_bytes_advance[OF assms[folded append_assoc]] show ?thesis
    by (auto simp: nv_next_pair_def)
qed

lemma nv_find_loop_at:
  assumes "list_all wf_nv_pair ps" "at_bytes b (concat (map nv_pair_bytes ps) @ xdr_usize_bytes 0 @ xdr_usize_bytes 0)"
  shows "nv_find_loop l name b = Ok (map_option (\<lambda>v. \<lparr>np_name = name, np_value = v\<rparr>) (map_of ps name))"
  using assms
proof (induction ps arbitrary: b)
  case Nil
  then show ?case
    using nv_end_mark[of b "[]" l] by (subst nv_find_loop.simps) auto
next
  case (Cons p ps)
  obtain b' where "nv_next_pair l b = Ok (Some \<lparr>np_name = fst p, np_value = snd p\<rparr>, b')"
    and "at_bytes b' (concat (map nv_pair_bytes ps) @ xdr_usize_bytes 0 @ xdr_usize_bytes 0)"
    using nv_next_pair_at[of p b _ l] Cons.prems by (auto simp: append_assoc)
  with Cons show ?case
    by (subst nv_find_loop.simps) (cases p, auto)
qed

text \<open>
  C9. Searching a name/value list finds what was written: on the XDR layout of a list of integers and strings, the
  list is opened, and the search for a name returns the first pair with that name, or nothing if there is none.
\<close>

theorem nv_list_find_layout:
  assumes "list_all wf_nv_pair ps"
  shows "\<exists>l. nv_list_from_bytes (nv_list_bytes ps) = Ok l \<and>
    nv_list_find l name = Ok (map_option (\<lambda>v. \<lparr>np_name = name, np_value = v\<rparr>) (map_of ps name))"
proof -
  let ?data = "nv_list_bytes ps"
  let ?rest = "concat (map nv_pair_bytes ps) @ xdr_usize_bytes 0 @ xdr_usize_bytes 0"
  define l where "l = \<lparr>nl_data = ?data, nl_offset = 12, nl_length = length ?rest, nl_encoding = Nv_Xdr,
    nl_order = Little, nl_unique = Nv_Unique_Name\<rparr>"
  have split: "?data = [1, 1, 0, 0] @ be_bytes 4 (0 :: u32) @ be_bytes 4 (1 :: u32) @ ?rest"
    by (simp add: nv_list_bytes_def)
  define b where "b = \<lparr>buf_data = ?data, buf_offset = 4, buf_min_offset = 4, buf_max_offset = length ?data\<rparr>"
  define b1 where "b1 = b\<lparr>buf_offset := 8\<rparr>"
  have len: "length ?data = 12 + length ?rest"
    by (simp add: split)
  have b: "at_bytes b (be_bytes 4 (0 :: u32) @ be_bytes 4 (1 :: u32) @ ?rest)"
    using len by (simp add: at_bytes_def wf_buf_def b_def) (simp add: split)
  have version: "get_u32 XdrDecoder b = Ok (0, b1)"
    using readsD[OF xdr_u32_reads[of 0] at_bytes_advance(4,2,3)[OF b]] by (simp add: b1_def b_def)
  have b1: "at_bytes b1 (be_bytes 4 (1 :: u32) @ ?rest)"
    using at_bytes_advance(1)[OF b] by (simp add: b1_def b_def)
  have flags: "get_u32 XdrDecoder b1 = Ok (1, b1\<lparr>buf_offset := 12\<rparr>)"
    using readsD[OF xdr_u32_reads[of 1] at_bytes_advance(4,2,3)[OF b1]] by (simp add: b1_def)
  have "buf_from_bytes_clamped ?data 4 (length ?data - 4) = Ok b"
    using len by (simp add: buf_from_bytes_clamped_def b_def)
  with version flags have "nv_list_from_partial ?data 4 (length ?data - 4) Nv_Xdr Little = Ok l"
    using len by (simp add: nv_list_from_partial_def nv_unique_try_from_def l_def b1_def b_def buf_len_def)
  moreover have "nv_list_from_bytes ?data = nv_list_from_partial ?data 4 (length ?data - 4) Nv_Xdr Little"
    using len by (simp add: nv_list_from_bytes_def NV_HEADER_SIZE_def slice_def slice_get_def, simp add: split index_def
        index_get_def nv_encoding_try_from_def nv_endian_order_try_from_def endian_order_of_nv_def, simp add: numeral_eq_Suc)
  moreover have "nv_list_find l name = nv_find_loop l name (b\<lparr>buf_offset := 12, buf_min_offset := 12\<rparr>)"
    using len by (simp add: nv_list_find_def nv_list_iter_def l_def buf_from_bytes_clamped_def b_def)
  moreover have "at_bytes (b\<lparr>buf_offset := 12, buf_min_offset := 12\<rparr>) ?rest"
    using len by (simp add: at_bytes_def wf_buf_def b_def) (simp add: split)
  ultimately show ?thesis
    using nv_find_loop_at[OF assms, of _ l name] by auto
qed

theorem nv_list_find_layout_witness:
  "\<exists>l. nv_list_from_bytes (nv_list_bytes [([0x61], Dv_Uint64 7), ([0x62], Dv_String [0x63])]) = Ok l \<and>
    nv_list_find l [0x62] = Ok (Some \<lparr>np_name = [0x62], np_value = Dv_String [0x63]\<rparr>)"
proof -
  have "list_all wf_nv_pair [([0x61], Dv_Uint64 7), ([0x62], Dv_String [0x63])]"
    by (simp add: wf_nv_pair_def wf_nv_value_def utf8_first_def utf8_width_def)
  from nv_list_find_layout[OF this, of "[0x62]"] show ?thesis
    by simp
qed

end
