(* ===== verification/Dnode.thy ===== *)
theory Dnode
  imports Block_Pointer Decode_Props
begin

text \<open>
  \<open>phys/dnode.rs\<close>: dnodes, their decoder and encoder. The fixed-size pointer arrays of the tails are
  the constructor arguments of \<open>dnode_tail\<close>.
\<close>

datatype dnode_used = UsedBytes u64 | UsedSectors u64

datatype dnode_tail =
    TailZero bytes
  | TailOne "block_pointer option" bytes
  | TailTwo "block_pointer option" "block_pointer option" bytes
  | TailThree "block_pointer option" "block_pointer option" "block_pointer option" bytes
  | TailSpill "block_pointer option" bytes "block_pointer option"

record dnode =
  dn_bonus_len :: nat
  dn_bonus_type :: dmu_type
  dn_checksum :: checksum_type
  dn_compression :: compression_type
  dn_data_block_size_sectors :: u16
  dn_extra_slots :: u8
  dn_dmu :: dmu_type
  dn_indirect_block_shift :: u8
  dn_levels :: u8
  dn_max_block_id :: u64
  dn_tail :: dnode_tail
  dn_used :: dnode_used
  dn_user_obj_used_accounted :: bool
  dn_user_used_accounted :: bool

datatype dnode_decode_error =
    DnBinary binary_decode_error
  | DnBlockPointer bp_decode_error
  | DnBlockPointerCount u8
  | DnBonusLength nat
  | DnChecksumType u8
  | DnCompressionType u8
  | DnDmuType u8
  | DnFlags u8
  | DnSpillBlockPointerCount u8

datatype dnode_encode_error =
    DnEncBinary binary_encode_error
  | DnEncBlockPointer bp_encode_error
  | DnEncBonusLength nat

definition FLAG_USED_BYTES :: u8 where "FLAG_USED_BYTES = 1"
definition FLAG_USER_USED_ACCOUNTED :: u8 where "FLAG_USER_USED_ACCOUNTED = 2"
definition FLAG_BLOCK_POINTER :: u8 where "FLAG_BLOCK_POINTER = 4"
definition FLAG_USER_OBJ_USED_ACCOUNTED :: u8 where "FLAG_USER_OBJ_USED_ACCOUNTED = 8"
definition FLAG_ALL :: u8 where
  "FLAG_ALL = FLAG_USED_BYTES OR FLAG_USER_USED_ACCOUNTED OR FLAG_BLOCK_POINTER OR FLAG_USER_OBJ_USED_ACCOUNTED"

section \<open>Accessors\<close>

fun tail_bonus :: "dnode_tail \<Rightarrow> bytes" where
  "tail_bonus (TailZero bonus) = bonus"
| "tail_bonus (TailOne p bonus) = bonus"
| "tail_bonus (TailTwo p q bonus) = bonus"
| "tail_bonus (TailThree p q r bonus) = bonus"
| "tail_bonus (TailSpill p bonus spill) = bonus"

fun tail_pointers :: "dnode_tail \<Rightarrow> block_pointer option list" where
  "tail_pointers (TailZero bonus) = []"
| "tail_pointers (TailOne p bonus) = [p]"
| "tail_pointers (TailTwo p q bonus) = [p, q]"
| "tail_pointers (TailThree p q r bonus) = [p, q, r]"
| "tail_pointers (TailSpill p bonus spill) = [p]"

definition bonus_capacity :: "dnode \<Rightarrow> bytes" where
  "bonus_capacity dn = tail_bonus (dn_tail dn)"

definition bonus_used :: "dnode \<Rightarrow> ('e, bytes) result" where
  "bonus_used dn = slice (tail_bonus (dn_tail dn)) 0 (dn_bonus_len dn)"

definition pointers :: "dnode \<Rightarrow> block_pointer option list" where
  "pointers dn = tail_pointers (dn_tail dn)"

section \<open>Decoder\<close>

type_synonym 'a dn_dec = "(buffer, dnode_decode_error, 'a) step"

definition dnode_tail_from_decoder :: "binary_decoder \<Rightarrow> u8 \<Rightarrow> bool \<Rightarrow> dnode_tail dn_dec" where
  "dnode_tail_from_decoder d block_pointers_n is_spill =
     (let bp = liftD DnBlockPointer (block_pointer_from_decoder d) in
      if block_pointers_n = 0 then
        bindD (liftD DnBinary (get_bytes_n d 448)) (\<lambda>bonus. returnD (TailZero bonus))
      else if block_pointers_n = 1 then
        if is_spill then
          bindD bp (\<lambda>p. bindD (liftD DnBinary (get_bytes_n d 192)) (\<lambda>bonus. bindD bp (\<lambda>spill.
          returnD (TailSpill p bonus spill))))
        else
          bindD bp (\<lambda>p. bindD (liftD DnBinary (get_bytes_n d 320)) (\<lambda>bonus. returnD (TailOne p bonus)))
      else if block_pointers_n = 2 then
        bindD bp (\<lambda>p. bindD bp (\<lambda>q. bindD (liftD DnBinary (get_bytes_n d 192)) (\<lambda>bonus.
        returnD (TailTwo p q bonus))))
      else if block_pointers_n = 3 then
        bindD bp (\<lambda>p. bindD bp (\<lambda>q. bindD bp (\<lambda>r. bindD (liftD DnBinary (get_bytes_n d 64)) (\<lambda>bonus.
        returnD (TailThree p q r bonus)))))
      else failD (DnBlockPointerCount block_pointers_n))"

definition dnode_from_decoder :: "binary_decoder \<Rightarrow> dnode option dn_dec" where
  "dnode_from_decoder d =
     bindD (liftD DnBinary (is_skip_zeros d 512)) (\<lambda>zero.
     if zero then returnD None
     else
       bindD (liftD DnBinary (get_u8 d)) (\<lambda>dmu.
       bindD (liftD DnDmuType (resultD (dmu_type_try_from dmu))) (\<lambda>dmu.
       bindD (liftD DnBinary (get_u8 d)) (\<lambda>indirect_block_shift.
       bindD (liftD DnBinary (get_u8 d)) (\<lambda>levels.
       bindD (liftD DnBinary (get_u8 d)) (\<lambda>block_pointers_n.
       bindD (liftD DnBinary (get_u8 d)) (\<lambda>bonus_type.
       bindD (liftD DnDmuType (resultD (dmu_type_try_from bonus_type))) (\<lambda>bonus_type.
       bindD (liftD DnBinary (get_u8 d)) (\<lambda>checksum.
       bindD (liftD DnChecksumType (resultD (checksum_type_try_from checksum))) (\<lambda>checksum.
       bindD (liftD DnBinary (get_u8 d)) (\<lambda>compression.
       bindD (liftD DnCompressionType (resultD (compression_type_try_from compression))) (\<lambda>compression.
       bindD (liftD DnBinary (get_u8 d)) (\<lambda>flags.
       if flags AND FLAG_ALL \<noteq> flags then failD (DnFlags flags)
       else
         let is_spill = (flags AND FLAG_BLOCK_POINTER \<noteq> 0) in
         if is_spill \<and> block_pointers_n \<noteq> 1 then failD (DnSpillBlockPointerCount block_pointers_n)
         else
           bindD (liftD DnBinary (get_u16 d)) (\<lambda>data_block_size_sectors.
           bindD (liftD DnBinary (get_u16 d)) (\<lambda>bonus_len.
           bindD (liftD DnBinary (get_u8 d)) (\<lambda>extra_slots.
           bindD (liftD DnBinary (skip_zeros d 3)) (\<lambda>_.
           bindD (liftD DnBinary (get_u64 d)) (\<lambda>max_block_id.
           bindD (liftD DnBinary (get_u64 d)) (\<lambda>used.
           let used = (if flags AND FLAG_USED_BYTES \<noteq> 0 then UsedBytes used else UsedSectors used) in
           bindD (liftD DnBinary (skip_zeros d 32)) (\<lambda>_.
           bindD (dnode_tail_from_decoder d block_pointers_n is_spill) (\<lambda>tail.
           if unat bonus_len > length (tail_bonus tail) then failD (DnBonusLength (unat bonus_len))
           else returnD (Some \<lparr>
             dn_bonus_len = unat bonus_len,
             dn_bonus_type = bonus_type,
             dn_checksum = checksum,
             dn_compression = compression,
             dn_data_block_size_sectors = data_block_size_sectors,
             dn_extra_slots = extra_slots,
             dn_dmu = dmu,
             dn_indirect_block_shift = indirect_block_shift,
             dn_levels = levels,
             dn_max_block_id = max_block_id,
             dn_tail = tail,
             dn_used = used,
             dn_user_obj_used_accounted = flags AND FLAG_USER_OBJ_USED_ACCOUNTED \<noteq> 0,
             dn_user_used_accounted = flags AND FLAG_USER_USED_ACCOUNTED \<noteq> 0\<rparr>))))))))))))))))))))))"

section \<open>Encoder\<close>

type_synonym dn_enc = "(enc_buffer, dnode_encode_error, unit) step"

definition dnode_flags :: "dnode \<Rightarrow> u8" where
  "dnode_flags dn =
     (case dn_used dn of UsedBytes _ \<Rightarrow> FLAG_USED_BYTES | _ \<Rightarrow> 0)
     OR (if dn_user_used_accounted dn then FLAG_USER_USED_ACCOUNTED else 0)
     OR (if dn_user_obj_used_accounted dn then FLAG_USER_OBJ_USED_ACCOUNTED else 0)
     OR (case dn_tail dn of TailSpill _ _ _ \<Rightarrow> FLAG_BLOCK_POINTER | _ \<Rightarrow> 0)"

definition put_pointer :: "binary_encoder \<Rightarrow> block_pointer option \<Rightarrow> dn_enc" where
  "put_pointer e p = liftD DnEncBlockPointer (block_pointer_option_to_encoder e p)"

definition dnode_to_encoder :: "binary_encoder \<Rightarrow> dnode \<Rightarrow> dn_enc" where
  "dnode_to_encoder e dn =
     bindD (liftD DnEncBinary (put_u8 e (dmu_type_to_u8 (dn_dmu dn)))) (\<lambda>_.
     bindD (liftD DnEncBinary (put_u8 e (dn_indirect_block_shift dn))) (\<lambda>_.
     bindD (liftD DnEncBinary (put_u8 e (dn_levels dn))) (\<lambda>_.
     bindD (liftD DnEncBinary (put_u8 e (of_nat (length (pointers dn))))) (\<lambda>_.
     bindD (liftD DnEncBinary (put_u8 e (dmu_type_to_u8 (dn_bonus_type dn)))) (\<lambda>_.
     bindD (liftD DnEncBinary (put_u8 e (checksum_type_to_u8 (dn_checksum dn)))) (\<lambda>_.
     bindD (liftD DnEncBinary (put_u8 e (compression_type_to_u8 (dn_compression dn)))) (\<lambda>_.
     bindD (liftD DnEncBinary (put_u8 e (dnode_flags dn))) (\<lambda>_.
     bindD (liftD DnEncBinary (put_u16 e (dn_data_block_size_sectors dn))) (\<lambda>_.
     if dn_bonus_len dn > length (bonus_capacity dn) then failD (DnEncBonusLength (dn_bonus_len dn))
     else
       bindD (liftD DnEncBinary (put_u16 e (of_nat (dn_bonus_len dn)))) (\<lambda>_.
       bindD (liftD DnEncBinary (put_u8 e (dn_extra_slots dn))) (\<lambda>_.
       bindD (liftD DnEncBinary (put_zeros e 3)) (\<lambda>_.
       bindD (liftD DnEncBinary (put_u64 e (dn_max_block_id dn))) (\<lambda>_.
       bindD (liftD DnEncBinary (put_u64 e (case dn_used dn of UsedBytes v \<Rightarrow> v | UsedSectors v \<Rightarrow> v))) (\<lambda>_.
       bindD (liftD DnEncBinary (put_zeros e 32)) (\<lambda>_.
       bindD (forD (pointers dn) (put_pointer e)) (\<lambda>_.
       bindD (liftD DnEncBinary (put_bytes e (bonus_capacity dn))) (\<lambda>_.
       case dn_tail dn of TailSpill _ _ spill \<Rightarrow> put_pointer e spill | _ \<Rightarrow> returnD ())))))))))))))))))"

definition dnode_empty_to_encoder :: "binary_encoder \<Rightarrow> dn_enc" where
  "dnode_empty_to_encoder e = liftD DnEncBinary (put_zeros e 512)"

definition dnode_option_to_encoder :: "binary_encoder \<Rightarrow> dnode option \<Rightarrow> dn_enc" where
  "dnode_option_to_encoder e dn =
     (case dn of Some v \<Rightarrow> dnode_to_encoder e v | None \<Rightarrow> dnode_empty_to_encoder e)"

section \<open>Safety\<close>

context decoder_contract
begin

lemma dnode_tail_safe: "safe_dec (dnode_tail_from_decoder d n spill)"
  unfolding dnode_tail_from_decoder_def Let_def by (intro dec_safe methods block_pointer_safe)

lemma dnode_safe: "safe_dec (dnode_from_decoder d)"
  unfolding dnode_from_decoder_def Let_def
  by (intro dec_safe methods dnode_tail_safe) simp_all

end

section \<open>Decoded values\<close>

definition wf_tail :: "dnode_tail \<Rightarrow> bool" where
  "wf_tail tail \<longleftrightarrow> length (tail_pointers tail) \<le> 3 \<and>
     length (tail_bonus tail) + 128 * length (tail_pointers tail) +
       (case tail of TailSpill _ _ _ \<Rightarrow> 128 | _ \<Rightarrow> 0) = 448"

lemma dnode_tail_yields: "yields (dnode_tail_from_decoder (endian_decoder ord) n spill) wf_tail"
  unfolding dnode_tail_from_decoder_def Let_def
  by (intro yields_if yields_fail yields_return yields_bind[OF yields_lift[OF endian_get_bytes_n_length]] yields_bind[OF yields_any])
    (auto simp: wf_tail_def)

lemma dnode_yields:
  "yields (dnode_from_decoder (endian_decoder ord))
     (\<lambda>r. case r of None \<Rightarrow> True | Some dn \<Rightarrow> wf_tail (dn_tail dn) \<and> dn_bonus_len dn \<le> length (bonus_capacity dn))"
  unfolding dnode_from_decoder_def Let_def
  by (intro yields_if yields_fail yields_bind[OF dnode_tail_yields] yields_bind[OF yields_any] yields_return)
    (auto simp: bonus_capacity_def)

text \<open>
  C21. A dnode that \<open>Dnode::from_decoder\<close> accepts is well formed: at most three block pointers, whose
  128-byte slots, the bonus buffer and the spill pointer together fill the 448-byte tail exactly, and
  a bonus length inside the buffer, so \<open>bonus_used\<close> returns \<open>bonus_len\<close> bytes and cannot panic.
\<close>

theorem dnode_decoded_wf:
  assumes "dnode_from_decoder (endian_decoder ord) b = Ok (Some dn, b')"
  shows "wf_tail (dn_tail dn) \<and> length (pointers dn) \<le> 3 \<and>
    (\<exists>bonus. (bonus_used dn :: (dnode_decode_error, bytes) result) = Ok bonus \<and> length bonus = dn_bonus_len dn)"
proof -
  have wf: "wf_tail (dn_tail dn)" and len: "dn_bonus_len dn \<le> length (tail_bonus (dn_tail dn))"
    using dnode_yields[of ord] assms by (force simp: yields_def bonus_capacity_def)+
  have "slice_get (tail_bonus (dn_tail dn)) 0 (dn_bonus_len dn) = Some (take (dn_bonus_len dn) (tail_bonus (dn_tail dn)))"
    using len by (simp add: slice_get_def)
  with wf len show ?thesis
    by (simp add: bonus_used_def slice_Ok_iff pointers_def wf_tail_def)
qed

definition sample_dnode_bytes :: bytes where
  "sample_dnode_bytes = [19, 17, 1, 0, 0, 2, 2, 0, 8, 0, 4, 0, 0, 0, 0, 0] @ replicate 48 0 @ replicate 448 7"

definition sample_dnode :: dnode where
  "sample_dnode = \<lparr>dn_bonus_len = 4, dn_bonus_type = Dmu_None, dn_checksum = Ck_Off, dn_compression = Co_Off,
     dn_data_block_size_sectors = 8, dn_extra_slots = 0, dn_dmu = Dmu_PlainFileContents, dn_indirect_block_shift = 17,
     dn_levels = 1, dn_max_block_id = 0, dn_tail = TailZero (replicate 448 7), dn_used = UsedSectors 0,
     dn_user_obj_used_accounted = False, dn_user_used_accounted = False\<rparr>"

theorem dnode_decoded_wf_witness:
  "\<exists>b'. dnode_from_decoder (endian_decoder Little) (buf_from_bytes sample_dnode_bytes) = Ok (Some sample_dnode, b') \<and>
     (\<exists>bonus. (bonus_used sample_dnode :: (dnode_decode_error, bytes) result) = Ok bonus \<and> length bonus = 4)"
proof -
  have "(case dnode_from_decoder (endian_decoder Little) (buf_from_bytes sample_dnode_bytes) of
      Ok r \<Rightarrow> fst r = Some sample_dnode | _ \<Rightarrow> False)"
    by code_simp
  then obtain b' where b': "dnode_from_decoder (endian_decoder Little) (buf_from_bytes sample_dnode_bytes) = Ok (Some sample_dnode, b')"
    by (auto split: result.splits)
  have "dn_bonus_len sample_dnode = 4"
    by (simp add: sample_dnode_def)
  with dnode_decoded_wf[OF b'] b' show ?thesis
    by simp
qed

lemma dnode_encode_yields: "yields (dnode_to_encoder (endian_encoder ord) dn) (\<lambda>_. False)"
proof -
  have put: "yields (liftD DnEncBinary (put_bytes (endian_encoder ord) v)) (\<lambda>_. False)" for v
    by (cases ord) (simp_all add: yields_lift yields_fail)
  show ?thesis
    unfolding dnode_to_encoder_def
    by (intro yields_bind[OF put] yields_bind_any yields_if yields_fail) simp
qed

text \<open>
  C26. \<open>Dnode::to_encoder\<close> never succeeds on an endian encoder: it writes the bonus buffer with
  \<open>put_bytes\<close>, which the endian encoders do not support (the decoder reads it with \<open>get_bytes_n\<close>).
\<close>

theorem dnode_never_encodes: "\<not> is_ok (dnode_to_encoder (endian_encoder ord) dn eb)"
  using dnode_encode_yields[of ord dn]
  by (cases "dnode_to_encoder (endian_encoder ord) dn eb") (auto simp: yields_def)

end
