(* ===== verification/File_Read.thy ===== *)
theory File_Read
  imports Dnode Vdev_Props
begin

text \<open>
  \<open>file.rs\<close>: reading the blocks and byte ranges of an object through its dnode. The loop over
  the indirection levels is \<open>walk_indirect\<close>, a recursion on the level; the copy loop of
  \<open>read_dnode_range\<close> is \<open>range_loop\<close>. Index arithmetic on \<open>usize\<close> that the source leaves unchecked
  is done on 64-bit words.
\<close>

definition with_decoder ::
  "bytes \<Rightarrow> endian_order \<Rightarrow> (binary_decoder \<Rightarrow> (buffer, 'e, 'a) step) \<Rightarrow> ('e, 'a) result" where
  "with_decoder bs order f = and_then (f (endian_decoder order) (buf_from_bytes bs)) (\<lambda>r. Ok (fst r))"

definition BLKPTR_SIZE :: u64 where "BLKPTR_SIZE = 128"

definition DN_MAX_LEVELS :: nat where "DN_MAX_LEVELS = 16"

definition indirect_child ::
  "endian_order \<Rightarrow> nat \<Rightarrow> u64 \<Rightarrow> u64 \<Rightarrow> nat \<Rightarrow> bytes \<Rightarrow> (error, block_pointer option) result" where
  "indirect_child order epb_shift emask blkid l current =
     (let idx = drop_bit (epb_shift * (l - 1)) blkid AND emask;
          start = idx * BLKPTR_SIZE in
      and_then (ok_or (Inconsistent ''indirect_oob'' (Loc_Indirect 0 (of_nat l)))
                 (slice_get current (unat start) (unat (start + BLKPTR_SIZE)))) (\<lambda>bs.
      map_err (\<lambda>_. Inconsistent ''indirect_bp_decode'' (Loc_Indirect 0 (of_nat l)))
        (with_decoder bs order block_pointer_from_decoder)))"

fun walk_indirect ::
  "'r env \<Rightarrow> topology \<Rightarrow> endian_order \<Rightarrow> nat \<Rightarrow> u64 \<Rightarrow> u64 \<Rightarrow> nat \<Rightarrow> bytes \<Rightarrow> ('r, bytes option) zio" where
  "walk_indirect E topo order epb_shift emask blkid 0 current =
     failZ (Inconsistent ''indirect_walk'' (Loc_Indirect 0 0))"
| "walk_indirect E topo order epb_shift emask blkid (Suc k) current =
     bindZ (liftZ (indirect_child order epb_shift emask blkid (Suc k) current)) (\<lambda>child.
     case child of
       None \<Rightarrow> returnZ None
     | Some child \<Rightarrow>
         bindZ (read_block_pointer E topo child) (\<lambda>block.
         if k = 0 then returnZ (Some block)
         else walk_indirect E topo order epb_shift emask blkid k block))"

definition read_dnode_block ::
  "'r env \<Rightarrow> topology \<Rightarrow> dnode \<Rightarrow> u64 \<Rightarrow> endian_order \<Rightarrow> ('r, bytes option) zio" where
  "read_dnode_block E topo dnode blkid order =
     (let levels = unat (dn_levels dnode) in
      if levels = 0 then returnZ None
      else if levels > DN_MAX_LEVELS then failZ (Inconsistent ''dnode_levels'' (Loc_Dnode 0))
      else
        let ptrs = pointers dnode;
            epb_shift = unat (dn_indirect_block_shift dnode) - 7;
            top_exp = epb_shift * (levels - 1) in
        if \<not> (top_exp < 64 \<and> epb_shift < 64) then failZ (Inconsistent ''dnode_indshift'' (Loc_Dnode 0))
        else
          let emask = push_bit epb_shift 1 - 1 in
          case index_get ptrs (unat (drop_bit top_exp blkid)) of
            Some (Some top_bp) \<Rightarrow>
              bindZ (read_block_pointer E topo top_bp) (\<lambda>current.
              if levels = 1 then returnZ (Some current)
              else walk_indirect E topo order epb_shift emask blkid (levels - 1) current)
          | _ \<Rightarrow> returnZ None)"

definition data_block_size :: "dnode \<Rightarrow> nat" where
  "data_block_size dnode = push_bit 9 (unat (dn_data_block_size_sectors dnode))"

text \<open>The copy of one block into the output; a hole leaves the zeros of the output in place.\<close>

definition copy_block :: "bytes \<Rightarrow> nat \<Rightarrow> nat \<Rightarrow> nat \<Rightarrow> bytes option \<Rightarrow> (error, bytes) result" where
  "copy_block out filled within want block = (case block of
       None \<Rightarrow> Ok out
     | Some block \<Rightarrow>
         and_then (ok_or (Inconsistent ''block_short'' (Loc_Dnode 0)) (slice_get block within (within + want)))
           (\<lambda>src. Ok (overwrite out filled src)))"

lemma copy_block_not_Panic: "copy_block out filled within want block \<noteq> Panic"
  by (auto simp: copy_block_def and_then_Panic_iff split: option.splits)

lemma range_progress:
  fixes filled len dbsz p :: nat
  assumes "filled < len" "dbsz \<noteq> 0"
  shows "len - (filled + min (dbsz - p mod dbsz) (len - filled)) < len - filled"
proof -
  have "p mod dbsz < dbsz"
    using assms by simp
  with assms show ?thesis
    by linarith
qed

text \<open>
  The copy loop. \<open>dbsz\<close> is not zero: the caller has returned an error in that case, and the test
  here only makes the recursion well founded.
\<close>

function range_loop ::
  "'r env \<Rightarrow> topology \<Rightarrow> dnode \<Rightarrow> endian_order \<Rightarrow> u64 \<Rightarrow> nat \<Rightarrow> nat \<Rightarrow> nat \<Rightarrow> bytes \<Rightarrow> ('r, bytes) zio" where
  "range_loop E topo dnode order off len dbsz filled out =
     (if filled < len \<and> dbsz \<noteq> 0 then
        case checked_add off (of_nat filled) of
          None \<Rightarrow> failZ (Inconsistent ''range_overflow'' (Loc_Dnode 0))
        | Some pos \<Rightarrow>
            let blkid = pos div of_nat dbsz;
                within = unat pos mod dbsz;
                want = min (dbsz - within) (len - filled) in
            bindZ (read_dnode_block E topo dnode blkid order) (\<lambda>block.
            bindZ (liftZ (copy_block out filled within want block)) (\<lambda>out.
            range_loop E topo dnode order off len dbsz (filled + want) out))
      else returnZ out)"
  by pat_completeness auto
termination
  by (relation "measure (\<lambda>(E, topo, dnode, order, off, len, dbsz, filled, out). len - filled)")
    (use range_progress in auto)

declare range_loop.simps [simp del]

definition read_dnode_range ::
  "'r env \<Rightarrow> topology \<Rightarrow> dnode \<Rightarrow> u64 \<Rightarrow> nat \<Rightarrow> endian_order \<Rightarrow> ('r, bytes) zio" where
  "read_dnode_range E topo dnode off len order =
     (let dbsz = data_block_size dnode in
      if dbsz = 0 then failZ (Inconsistent ''dnode_dbsz0'' (Loc_Dnode 0))
      else range_loop E topo dnode order off len dbsz 0 (replicate len 0))"

section \<open>Safety and purity\<close>

lemma with_decoder_not_Panic:
  assumes "safe_dec (f (endian_decoder order))"
  shows "with_decoder bs order f \<noteq> Panic"
  using assms by (auto simp: with_decoder_def safe_dec_def and_then_Panic_iff wf_buf_def buf_from_bytes_def
      dest!: spec[of _ "buf_from_bytes bs"] split: result.splits)

lemma indirect_child_not_Panic: "indirect_child order epb_shift emask blkid l current \<noteq> Panic"
  by (auto simp: indirect_child_def Let_def and_then_Panic_iff
      intro!: with_decoder_not_Panic decoder_contract.block_pointer_safe[OF endian_decoder_contract])

lemma safeZ_walk_indirect: "safeZ (walk_indirect E topo order epb_shift emask blkid l current)"
  by (induction E topo order epb_shift emask blkid l current rule: walk_indirect.induct)
    (auto intro!: zio_intro indirect_child_not_Panic)

lemma pureZ_walk_indirect: "steady E \<Longrightarrow> pureZ (walk_indirect E topo order epb_shift emask blkid l current)"
  by (induction E topo order epb_shift emask blkid l current rule: walk_indirect.induct)
    (auto intro!: pure_intro)

lemma safeZ_read_dnode_block [zio_intro]: "safeZ (read_dnode_block E topo dnode blkid order)"
  unfolding read_dnode_block_def by (intro zio_intro safeZ_walk_indirect)

lemma pureZ_read_dnode_block [pure_intro]: "steady E \<Longrightarrow> pureZ (read_dnode_block E topo dnode blkid order)"
  unfolding read_dnode_block_def by (intro pure_intro pureZ_walk_indirect)

lemma safeZ_range_loop: "safeZ (range_loop E topo dnode order off len dbsz filled out)"
proof (induction E topo dnode order off len dbsz filled out rule: range_loop.induct)
  case (1 E topo dnode order off len dbsz filled out)
  then show ?case
    by (subst range_loop.simps) (auto simp: copy_block_not_Panic Let_def intro!: zio_intro)
qed

lemma safeZ_read_dnode_range [zio_intro]: "safeZ (read_dnode_range E topo dnode off len order)"
  unfolding read_dnode_range_def by (intro zio_intro safeZ_range_loop)

section \<open>An object as a sequence of bytes\<close>

text \<open>
  The abstract view of an object on fixed pool members: the byte at position \<open>p\<close>, \<open>0\<close> in a hole, and
  no byte where the block that should hold it cannot be read or is too short.
\<close>

definition object_byte ::
  "'r env \<Rightarrow> topology \<Rightarrow> dnode \<Rightarrow> endian_order \<Rightarrow> 'r pool_member list \<Rightarrow> nat \<Rightarrow> u8 option" where
  "object_byte E topo dnode order ms p =
     (let dbsz = data_block_size dnode in
      case fst (read_dnode_block E topo dnode (of_nat (p div dbsz)) order ms) of
        Ok None \<Rightarrow> Some 0
      | Ok (Some block) \<Rightarrow> index_get block (p mod dbsz)
      | _ \<Rightarrow> None)"

lemma data_block_size_bound: "data_block_size dnode < 2 ^ 64"
proof -
  have "unat (dn_data_block_size_sectors dnode) < 2 ^ 16"
    using unsigned_less[of "dn_data_block_size_sectors dnode", where 'a = nat] by simp
  then show ?thesis
    by (simp add: data_block_size_def push_bit_eq_mult)
qed

lemma same_block:
  fixes p k dbsz :: nat
  assumes "p mod dbsz + k < dbsz"
  shows "(p + k) div dbsz = p div dbsz" "(p + k) mod dbsz = p mod dbsz + k"
proof -
  have "p + k = p div dbsz * dbsz + (p mod dbsz + k)"
    by simp
  then show "(p + k) div dbsz = p div dbsz" "(p + k) mod dbsz = p mod dbsz + k"
    using assms by (metis add.right_neutral div_less div_mult_self3 gr_implies_not_zero add.commute,
      metis mod_less mod_mult_self3)
qed

lemma block_number:
  fixes pos :: u64
  assumes "dbsz < 2 ^ 64"
  shows "pos div of_nat dbsz = of_nat (unat pos div dbsz)"
proof -
  have "unat (of_nat dbsz :: u64) = dbsz"
    using assms by (simp add: unsigned_of_nat take_bit_nat_eq_self)
  then have "unat (pos div of_nat dbsz) = unat pos div dbsz"
    by (simp add: unat_div)
  then show ?thesis
    by (metis word_of_nat_eq_iff of_nat_unat ucast_id)
qed

lemma object_byte_block:
  assumes "fst (read_dnode_block E topo dnode (of_nat (p div data_block_size dnode)) order ms) = Ok r"
    and "p mod data_block_size dnode + k < data_block_size dnode"
  shows "object_byte E topo dnode order ms (p + k) =
    (case r of None \<Rightarrow> Some 0 | Some block \<Rightarrow> index_get block (p mod data_block_size dnode + k))"
  using assms by (simp add: object_byte_def same_block Let_def split: option.split)

lemma copy_block_byte:
  assumes "copy_block out filled within want r = Ok out1" "filled + want \<le> length out"
    and "\<forall>i. filled \<le> i \<longrightarrow> i < length out \<longrightarrow> out ! i = 0"
  shows "length out1 = length out"
    and "i < filled \<Longrightarrow> out1 ! i = out ! i"
    and "filled + want \<le> i \<Longrightarrow> i < length out \<Longrightarrow> out1 ! i = 0"
    and "k < want \<Longrightarrow> (case r of None \<Rightarrow> Some 0 | Some block \<Rightarrow> index_get block (within + k)) = Some (out1 ! (filled + k))"
proof -
  consider "r = None" "out1 = out" |
    block src where "r = Some block" "slice_get block within (within + want) = Some src" "out1 = overwrite out filled src"
    using assms(1) by (auto simp: copy_block_def and_then_Ok_iff ok_or_Ok_iff split: option.splits)
  note cases = this
  show "length out1 = length out"
    using assms(2) by (cases rule: cases) (auto simp: length_overwrite dest: slice_get_length)
  show "out1 ! i = out ! i" if "i < filled"
    using assms(2) that by (cases rule: cases) (auto simp: overwrite_nth dest: slice_get_length)
  show "out1 ! i = 0" if "filled + want \<le> i" "i < length out"
    using assms(2,3) that by (cases rule: cases) (auto simp: overwrite_nth dest: slice_get_length)
  show "(case r of None \<Rightarrow> Some 0 | Some block \<Rightarrow> index_get block (within + k)) = Some (out1 ! (filled + k))" if "k < want"
  proof (cases rule: cases)
    case 1
    then show ?thesis
      using assms(2,3) that by simp
  next
    case (2 block src)
    then have "length src = want" "within + want \<le> length block" "src ! k = block ! (within + k)"
      using that by (auto simp: slice_get_Some_iff)
    then show ?thesis
      using 2 assms(2) that by (simp add: overwrite_nth index_get_Some_iff)
  qed
qed

text \<open>One iteration of the loop on steady members, in terms of the block that holds the position.\<close>

lemma range_loop_step:
  assumes "steady E" "dbsz = data_block_size dnode" "dbsz \<noteq> 0" "filled < len" "len < 2 ^ 64"
    and "unat off + filled < 2 ^ 64"
  defines "p \<equiv> unat off + filled"
  defines "want \<equiv> min (dbsz - p mod dbsz) (len - filled)"
  shows "range_loop E topo dnode order off len dbsz filled out ms =
    bindZ (liftZ (fst (read_dnode_block E topo dnode (of_nat (p div dbsz)) order ms))) (\<lambda>block.
    bindZ (liftZ (copy_block out filled (p mod dbsz) want block)) (\<lambda>out.
    range_loop E topo dnode order off len dbsz (filled + want) out)) ms"
proof -
  have "unat (of_nat filled :: u64) = filled"
    using assms(4,5) by (simp add: unsigned_of_nat take_bit_nat_eq_self)
  then obtain pos where pos: "checked_add off (of_nat filled) = Some pos"
    using assms(6) by (auto simp: checked_add_def)
  with \<open>unat (of_nat filled :: u64) = filled\<close> have upos: "unat pos = p"
    by (simp add: p_def checked_add_Some_iff)
  have blk: "pos div of_nat dbsz = of_nat (p div dbsz)"
    using data_block_size_bound assms(2) by (simp add: block_number upos)
  have pure: "snd (read_dnode_block E topo dnode b order ms) = ms" for b
    using pureZ_read_dnode_block[OF \<open>steady E\<close>] by (simp add: pureZ_def)
  have run: "bindZ m f ms = bindZ (liftZ (fst (m ms))) f ms" if "snd (m ms) = ms"
    for m :: "('a, bytes option) zio" and f :: "bytes option \<Rightarrow> ('a, bytes) zio"
    using that by (cases "m ms") (simp add: bindZ_def liftZ_def)
  show ?thesis
    by (subst range_loop.simps)
      (simp add: assms(3,4) pos blk upos Let_def want_def[symmetric] run[of "read_dnode_block E topo dnode b order" for b, OF pure])
qed

lemma range_loop_overflow:
  assumes "dbsz \<noteq> 0" "filled < len" "len < 2 ^ 64" "\<not> unat off + filled < 2 ^ 64"
  shows "range_loop E topo dnode order off len dbsz filled out ms = (Err (Inconsistent ''range_overflow'' (Loc_Dnode 0)), ms)"
proof -
  have "unat (of_nat filled :: u64) = filled"
    using assms(2,3) by (simp add: unsigned_of_nat take_bit_nat_eq_self)
  then have "checked_add off (of_nat filled) = None"
    using assms(4) by (simp add: checked_add_def)
  then show ?thesis
    by (subst range_loop.simps) (simp add: assms(1,2) failZ_def)
qed

lemma range_loop_refines:
  assumes "range_loop E topo dnode order off len dbsz filled out ms = (Ok out', ms')"
    and E: "steady E" and dbsz: "dbsz = data_block_size dnode" "dbsz \<noteq> 0" and len: "len < 2 ^ 64"
    and "filled \<le> len" "length out = len" "\<forall>i. filled \<le> i \<longrightarrow> i < len \<longrightarrow> out ! i = 0"
  shows "ms' = ms \<and> length out' = len \<and> (\<forall>i < filled. out' ! i = out ! i) \<and>
    (\<forall>i. filled \<le> i \<longrightarrow> i < len \<longrightarrow> object_byte E topo dnode order ms (unat off + i) = Some (out' ! i))"
  using assms(1,6-)
proof (induction "len - filled" arbitrary: filled out rule: less_induct)
  case less
  show ?case
  proof (cases "filled < len")
    case False
    with less.prems show ?thesis
      by (simp add: range_loop.simps returnZ_def)
  next
    case True
    have small: "unat off + filled < 2 ^ 64"
      using range_loop_overflow[OF dbsz(2) True len, of off E topo dnode order out ms] less.prems(1) by auto
    define p where "p = unat off + filled"
    define want where "want = min (dbsz - p mod dbsz) (len - filled)"
    obtain r out1 where r: "fst (read_dnode_block E topo dnode (of_nat (p div dbsz)) order ms) = Ok r"
      and out1: "copy_block out filled (p mod dbsz) want r = Ok out1"
      and rest: "range_loop E topo dnode order off len dbsz (filled + want) out1 ms = (Ok out', ms')"
      using less.prems(1) range_loop_step[OF E dbsz True len small, of topo order out ms]
      by (auto simp: p_def want_def bindZ_Ok_iff liftZ_def)
    have "p mod dbsz < dbsz"
      using dbsz(2) by simp
    then have want: "0 < want" "filled + want \<le> len" "p mod dbsz + want \<le> dbsz"
      using True by (auto simp: want_def)
    note copied = copy_block_byte[OF out1, unfolded less.prems(3), OF want(2) less.prems(4)]
    have IH: "ms' = ms \<and> length out' = len \<and> (\<forall>i < filled + want. out' ! i = out1 ! i) \<and>
        (\<forall>i. filled + want \<le> i \<longrightarrow> i < len \<longrightarrow> object_byte E topo dnode order ms (unat off + i) = Some (out' ! i))"
      using want copied by (intro less.hyps[OF _ rest]) auto
    have "object_byte E topo dnode order ms (unat off + i) = Some (out' ! i)" if i: "filled \<le> i" "i < filled + want" for i
    proof -
      have "object_byte E topo dnode order ms (p + (i - filled)) = Some (out1 ! (filled + (i - filled)))"
        using r i want copied(4)[of "i - filled"] unfolding dbsz(1) by (subst object_byte_block) auto
      then show ?thesis
        using i IH by (simp add: p_def)
    qed
    with IH copied(2) want show ?thesis
      by (metis le_eq_less_or_eq not_le trans_less_add1)
  qed
qed

lemma range_loop_succeeds:
  assumes E: "steady E" and dbsz: "dbsz = data_block_size dnode" "dbsz \<noteq> 0" and len: "len < 2 ^ 64"
    and "unat off + len \<le> 2 ^ 64"
    and "\<forall>i. filled \<le> i \<longrightarrow> i < len \<longrightarrow> object_byte E topo dnode order ms (unat off + i) \<noteq> None"
  shows "\<exists>out'. fst (range_loop E topo dnode order off len dbsz filled out ms) = Ok out'"
  using assms(6)
proof (induction "len - filled" arbitrary: filled out rule: less_induct)
  case less
  show ?case
  proof (cases "filled < len")
    case False
    then show ?thesis
      by (simp add: range_loop.simps returnZ_def)
  next
    case True
    have small: "unat off + filled < 2 ^ 64"
      using True assms(5) by simp
    define p where "p = unat off + filled"
    define want where "want = min (dbsz - p mod dbsz) (len - filled)"
    have "p mod dbsz < dbsz"
      using dbsz(2) by simp
    then have want: "0 < want" "filled + want \<le> len" "p mod dbsz + want \<le> dbsz"
      using True by (auto simp: want_def)
    have "object_byte E topo dnode order ms p \<noteq> None"
      using less.prems True by (simp add: p_def)
    then obtain r where r: "fst (read_dnode_block E topo dnode (of_nat (p div dbsz)) order ms) = Ok r"
      by (auto simp: object_byte_def dbsz(1) Let_def split: result.splits)
    have "object_byte E topo dnode order ms (p + (want - 1)) \<noteq> None"
      using less.prems[rule_format, of "filled + (want - 1)"] want by (simp add: p_def add.assoc)
    moreover have "object_byte E topo dnode order ms (p + (want - 1)) =
        (case r of None \<Rightarrow> Some 0 | Some block \<Rightarrow> index_get block (p mod dbsz + (want - 1)))"
      using r want unfolding dbsz(1) by (intro object_byte_block) auto
    ultimately have "r = Some block \<Longrightarrow> p mod dbsz + want \<le> length block" for block
      using want by (simp add: index_get_def split: if_splits)
    then obtain out1 where out1: "copy_block out filled (p mod dbsz) want r = Ok out1"
      by (cases r) (auto simp: copy_block_def slice_get_def)
    have "\<exists>out'. fst (range_loop E topo dnode order off len dbsz (filled + want) out1 ms) = Ok out'"
      using want less.prems by (intro less.hyps) auto
    then show ?thesis
      using range_loop_step[OF E dbsz True len small, of topo order out ms] r out1
      by (simp add: p_def want_def bindZ_def liftZ_def)
  qed
qed

text \<open>
  C5. \<open>read_dnode_range\<close> reads the object as a sequence of bytes: on devices whose reads do not change
  them, a read of \<open>len\<close> bytes at \<open>off\<close> that succeeds returns exactly the bytes of the object
  at \<open>off, ..., off + len - 1\<close>, with zeros in its holes, whatever the block boundaries; and when all these bytes
  exist and the range does not pass the end of the address space, the read succeeds.
\<close>

theorem read_dnode_range_refines:
  assumes "steady E" "data_block_size dnode \<noteq> 0" "len < 2 ^ 64"
  shows "(\<forall>out. fst (read_dnode_range E topo dnode off len order ms) = Ok out \<longrightarrow>
      length out = len \<and> (\<forall>i < len. object_byte E topo dnode order ms (unat off + i) = Some (out ! i))) \<and>
    (unat off + len \<le> 2 ^ 64 \<longrightarrow> (\<forall>i < len. object_byte E topo dnode order ms (unat off + i) \<noteq> None) \<longrightarrow>
      is_ok (fst (read_dnode_range E topo dnode off len order ms)))"
proof -
  have run: "read_dnode_range E topo dnode off len order ms =
      range_loop E topo dnode order off len (data_block_size dnode) 0 (replicate len 0) ms"
    using assms(2) by (simp add: read_dnode_range_def Let_def)
  have "length out = len \<and> (\<forall>i < len. object_byte E topo dnode order ms (unat off + i) = Some (out ! i))"
    if out: "fst (read_dnode_range E topo dnode off len order ms) = Ok out" for out
  proof -
    obtain ms' where "range_loop E topo dnode order off len (data_block_size dnode) 0 (replicate len 0) ms = (Ok out, ms')"
      using out unfolding run by (metis prod.collapse)
    from range_loop_refines[OF this assms(1) refl assms(2,3)] show ?thesis
      by simp
  qed
  moreover have "is_ok (fst (read_dnode_range E topo dnode off len order ms))"
    if "unat off + len \<le> 2 ^ 64" "\<forall>i < len. object_byte E topo dnode order ms (unat off + i) \<noteq> None"
    using range_loop_succeeds[OF assms(1) refl assms(2,3) that(1), of 0 topo order ms "replicate len 0"] that(2)
    by (simp add: run is_ok_iff)
  ultimately show ?thesis
    by blast
qed

text \<open>A dnode with a hole and an embedded block, for the witness.\<close>

definition sample_object :: dnode where
  "sample_object = sample_dnode\<lparr>dn_data_block_size_sectors := 1, dn_tail := TailTwo None
     (Some (Embedded \<lparr>bpe_compression = Co_Off, bpe_dmu = Dmu_PlainFileContents, bpe_embedded_type = Emb_Data,
       bpe_order = Little, bpe_level = 0, bpe_logical_birth_txg = 1, bpe_logical_size = 4, bpe_physical_size = 4,
       bpe_payload = [1, 2, 3, 4]\<rparr>)) []\<rparr>"

definition sample_topology :: topology where
  "sample_topology = \<lparr>topo_layout = Single 0, topo_checksum_salt = None\<rparr>"

lemma sample_object_blocks:
  "fst (read_dnode_block E topo sample_object blkid order ms) =
     (if blkid = 1 then Ok (Some [1, 2, 3, 4]) else Ok None)"
proof -
  consider "blkid = 0" | "blkid = 1" | "unat blkid \<ge> 2"
    by (simp add: word_unat_eq_iff) linarith
  then show ?thesis
  proof cases
    case 3
    then show ?thesis
      by (auto simp: read_dnode_block_def sample_object_def sample_dnode_def pointers_def index_get_def returnZ_def DN_MAX_LEVELS_def)
  qed (simp_all add: read_dnode_block_def sample_object_def sample_dnode_def pointers_def index_get_def returnZ_def
        DN_MAX_LEVELS_def read_block_pointer_def liftZ_def bindZ_def decompress_def slice_get_def MAX_BLOCK_LSIZE_def)
qed

lemma sample_object_size: "data_block_size sample_object = 512"
  by (simp add: data_block_size_def sample_object_def push_bit_eq_mult)

theorem read_dnode_range_refines_witness:
  "\<exists>out. fst (read_dnode_range mem_env sample_topology sample_object 510 5 Little []) = Ok out \<and> out ! 0 = 0 \<and> out ! 3 = 2"
proof -
  let ?byte = "\<lambda>i. object_byte mem_env sample_topology sample_object Little [] (unat (510 :: u64) + i)"
  have byte: "?byte i = Some (if i < 2 then 0 else of_nat i - 1)" if "i < 5" for i
  proof -
    have "i = 0 \<or> i = 1 \<or> i = 2 \<or> i = 3 \<or> i = 4"
      using that by linarith
    then show ?thesis
      by (elim disjE) (simp_all add: object_byte_def sample_object_blocks sample_object_size Let_def index_get_def)
  qed
  then obtain out where out: "fst (read_dnode_range mem_env sample_topology sample_object 510 5 Little []) = Ok out"
    and bytes: "\<forall>i < 5. ?byte i = Some (out ! i)"
    using read_dnode_range_refines[OF mem_steady, of sample_object 5 sample_topology 510 Little "[]"] sample_object_size
    by (auto simp: is_ok_iff)
  have "out ! 0 = 0" "out ! 3 = 2"
    using byte[of 0] byte[of 3] bytes[rule_format, of 0] bytes[rule_format, of 3] by simp_all
  with out show ?thesis
    by blast
qed

end
