(* ===== verification/Object_Set.thy ===== *)
theory Object_Set
  imports Dnode
begin

text \<open>
  \<open>phys/zil.rs\<close> and \<open>phys/object_set.rs\<close>: the header of the intent log and object sets, with their
  decoders and encoders.
\<close>

section \<open>The intent log header\<close>

record zil_header =
  zh_claim_blk_seq :: u64
  zh_claim_lr_seq :: u64
  zh_claim_txg :: u64
  zh_flags :: u64
  zh_log :: "block_pointer option"
  zh_replay_seq :: u64

datatype zil_header_decode_error = ZhBinary binary_decode_error | ZhBlockPointer bp_decode_error

datatype zil_header_encode_error = ZhEncBinary binary_encode_error | ZhEncBlockPointer bp_encode_error

definition zil_header_from_decoder :: "binary_decoder \<Rightarrow> (buffer, zil_header_decode_error, zil_header) step" where
  "zil_header_from_decoder d =
     bindD (liftD ZhBinary (get_u64 d)) (\<lambda>claim_txg.
     bindD (liftD ZhBinary (get_u64 d)) (\<lambda>replay_seq.
     bindD (liftD ZhBlockPointer (block_pointer_from_decoder d)) (\<lambda>log.
     bindD (liftD ZhBinary (get_u64 d)) (\<lambda>claim_blk_seq.
     bindD (liftD ZhBinary (get_u64 d)) (\<lambda>flags.
     bindD (liftD ZhBinary (get_u64 d)) (\<lambda>claim_lr_seq.
     bindD (liftD ZhBinary (skip_zeros d 24)) (\<lambda>_.
     returnD \<lparr>zh_claim_blk_seq = claim_blk_seq, zh_claim_lr_seq = claim_lr_seq, zh_claim_txg = claim_txg,
       zh_flags = flags, zh_log = log, zh_replay_seq = replay_seq\<rparr>)))))))"

definition zil_header_to_encoder ::
  "binary_encoder \<Rightarrow> zil_header \<Rightarrow> (enc_buffer, zil_header_encode_error, unit) step" where
  "zil_header_to_encoder e h =
     bindD (liftD ZhEncBinary (put_u64 e (zh_claim_txg h))) (\<lambda>_.
     bindD (liftD ZhEncBinary (put_u64 e (zh_replay_seq h))) (\<lambda>_.
     bindD (liftD ZhEncBlockPointer (block_pointer_option_to_encoder e (zh_log h))) (\<lambda>_.
     bindD (liftD ZhEncBinary (put_u64 e (zh_claim_blk_seq h))) (\<lambda>_.
     bindD (liftD ZhEncBinary (put_u64 e (zh_flags h))) (\<lambda>_.
     bindD (liftD ZhEncBinary (put_u64 e (zh_claim_lr_seq h))) (\<lambda>_.
     liftD ZhEncBinary (put_zeros e 24)))))))"

section \<open>Object sets\<close>

datatype (plugins only: code) object_set_type = Os_None | Os_Meta | Os_ZFS | Os_ZVol | Os_Other | Os_Any

definition object_set_type_to_u64 :: "object_set_type \<Rightarrow> u64" where
  "object_set_type_to_u64 t = (case t of
     Os_None \<Rightarrow> 0 | Os_Meta \<Rightarrow> 1 | Os_ZFS \<Rightarrow> 2 | Os_ZVol \<Rightarrow> 3 | Os_Other \<Rightarrow> 4 | Os_Any \<Rightarrow> 5)"

definition object_set_type_try_from :: "u64 \<Rightarrow> (u64, object_set_type) result" where
  "object_set_type_try_from v =
     (if v = 0 then Ok Os_None else if v = 1 then Ok Os_Meta else if v = 2 then Ok Os_ZFS
      else if v = 3 then Ok Os_ZVol else if v = 4 then Ok Os_Other else if v = 5 then Ok Os_Any else Err v)"

lemma object_set_type_try_from_safe [simp]: "object_set_type_try_from v \<noteq> Panic"
  by (simp add: object_set_type_try_from_def)

datatype object_set_extension =
    OsZero
  | OsTwo "dnode option" "dnode option"  \<comment> \<open>user, group\<close>
  | OsThree "dnode option" "dnode option" "dnode option"  \<comment> \<open>user, group, project\<close>

record object_set =
  os_dnode :: dnode
  os_zil_header :: zil_header
  os_os_type :: object_set_type
  os_user_accounting_complete :: bool
  os_user_object_accounting_complete :: bool
  os_project_quota_complete :: bool
  os_portable_mac :: bytes
  os_local_mac :: bytes
  os_extension :: object_set_extension

datatype object_set_decode_error =
    OsBinary binary_decode_error
  | OsDnode dnode_decode_error
  | OsEmptyDnode
  | OsFlags u64
  | OsType u64
  | OsZilHeader zil_header_decode_error

datatype object_set_encode_error =
    OsEncBinary binary_encode_error
  | OsEncDnode dnode_encode_error
  | OsEncZilHeader zil_header_encode_error

definition OS_FLAG_USER_ACCOUNTING_COMPLETE :: u64 where "OS_FLAG_USER_ACCOUNTING_COMPLETE = 1"
definition OS_FLAG_USER_OBJECT_ACCOUNTING_COMPLETE :: u64 where "OS_FLAG_USER_OBJECT_ACCOUNTING_COMPLETE = 2"
definition OS_FLAG_PROJECT_QUOTA_COMPLETE :: u64 where "OS_FLAG_PROJECT_QUOTA_COMPLETE = 4"
definition OS_FLAG_ALL :: u64 where
  "OS_FLAG_ALL = OS_FLAG_USER_ACCOUNTING_COMPLETE OR OS_FLAG_USER_OBJECT_ACCOUNTING_COMPLETE
     OR OS_FLAG_PROJECT_QUOTA_COMPLETE"

definition object_set_extension_from_decoder ::
  "binary_decoder \<Rightarrow> (buffer, object_set_decode_error, object_set_extension) step" where
  "object_set_extension_from_decoder d =
     bindD (queryD buf_is_empty) (\<lambda>empty.
     if empty then returnD OsZero
     else
       bindD (liftD OsDnode (dnode_from_decoder d)) (\<lambda>user_used.
       bindD (liftD OsDnode (dnode_from_decoder d)) (\<lambda>group_used.
       bindD (queryD buf_is_empty) (\<lambda>empty.
       if empty then returnD (OsTwo user_used group_used)
       else
         bindD (liftD OsDnode (dnode_from_decoder d)) (\<lambda>project_used.
         bindD (liftD OsBinary (skip_zeros d 1536)) (\<lambda>_.
         returnD (OsThree user_used group_used project_used)))))))"

definition object_set_from_decoder :: "binary_decoder \<Rightarrow> (buffer, object_set_decode_error, object_set) step" where
  "object_set_from_decoder d =
     bindD (liftD OsDnode (dnode_from_decoder d)) (\<lambda>dn.
     bindD ((case dn of Some dn \<Rightarrow> returnD dn | None \<Rightarrow> failD OsEmptyDnode)) (\<lambda>dn.
     bindD (liftD OsZilHeader (zil_header_from_decoder d)) (\<lambda>zil.
     bindD (liftD OsBinary (get_u64 d)) (\<lambda>os_type.
     bindD (liftD OsType (resultD (object_set_type_try_from os_type))) (\<lambda>os_type.
     bindD (liftD OsBinary (get_u64 d)) (\<lambda>flags.
     if flags AND OS_FLAG_ALL \<noteq> flags then failD (OsFlags flags)
     else
       bindD (liftD OsBinary (get_bytes_n d 32)) (\<lambda>portable_mac.
       bindD (liftD OsBinary (get_bytes_n d 32)) (\<lambda>local_mac.
       bindD (liftD OsBinary (skip_zeros d 240)) (\<lambda>_.
       bindD (object_set_extension_from_decoder d) (\<lambda>extension.
       returnD \<lparr>
         os_dnode = dn,
         os_zil_header = zil,
         os_os_type = os_type,
         os_user_accounting_complete = flags AND OS_FLAG_USER_ACCOUNTING_COMPLETE \<noteq> 0,
         os_user_object_accounting_complete = flags AND OS_FLAG_USER_OBJECT_ACCOUNTING_COMPLETE \<noteq> 0,
         os_project_quota_complete = flags AND OS_FLAG_PROJECT_QUOTA_COMPLETE \<noteq> 0,
         os_portable_mac = portable_mac,
         os_local_mac = local_mac,
         os_extension = extension\<rparr>))))))))))"

definition object_set_flags :: "object_set \<Rightarrow> u64" where
  "object_set_flags os =
     (if os_user_accounting_complete os then OS_FLAG_USER_ACCOUNTING_COMPLETE else 0)
     OR (if os_user_object_accounting_complete os then OS_FLAG_USER_OBJECT_ACCOUNTING_COMPLETE else 0)
     OR (if os_project_quota_complete os then OS_FLAG_PROJECT_QUOTA_COMPLETE else 0)"

definition object_set_to_encoder ::
  "binary_encoder \<Rightarrow> object_set \<Rightarrow> (enc_buffer, object_set_encode_error, unit) step" where
  "object_set_to_encoder e os =
     bindD (liftD OsEncDnode (dnode_to_encoder e (os_dnode os))) (\<lambda>_.
     bindD (liftD OsEncZilHeader (zil_header_to_encoder e (os_zil_header os))) (\<lambda>_.
     bindD (liftD OsEncBinary (put_u64 e (object_set_type_to_u64 (os_os_type os)))) (\<lambda>_.
     bindD (liftD OsEncBinary (put_u64 e (object_set_flags os))) (\<lambda>_.
     bindD (liftD OsEncBinary (put_bytes e (os_portable_mac os))) (\<lambda>_.
     bindD (liftD OsEncBinary (put_bytes e (os_local_mac os))) (\<lambda>_.
     bindD (liftD OsEncBinary (put_zeros e 240)) (\<lambda>_.
     (case os_extension os of
        OsZero \<Rightarrow> returnD ()
      | OsTwo user_used group_used \<Rightarrow> (
          bindD (liftD OsEncDnode (dnode_option_to_encoder e user_used)) (\<lambda>_.
          liftD OsEncDnode (dnode_option_to_encoder e group_used)))
      | OsThree user_used group_used project_used \<Rightarrow> (
          bindD (liftD OsEncDnode (dnode_option_to_encoder e user_used)) (\<lambda>_.
          bindD (liftD OsEncDnode (dnode_option_to_encoder e group_used)) (\<lambda>_.
          bindD (liftD OsEncDnode (dnode_option_to_encoder e project_used)) (\<lambda>_.
          liftD OsEncBinary (put_zeros e 1536)))))))))))))"

section \<open>Safety\<close>

context decoder_contract
begin

lemma zil_header_safe: "safe_dec (zil_header_from_decoder d)"
  unfolding zil_header_from_decoder_def by (intro dec_safe methods block_pointer_safe)

lemma object_set_extension_safe: "safe_dec (object_set_extension_from_decoder d)"
  unfolding object_set_extension_from_decoder_def by (intro dec_safe methods dnode_safe)

lemma object_set_safe: "safe_dec (object_set_from_decoder d)"
  unfolding object_set_from_decoder_def
  by (intro dec_safe methods dnode_safe zil_header_safe object_set_extension_safe)
    (auto split: option.split)

end

section \<open>Decoded values\<close>

definition wf_dnode :: "dnode \<Rightarrow> bool" where
  "wf_dnode dn \<longleftrightarrow> wf_tail (dn_tail dn) \<and> dn_bonus_len dn \<le> length (bonus_capacity dn)"

lemma dnode_from_decoder_wf:
  "yields (dnode_from_decoder (endian_decoder ord)) (\<lambda>r. case r of None \<Rightarrow> True | Some dn \<Rightarrow> wf_dnode dn)"
  using dnode_yields by (simp add: wf_dnode_def cong: option.case_cong)

lemma object_set_yields: "yields (object_set_from_decoder (endian_decoder ord)) (\<lambda>os. wf_dnode (os_dnode os))"
proof -
  have some: "yields (case r of Some dn \<Rightarrow> returnD dn | None \<Rightarrow> failD OsEmptyDnode) wf_dnode"
    if "case r of None \<Rightarrow> True | Some dn \<Rightarrow> wf_dnode dn" for r
    using that by (cases r) (simp_all add: yields_return yields_fail)
  show ?thesis
    unfolding object_set_from_decoder_def
    by (intro yields_bind[OF yields_lift[OF dnode_from_decoder_wf]] yields_bind[OF some] yields_bind_any yields_if
        yields_fail yields_return) simp_all
qed

end
