(* ===== verification/Label_Checksum.thy ===== *)
theory Label_Checksum
  imports Sha256 Decode_Props
begin

text \<open>
  \<open>ChecksumTail\<close> of \<open>phys/checksum.rs\<close> and \<open>checksum/label.rs\<close>: the self-checksums of the parts of a
  label. The checksum covers the data and the offset of the data on the device. The hasher is reset
  before it is used and not used afterwards, so the state it is left in is not returned.
\<close>

section \<open>Checksum tails\<close>

record checksum_tail =
  ct_order :: endian_order
  ct_value :: checksum_value

definition CHECKSUM_TAIL_SIZE :: nat where "CHECKSUM_TAIL_SIZE = 40"
definition CHECKSUM_TAIL_MAGIC :: u64 where "CHECKSUM_TAIL_MAGIC = 0x0210da7ab10c7a11"

datatype checksum_tail_decode_error = CtBinary binary_decode_error | CtChecksumValue binary_decode_error

datatype checksum_tail_encode_error = CtEncBinary binary_encode_error | CtEncChecksumValue binary_encode_error

definition checksum_tail_from_bytes :: "bytes \<Rightarrow> (checksum_tail_decode_error, checksum_tail) result" where
  "checksum_tail_from_bytes bs =
     and_then (map_err CtBinary (from_u64_magic bs CHECKSUM_TAIL_MAGIC)) (\<lambda>(order, b).
     and_then (map_err CtChecksumValue (checksum_value_from_decoder (endian_decoder order) b)) (\<lambda>(v, b).
     Ok \<lparr>ct_order = order, ct_value = v\<rparr>))"

definition checksum_tail_to_encoder ::
  "binary_encoder \<Rightarrow> checksum_tail \<Rightarrow> (enc_buffer, checksum_tail_encode_error, unit) step" where
  "checksum_tail_to_encoder e t =
     bindD (liftD CtEncBinary (put_u64 e CHECKSUM_TAIL_MAGIC)) (\<lambda>_.
     liftD CtEncChecksumValue (checksum_value_to_encoder e (ct_value t)))"

definition checksum_tail_to_bytes :: "checksum_tail \<Rightarrow> bytes \<Rightarrow> (checksum_tail_encode_error, bytes) result" where
  "checksum_tail_to_bytes t bs =
     and_then (checksum_tail_to_encoder (endian_encoder (ct_order t)) t (enc_to_bytes bs)) (\<lambda>(_, eb). Ok (enc_data eb))"

section \<open>Label checksums\<close>

datatype label_checksum_error =
    LcChecksumTail checksum_tail_encode_error
  | LcInvalidLength nat
  | LcOffsetTooLarge u64

datatype label_verify_error =
    LvChecksumTailDecode checksum_tail_decode_error
  | LvChecksumTailEncode checksum_tail_encode_error
  | LvInvalidLength nat
  | LvMismatch words4 words4
  | LvOffsetTooLarge u64

text \<open>\<open>u64::checked_shl\<close>: \<open>None\<close> only when the shift is as large as the width.\<close>

definition checked_shl :: "u64 \<Rightarrow> nat \<Rightarrow> u64 option" where
  "checked_shl v n = (if n < 64 then Some (push_bit n v) else None)"

definition SECTOR_SHIFT :: nat where "SECTOR_SHIFT = 9"

definition is_multiple_of_sector_size :: "u64 \<Rightarrow> bool" where
  "is_multiple_of_sector_size v \<longleftrightarrow> v AND (push_bit SECTOR_SHIFT 1 - 1) = 0"

definition offset_tail :: "u64 \<Rightarrow> endian_order \<Rightarrow> (checksum_tail_encode_error, bytes) result" where
  "offset_tail offset order =
     checksum_tail_to_bytes \<lparr>ct_order = order, ct_value = \<lparr>cv_words = (offset, 0, 0, 0)\<rparr>\<rparr> (replicate CHECKSUM_TAIL_SIZE 0)"

definition label_hash :: "sha256 \<Rightarrow> bytes \<Rightarrow> bytes \<Rightarrow> words4" where
  "label_hash sha data tail =
     sha256_finalize (sha256_update tail (sha256_update data (sha256_reset sha)))"

definition label_checksum :: "bytes \<Rightarrow> u64 \<Rightarrow> sha256 \<Rightarrow> endian_order \<Rightarrow> (label_checksum_error, bytes) result" where
  "label_checksum data offset sha order =
     (let len = length data in
      if len < CHECKSUM_TAIL_SIZE then Err (LcInvalidLength len)
      else
        and_then (ok_or (LcOffsetTooLarge offset) (checked_shl offset SECTOR_SHIFT)) (\<lambda>offset.
        and_then (map_err LcChecksumTail (offset_tail offset order)) (\<lambda>offset_tail_bytes.
        and_then (slice data 0 (len - CHECKSUM_TAIL_SIZE)) (\<lambda>covered.
        let checksum = label_hash sha covered offset_tail_bytes in
        and_then (slice data (len - CHECKSUM_TAIL_SIZE) len) (\<lambda>tail_bytes.
        and_then (map_err LcChecksumTail
          (checksum_tail_to_bytes \<lparr>ct_order = order, ct_value = \<lparr>cv_words = checksum\<rparr>\<rparr> tail_bytes)) (\<lambda>tail_bytes.
        Ok (overwrite data (len - CHECKSUM_TAIL_SIZE) tail_bytes)))))))"

definition label_verify :: "bytes \<Rightarrow> u64 \<Rightarrow> sha256 \<Rightarrow> (label_verify_error, unit) result" where
  "label_verify data offset sha =
     (let len = length data in
      if len < CHECKSUM_TAIL_SIZE then Err (LvInvalidLength len)
      else
        and_then (slice data (len - CHECKSUM_TAIL_SIZE) len) (\<lambda>tail.
        and_then (map_err LvChecksumTailDecode (checksum_tail_from_bytes tail)) (\<lambda>tail.
        and_then (ok_or (LvOffsetTooLarge offset) (checked_shl offset SECTOR_SHIFT)) (\<lambda>offset.
        and_then (map_err LvChecksumTailEncode (offset_tail offset (ct_order tail))) (\<lambda>offset_tail_bytes.
        and_then (slice data 0 (len - CHECKSUM_TAIL_SIZE)) (\<lambda>covered.
        let computed = label_hash sha covered offset_tail_bytes in
        if cv_words (ct_value tail) = computed then Ok ()
        else Err (LvMismatch computed (cv_words (ct_value tail)))))))))"

section \<open>Round trip of tails\<close>

definition checksum_tail_bytes :: "checksum_tail \<Rightarrow> bytes" where
  "checksum_tail_bytes t = word_bytes (ct_order t) 8 CHECKSUM_TAIL_MAGIC @ checksum_value_bytes (ct_order t) (ct_value t)"

lemma length_checksum_tail_bytes [simp]: "length (checksum_tail_bytes t) = 40"
  by (simp add: checksum_tail_bytes_def)

lemma writes_whole:
  "writes m bs \<Longrightarrow> length dst = length bs \<Longrightarrow> m (enc_to_bytes dst) = Ok ((), \<lparr>enc_data = bs, enc_offset = length bs\<rparr>)"
  by (simp add: writes_def enc_to_bytes_def overwrite_def)

lemma checksum_tail_to_bytes_eq:
  "length dst = 40 \<Longrightarrow> checksum_tail_to_bytes t dst = Ok (checksum_tail_bytes t)"
proof -
  assume "length dst = 40"
  moreover have "writes (checksum_tail_to_encoder (endian_encoder (ct_order t)) t) (checksum_tail_bytes t)"
    unfolding checksum_tail_to_encoder_def checksum_tail_bytes_def
    by (intro writes_bindD writes_liftD endian_put_u64 checksum_value_writes)
  ultimately show ?thesis
    by (simp add: checksum_tail_to_bytes_def writes_whole)
qed

text \<open>A magic number that is not its own byte-wise reversal tells the byte order.\<close>

lemma get_u64_word_bytes:
  assumes "take 8 bs = word_bytes ord 8 w"
  shows "get_u64 (endian_decoder ord) (buf_from_bytes bs) = Ok (w, (buf_from_bytes bs)\<lparr>buf_offset := 8\<rparr>)"
proof -
  have "length (take 8 bs) = 8"
    using assms by simp
  then have "8 \<le> length bs"
    by simp
  then show ?thesis
    using readsD[OF endian_get_u64, where b = "buf_from_bytes bs"] assms
    by (simp add: wf_buf_def buf_from_bytes_def)
qed

lemma word_bytes_reverse: "word_bytes Big n w = rev (word_bytes Little n w)"
  by (simp add: word_bytes_def be_bytes_def)

lemma from_u64_magic_order:
  fixes magic :: u64
  assumes "take 8 bs = word_bytes ord 8 magic" "le_word (be_bytes 8 magic) \<noteq> magic"
  shows "from_u64_magic bs magic = Ok (ord, (buf_from_bytes bs)\<lparr>buf_offset := 8\<rparr>)"
proof (cases ord)
  case Little
  then show ?thesis
    using get_u64_word_bytes[OF assms(1)] by (simp add: from_u64_magic_def endian_decoder_def)
next
  case Big
  let ?w = "le_word (be_bytes 8 magic) :: u64"
  have "take 8 bs = word_bytes Little 8 ?w"
    using assms(1) le_bytes_le_word[of "be_bytes 8 magic", where 'a = 64] by (simp add: Big word_bytes_def)
  from get_u64_word_bytes[OF this] get_u64_word_bytes[OF assms(1)] assms(2) show ?thesis
    by (simp add: from_u64_magic_def endian_decoder_def Big)
qed

lemma checksum_tail_magic_asymmetric: "le_word (be_bytes 8 CHECKSUM_TAIL_MAGIC) \<noteq> CHECKSUM_TAIL_MAGIC"
  by code_simp

lemma checksum_tail_from_bytes_eq: "checksum_tail_from_bytes (checksum_tail_bytes t) = Ok t"
proof -
  let ?bs = "checksum_tail_bytes t" and ?ord = "ct_order t"
  have "take 8 ?bs = word_bytes ?ord 8 CHECKSUM_TAIL_MAGIC"
    by (simp add: checksum_tail_bytes_def)
  note magic = from_u64_magic_order[OF this checksum_tail_magic_asymmetric]
  have "checksum_value_from_decoder (endian_decoder ?ord) ((buf_from_bytes ?bs)\<lparr>buf_offset := 8\<rparr>) =
      Ok (ct_value t, (buf_from_bytes ?bs)\<lparr>buf_offset := 40\<rparr>)"
    using readsD[OF checksum_value_reads[of ?ord "ct_value t"], of "(buf_from_bytes ?bs)\<lparr>buf_offset := 8\<rparr>"]
    by (simp add: wf_buf_def buf_from_bytes_def checksum_tail_bytes_def)
  then show ?thesis
    by (simp add: checksum_tail_from_bytes_def magic)
qed

lemma offset_tail_eq:
  "offset_tail off ord = Ok (checksum_tail_bytes \<lparr>ct_order = ord, ct_value = \<lparr>cv_words = (off, 0, 0, 0)\<rparr>\<rparr>)"
  by (simp add: offset_tail_def CHECKSUM_TAIL_SIZE_def checksum_tail_to_bytes_eq)

lemma label_hash_any: "label_hash sha = label_hash sha'"
proof -
  have "sha256_reset sha = sha256_reset sha'"
    by (cases sha; cases sha') (simp add: sha256_reset_def)
  then show ?thesis
    by (simp add: label_hash_def fun_eq_iff)
qed

lemma label_checksum_eq:
  assumes "length data \<ge> 40"
  shows "label_checksum data off sha ord = Ok (take (length data - 40) data @
    checksum_tail_bytes \<lparr>ct_order = ord, ct_value = \<lparr>cv_words = label_hash sha (take (length data - 40) data)
      (checksum_tail_bytes \<lparr>ct_order = ord, ct_value = \<lparr>cv_words = (push_bit 9 off, 0, 0, 0)\<rparr>\<rparr>)\<rparr>\<rparr>)"
  using assms by (simp add: label_checksum_def CHECKSUM_TAIL_SIZE_def SECTOR_SHIFT_def checked_shl_def offset_tail_eq
      slice_def slice_get_def checksum_tail_to_bytes_eq overwrite_def Let_def)

lemma label_verify_eq:
  assumes "length tail = 40" "checksum_tail_from_bytes tail = Ok t"
  shows "label_verify (covered @ tail) off sha =
    (let h = label_hash sha covered (checksum_tail_bytes \<lparr>ct_order = ct_order t, ct_value = \<lparr>cv_words = (push_bit 9 off, 0, 0, 0)\<rparr>\<rparr>) in
     if cv_words (ct_value t) = h then Ok () else Err (LvMismatch h (cv_words (ct_value t))))"
  using assms by (simp add: label_verify_def CHECKSUM_TAIL_SIZE_def SECTOR_SHIFT_def checked_shl_def offset_tail_eq
      slice_def slice_get_def Let_def)

lemma label_verify_checksum:
  assumes "label_checksum data off sha ord = Ok data'"
  shows "label_verify data' off sha' = Ok ()"
proof -
  have "length data \<ge> 40"
    using assms by (auto simp: label_checksum_def CHECKSUM_TAIL_SIZE_def Let_def split: if_splits)
  then show ?thesis
    using assms label_hash_any[of sha' sha] by (auto simp: label_checksum_eq label_verify_eq checksum_tail_from_bytes_eq)
qed

lemma from_u64_magic_not_Panic: "from_u64_magic bs magic \<noteq> Panic"
  using safe_decD(1)[OF little.get_u64, OF wf_buf_from_bytes, of bs] safe_decD(1)[OF big.get_u64, OF wf_buf_from_bytes, of bs]
  by (auto simp: from_u64_magic_def and_then_Panic_iff)

lemma from_u64_magic_wf: "from_u64_magic bs magic = Ok (ord, b) \<Longrightarrow> wf_buf b"
  using safe_decD(2)[OF little.get_u64, OF wf_buf_from_bytes, of bs] safe_decD(2)[OF big.get_u64, OF wf_buf_from_bytes, of bs]
  by (auto simp: from_u64_magic_def and_then_Ok_iff split: if_splits prod.splits)

end
