(* ===== verification/Zap.thy ===== *)
theory Zap
  imports Label_Checksum
begin

text \<open>
  \<open>phys/zap.rs\<close>: the structures of the ZAP, the on-disk map from names to values: the header and the
  entries of the single-block form (micro), and the header, leaf header and leaf chunks of the form
  with a hash table (fat).
\<close>

section \<open>Normalization\<close>

datatype zap_case_normalization = Zc_None | Zc_Upper | Zc_Lower

definition zap_case_to_u64 :: "zap_case_normalization \<Rightarrow> u64" where
  "zap_case_to_u64 n = (case n of Zc_None \<Rightarrow> 0 | Zc_Upper \<Rightarrow> 0x02 | Zc_Lower \<Rightarrow> 0x04)"

definition zap_case_try_from :: "u64 \<Rightarrow> (u64, zap_case_normalization) result" where
  "zap_case_try_from v =
     (if v = 0 then Ok Zc_None else if v = 0x02 then Ok Zc_Upper else if v = 0x04 then Ok Zc_Lower else Err v)"

datatype zap_unicode_normalization = Zu_None | Zu_NFD | Zu_NFKD | Zu_NFC | Zu_NFKC

definition zap_unicode_to_u64 :: "zap_unicode_normalization \<Rightarrow> u64" where
  "zap_unicode_to_u64 n = (case n of Zu_None \<Rightarrow> 0 | Zu_NFD \<Rightarrow> 0x10 | Zu_NFKD \<Rightarrow> 0x20 | Zu_NFC \<Rightarrow> 0x50 | Zu_NFKC \<Rightarrow> 0x60)"

definition zap_unicode_try_from :: "u64 \<Rightarrow> (u64, zap_unicode_normalization) result" where
  "zap_unicode_try_from v =
     (if v = 0 then Ok Zu_None else if v = 0x10 then Ok Zu_NFD else if v = 0x20 then Ok Zu_NFKD
      else if v = 0x50 then Ok Zu_NFC else if v = 0x60 then Ok Zu_NFKC else Err v)"

definition ZAP_CASE_MASK_ALL :: u64 where "ZAP_CASE_MASK_ALL = 0x02 OR 0x04"
definition ZAP_UNICODE_MASK_ALL :: u64 where "ZAP_UNICODE_MASK_ALL = 0x10 OR 0x20 OR 0x50 OR 0x60"
definition ZAP_NORMALIZATION_MASK :: u64 where "ZAP_NORMALIZATION_MASK = ZAP_CASE_MASK_ALL OR ZAP_UNICODE_MASK_ALL"

lemma zap_try_from_safe [simp]: "zap_case_try_from v \<noteq> Panic" "zap_unicode_try_from v \<noteq> Panic"
  by (simp_all add: zap_case_try_from_def zap_unicode_try_from_def)

section \<open>Micro headers\<close>

record zap_micro_header =
  zmh_salt :: u64
  zmh_case_normalization :: zap_case_normalization
  zmh_unicode_normalization :: zap_unicode_normalization

definition ZAP_MICRO_BLOCK_TYPE :: u64 where "ZAP_MICRO_BLOCK_TYPE = 0x8000000000000003"

datatype zap_micro_header_decode_error =
    ZmhBinary binary_decode_error
  | ZmhBlockType u64
  | ZmhCaseNormalization u64
  | ZmhNormalization u64
  | ZmhUnicodeNormalization u64

definition zap_micro_header_from_decoder ::
  "binary_decoder \<Rightarrow> (buffer, zap_micro_header_decode_error, zap_micro_header) step" where
  "zap_micro_header_from_decoder d =
     bindD (liftD ZmhBinary (get_u64 d)) (\<lambda>block_type.
     if block_type \<noteq> ZAP_MICRO_BLOCK_TYPE then failD (ZmhBlockType block_type)
     else
       bindD (liftD ZmhBinary (get_u64 d)) (\<lambda>salt.
       bindD (liftD ZmhBinary (get_u64 d)) (\<lambda>normalization.
       if normalization AND ZAP_NORMALIZATION_MASK \<noteq> normalization then failD (ZmhNormalization normalization)
       else
         bindD (liftD ZmhCaseNormalization (resultD (zap_case_try_from (normalization AND ZAP_CASE_MASK_ALL)))) (\<lambda>cn.
         bindD (liftD ZmhUnicodeNormalization (resultD (zap_unicode_try_from (normalization AND ZAP_UNICODE_MASK_ALL)))) (\<lambda>un.
         bindD (liftD ZmhBinary (skip_zeros d 40)) (\<lambda>_.
         returnD \<lparr>zmh_salt = salt, zmh_case_normalization = cn, zmh_unicode_normalization = un\<rparr>))))))"

definition zap_micro_header_to_encoder :: "binary_encoder \<Rightarrow> zap_micro_header \<Rightarrow> unit enc" where
  "zap_micro_header_to_encoder e h =
     bindD (put_u64 e ZAP_MICRO_BLOCK_TYPE) (\<lambda>_.
     bindD (put_u64 e (zmh_salt h)) (\<lambda>_.
     bindD (put_u64 e (zap_case_to_u64 (zmh_case_normalization h) OR zap_unicode_to_u64 (zmh_unicode_normalization h))) (\<lambda>_.
     put_zeros e 40)))"

section \<open>Micro entries\<close>

record zap_micro_entry =
  zme_cd :: u32
  zme_name :: bytes
  zme_value :: u64

datatype zap_micro_entry_decode_error =
    ZmeBinary binary_decode_error
  | ZmeNameNotNullTerminated
  | ZmeInvalidStr utf8_error

datatype zap_micro_entry_encode_error = ZmeEncBinary binary_encode_error | ZmeEncNameTooLong nat

definition ZAP_NAME_MAX :: nat where "ZAP_NAME_MAX = 49"

definition zap_micro_entry_from_decoder ::
  "binary_decoder \<Rightarrow> (buffer, zap_micro_entry_decode_error, zap_micro_entry option) step" where
  "zap_micro_entry_from_decoder d =
     bindD (liftD ZmeBinary (is_skip_zeros d 64)) (\<lambda>zero.
     if zero then returnD None
     else
       bindD (liftD ZmeBinary (get_u64 d)) (\<lambda>value.
       bindD (liftD ZmeBinary (get_u32 d)) (\<lambda>cd.
       bindD (liftD ZmeBinary (skip_zeros d 2)) (\<lambda>_.
       bindD (liftD ZmeBinary (get_bytes_n d (ZAP_NAME_MAX + 1))) (\<lambda>name.
       if 0 \<notin> set name then failD ZmeNameNotNullTerminated
       else
         bindD (resultD (slice name 0 ZAP_NAME_MAX)) (\<lambda>name.
         returnD (Some \<lparr>zme_cd = cd, zme_name = name, zme_value = value\<rparr>)))))))"

definition zap_micro_entry_to_encoder ::
  "binary_encoder \<Rightarrow> zap_micro_entry \<Rightarrow> (enc_buffer, zap_micro_entry_encode_error, unit) step" where
  "zap_micro_entry_to_encoder e m =
     bindD (liftD ZmeEncBinary (put_u64 e (zme_value m))) (\<lambda>_.
     bindD (liftD ZmeEncBinary (put_u32 e (zme_cd m))) (\<lambda>_.
     bindD (liftD ZmeEncBinary (put_zeros e 2)) (\<lambda>_.
     bindD (liftD ZmeEncBinary (put_bytes e (zme_name m))) (\<lambda>_.
     liftD ZmeEncBinary (put_u8 e 0)))))"

definition zap_micro_entry_empty_to_encoder ::
  "binary_encoder \<Rightarrow> (enc_buffer, zap_micro_entry_encode_error, unit) step" where
  "zap_micro_entry_empty_to_encoder e = liftD ZmeEncBinary (put_zeros e 64)"

definition zap_micro_entry_option_to_encoder ::
  "binary_encoder \<Rightarrow> zap_micro_entry option \<Rightarrow> (enc_buffer, zap_micro_entry_encode_error, unit) step" where
  "zap_micro_entry_option_to_encoder e p =
     (case p of Some v \<Rightarrow> zap_micro_entry_to_encoder e v | None \<Rightarrow> zap_micro_entry_empty_to_encoder e)"

text \<open>
  \<open>ZapMicroEntryRef\<close> has the fields of \<open>ZapMicroEntry\<close>, with the name as a UTF-8 string up to its null
  byte.
\<close>

definition zap_micro_entry_ref_from_decoder ::
  "binary_decoder \<Rightarrow> (buffer, zap_micro_entry_decode_error, zap_micro_entry option) step" where
  "zap_micro_entry_ref_from_decoder d =
     bindD (liftD ZmeBinary (is_skip_zeros d 64)) (\<lambda>zero.
     if zero then returnD None
     else
       bindD (liftD ZmeBinary (get_u64 d)) (\<lambda>value.
       bindD (liftD ZmeBinary (get_u32 d)) (\<lambda>cd.
       bindD (liftD ZmeBinary (skip_zeros d 2)) (\<lambda>_.
       bindD (liftD ZmeBinary (get_bytes_n d (ZAP_NAME_MAX + 1))) (\<lambda>name.
       let len = length (takeWhile (\<lambda>b. b \<noteq> 0) name) in
       if 0 \<notin> set name then failD ZmeNameNotNullTerminated
       else
         bindD (resultD (slice name 0 len)) (\<lambda>name.
         bindD (liftD ZmeInvalidStr (resultD (from_utf8 name))) (\<lambda>name.
         returnD (Some \<lparr>zme_cd = cd, zme_name = name, zme_value = value\<rparr>))))))))"

definition zap_micro_entry_ref_to_encoder ::
  "binary_encoder \<Rightarrow> zap_micro_entry \<Rightarrow> (enc_buffer, zap_micro_entry_encode_error, unit) step" where
  "zap_micro_entry_ref_to_encoder e m =
     bindD (liftD ZmeEncBinary (put_u64 e (zme_value m))) (\<lambda>_.
     bindD (liftD ZmeEncBinary (put_u32 e (zme_cd m))) (\<lambda>_.
     bindD (liftD ZmeEncBinary (put_zeros e 2)) (\<lambda>_.
     let len = length (zme_name m) in
     if len > ZAP_NAME_MAX then failD (ZmeEncNameTooLong len)
     else
       bindD (liftD ZmeEncBinary (put_bytes e (zme_name m))) (\<lambda>_.
       bindD (liftD ZmeEncBinary (put_zeros e (ZAP_NAME_MAX + 1 - len))) (\<lambda>_.
       liftD ZmeEncBinary (put_u8 e 0))))))"

text \<open>
  The iterator over the entries of a block: the constructor reads the header, \<open>next\<close> skips the empty
  entries. On an error the iterator is not used again, so the buffer it is left with is not modelled.
\<close>

datatype zap_micro_iterator_error =
    ZmiSize nat
  | ZmiHeader zap_micro_header_decode_error

definition zap_micro_iterator_from_decoder ::
  "binary_decoder \<Rightarrow> (buffer, zap_micro_iterator_error, zap_micro_header) step" where
  "zap_micro_iterator_from_decoder d =
     bindD (liftD ZmiHeader (zap_micro_header_from_decoder d)) (\<lambda>header.
     bindD (queryD buf_len) (\<lambda>len.
     if len mod 64 \<noteq> 0 then failD (ZmiSize len) else returnD header))"

lemma is_skip_zeros_True:
  assumes "liftD C (is_skip_zeros (endian_decoder ord) n) b = Ok (True, b')"
  shows "buf_offset b' = buf_offset b + n" "buf_max_offset b' = buf_max_offset b"
  using assms by (auto simp: liftD_def buf_is_skip_zeros_def buf_get_bytes_def buf_check_need_def bindD_def
      and_then_Ok_iff split: if_splits)

lemma zap_micro_entry_ref_None:
  assumes "zap_micro_entry_ref_from_decoder (endian_decoder ord) b = Ok (None, b')" "\<not> buf_is_empty b"
  shows "buf_len b' < buf_len b"
proof -
  obtain z b1 where z: "liftD ZmeBinary (is_skip_zeros (endian_decoder ord) 64) b = Ok (z, b1)"
    using assms(1) by (auto simp: zap_micro_entry_ref_from_decoder_def bindD_def and_then_Ok_iff)
  have "z \<and> b1 = b'"
  proof (rule ccontr)
    assume "\<not> (z \<and> b1 = b')"
    then show False
      using assms(1) z unfolding zap_micro_entry_ref_from_decoder_def
      by (auto simp: bindD_def and_then_Ok_iff returnD_def failD_def Let_def split: if_splits)
  qed
  then show ?thesis
    using is_skip_zeros_True[of ZmeBinary ord 64 b b'] z assms(2) by (simp add: buf_len_def buf_is_empty_def)
qed

function zap_micro_next ::
  "endian_order \<Rightarrow> buffer \<Rightarrow> (zap_micro_entry_decode_error, zap_micro_entry) result option \<times> buffer" where
  "zap_micro_next ord b =
     (if buf_is_empty b then (None, b)
      else case zap_micro_entry_ref_from_decoder (endian_decoder ord) b of
        Err err \<Rightarrow> (Some (Err err), b)
      | Panic \<Rightarrow> (Some Panic, b)
      | Ok (entry_opt, b') \<Rightarrow>
          (case entry_opt of
             Some entry \<Rightarrow> (Some (Ok entry), b')
           | None \<Rightarrow> zap_micro_next ord b'))"
  by pat_completeness auto
termination
  by (relation "measure (\<lambda>(ord, b). buf_len b)") (auto simp: zap_micro_entry_ref_None)

declare zap_micro_next.simps [simp del]

section \<open>Fat headers\<close>

record zap_mega_pointer_table =
  zpt_starting_block :: u64
  zpt_blocks :: u64
  zpt_hash_bits :: u64
  zpt_next_block :: u64
  zpt_blocks_copied :: u64

definition zap_mega_pointer_table_from_decoder :: "binary_decoder \<Rightarrow> zap_mega_pointer_table dec" where
  "zap_mega_pointer_table_from_decoder d =
     bindD (get_u64 d) (\<lambda>starting_block.
     bindD (get_u64 d) (\<lambda>blocks.
     bindD (get_u64 d) (\<lambda>hash_bits.
     bindD (get_u64 d) (\<lambda>next_block.
     bindD (get_u64 d) (\<lambda>blocks_copied.
     returnD \<lparr>zpt_starting_block = starting_block, zpt_blocks = blocks, zpt_hash_bits = hash_bits,
       zpt_next_block = next_block, zpt_blocks_copied = blocks_copied\<rparr>)))))"

definition zap_mega_pointer_table_to_encoder :: "binary_encoder \<Rightarrow> zap_mega_pointer_table \<Rightarrow> unit enc" where
  "zap_mega_pointer_table_to_encoder e t =
     bindD (put_u64 e (zpt_starting_block t)) (\<lambda>_.
     bindD (put_u64 e (zpt_blocks t)) (\<lambda>_.
     bindD (put_u64 e (zpt_hash_bits t)) (\<lambda>_.
     bindD (put_u64 e (zpt_next_block t)) (\<lambda>_.
     put_u64 e (zpt_blocks_copied t)))))"

record zap_mega_header =
  zgh_table :: zap_mega_pointer_table
  zgh_next_free_block :: u64
  zgh_number_of_leafs :: u64
  zgh_number_of_entries :: u64
  zgh_salt :: u64
  zgh_case_normalization :: zap_case_normalization
  zgh_unicode_normalization :: zap_unicode_normalization
  zgh_hash_bits_48 :: bool
  zgh_key_u64 :: bool
  zgh_pre_hashed_key :: bool

definition ZAP_MEGA_SIZE :: nat where "ZAP_MEGA_SIZE = 104"
definition ZAP_MEGA_BLOCK_TYPE :: u64 where "ZAP_MEGA_BLOCK_TYPE = 0x8000000000000001"
definition ZAP_MEGA_MAGIC :: u64 where "ZAP_MEGA_MAGIC = 0x00000002f52ab2ab"
definition ZAP_FLAG_HASH_BITS_48 :: u64 where "ZAP_FLAG_HASH_BITS_48 = 1"
definition ZAP_FLAG_KEY_U64 :: u64 where "ZAP_FLAG_KEY_U64 = 2"
definition ZAP_FLAG_PRE_HASHED_KEY :: u64 where "ZAP_FLAG_PRE_HASHED_KEY = 4"
definition ZAP_FLAG_ALL :: u64 where
  "ZAP_FLAG_ALL = ZAP_FLAG_HASH_BITS_48 OR ZAP_FLAG_KEY_U64 OR ZAP_FLAG_PRE_HASHED_KEY"

datatype zap_mega_header_decode_error =
    ZghBinary binary_decode_error
  | ZghBlockSize nat
  | ZghBlockType u64
  | ZghCaseNormalization u64
  | ZghFlags u64
  | ZghMagic u64
  | ZghNormalization u64
  | ZghUnicodeNormalization u64
  | ZghPointerTable binary_decode_error

definition zap_mega_header_from_decoder ::
  "binary_decoder \<Rightarrow> (buffer, zap_mega_header_decode_error, zap_mega_header) step" where
  "zap_mega_header_from_decoder d =
     bindD (liftD ZghBinary (get_u64 d)) (\<lambda>block_type.
     if block_type \<noteq> ZAP_MEGA_BLOCK_TYPE then failD (ZghBlockType block_type)
     else
       bindD (liftD ZghBinary (get_u64 d)) (\<lambda>magic.
       if magic \<noteq> ZAP_MEGA_MAGIC then failD (ZghMagic magic)
       else
         bindD (liftD ZghPointerTable (zap_mega_pointer_table_from_decoder d)) (\<lambda>table.
         bindD (liftD ZghBinary (get_u64 d)) (\<lambda>next_free_block.
         bindD (liftD ZghBinary (get_u64 d)) (\<lambda>number_of_leafs.
         bindD (liftD ZghBinary (get_u64 d)) (\<lambda>number_of_entries.
         bindD (liftD ZghBinary (get_u64 d)) (\<lambda>salt.
         bindD (liftD ZghBinary (get_u64 d)) (\<lambda>normalization.
         if normalization AND ZAP_NORMALIZATION_MASK \<noteq> normalization then failD (ZghNormalization normalization)
         else
           bindD (liftD ZghCaseNormalization (resultD (zap_case_try_from (normalization AND ZAP_CASE_MASK_ALL)))) (\<lambda>cn.
           bindD (liftD ZghUnicodeNormalization (resultD (zap_unicode_try_from (normalization AND ZAP_UNICODE_MASK_ALL)))) (\<lambda>un.
           bindD (liftD ZghBinary (get_u64 d)) (\<lambda>flags.
           if flags AND ZAP_FLAG_ALL \<noteq> flags then failD (ZghFlags flags)
           else returnD \<lparr>
             zgh_table = table,
             zgh_next_free_block = next_free_block,
             zgh_number_of_leafs = number_of_leafs,
             zgh_number_of_entries = number_of_entries,
             zgh_salt = salt,
             zgh_case_normalization = cn,
             zgh_unicode_normalization = un,
             zgh_hash_bits_48 = flags AND ZAP_FLAG_HASH_BITS_48 \<noteq> 0,
             zgh_key_u64 = flags AND ZAP_FLAG_KEY_U64 \<noteq> 0,
             zgh_pre_hashed_key = flags AND ZAP_FLAG_PRE_HASHED_KEY \<noteq> 0\<rparr>)))))))))))"

definition zap_mega_header_to_encoder :: "binary_encoder \<Rightarrow> zap_mega_header \<Rightarrow> unit enc" where
  "zap_mega_header_to_encoder e h =
     bindD (put_u64 e ZAP_MEGA_BLOCK_TYPE) (\<lambda>_.
     bindD (put_u64 e ZAP_MEGA_MAGIC) (\<lambda>_.
     bindD (zap_mega_pointer_table_to_encoder e (zgh_table h)) (\<lambda>_.
     bindD (put_u64 e (zgh_next_free_block h)) (\<lambda>_.
     bindD (put_u64 e (zgh_number_of_leafs h)) (\<lambda>_.
     bindD (put_u64 e (zgh_number_of_entries h)) (\<lambda>_.
     bindD (put_u64 e (zgh_salt h)) (\<lambda>_.
     bindD (put_u64 e (zap_case_to_u64 (zgh_case_normalization h) OR zap_unicode_to_u64 (zgh_unicode_normalization h))) (\<lambda>_.
     put_u64 e ((if zgh_hash_bits_48 h then ZAP_FLAG_HASH_BITS_48 else 0)
       OR (if zgh_key_u64 h then ZAP_FLAG_KEY_U64 else 0)
       OR (if zgh_pre_hashed_key h then ZAP_FLAG_PRE_HASHED_KEY else 0))))))))))"

definition is_power_of_two :: "nat \<Rightarrow> bool" where
  "is_power_of_two n \<longleftrightarrow> n \<noteq> 0 \<and> n AND (n - 1) = 0"

definition get_padding_size_and_embedded_leaf_pointer_count ::
  "nat \<Rightarrow> (zap_mega_header_decode_error, nat \<times> nat) result" where
  "get_padding_size_and_embedded_leaf_pointer_count block_size =
     (if block_size < 2 ^ SECTOR_SHIFT \<or> \<not> is_power_of_two block_size then Err (ZghBlockSize block_size)
      else let half = block_size div 2 in Ok (half - ZAP_MEGA_SIZE, half div 8))"

datatype zap_header = ZapMega zap_mega_header | ZapMicro zap_micro_header

datatype zap_header_decode_error =
    ZhdBinary binary_decode_error
  | ZhdBlockType u64
  | ZhdMega zap_mega_header_decode_error
  | ZhdMicro zap_micro_header_decode_error

definition zap_header_from_decoder :: "binary_decoder \<Rightarrow> (buffer, zap_header_decode_error, zap_header) step" where
  "zap_header_from_decoder d =
     bindD (liftD ZhdBinary (get_u64 d)) (\<lambda>block_type.
     bindD (liftD ZhdBinary (rewind d 8)) (\<lambda>_.
     if block_type = ZAP_MEGA_BLOCK_TYPE then (
       bindD (liftD ZhdMega (zap_mega_header_from_decoder d)) (\<lambda>h.
       returnD (ZapMega h)))
     else if block_type = ZAP_MICRO_BLOCK_TYPE then (
       bindD (liftD ZhdMicro (zap_micro_header_from_decoder d)) (\<lambda>h.
       returnD (ZapMicro h)))
     else failD (ZhdBlockType block_type)))"

definition zap_header_to_encoder :: "binary_encoder \<Rightarrow> zap_header \<Rightarrow> unit enc" where
  "zap_header_to_encoder e h = (case h of
     ZapMega h \<Rightarrow> zap_mega_header_to_encoder e h | ZapMicro h \<Rightarrow> zap_micro_header_to_encoder e h)"

section \<open>Leaves\<close>

definition ZAP_LEAF_EOL :: u16 where "ZAP_LEAF_EOL = 0xffff"
definition ZAP_LEAF_HEADER_FLAG_ALL :: u8 where "ZAP_LEAF_HEADER_FLAG_ALL = 1"

text \<open>A chunk number, where the end-of-list mark stands for none, and its inverse.\<close>

definition some_chunk :: "u16 \<Rightarrow> u16 option" where
  "some_chunk v = (if v = ZAP_LEAF_EOL then None else Some v)"

definition unwrap_chunk :: "u16 option \<Rightarrow> u16" where
  "unwrap_chunk v = (case v of None \<Rightarrow> ZAP_LEAF_EOL | Some v \<Rightarrow> v)"

record zap_leaf_header =
  zlh_hash_prefix :: u64
  zlh_hash_prefix_len :: u16
  zlh_number_of_free_chunks :: u16
  zlh_number_of_entries :: u16
  zlh_next_free_chunk :: "u16 option"
  zlh_cd_sorted :: bool

definition ZAP_LEAF_SIZE :: nat where "ZAP_LEAF_SIZE = 48"
definition ZAP_LEAF_BLOCK_TYPE :: u64 where "ZAP_LEAF_BLOCK_TYPE = 0x8000000000000000"
definition ZAP_LEAF_MAGIC :: u32 where "ZAP_LEAF_MAGIC = 0x02AB1EAF"

datatype zap_leaf_header_decode_error =
    ZlhBinary binary_decode_error
  | ZlhBlockType u64
  | ZlhFlags u8
  | ZlhMagic u32

definition zap_leaf_header_from_decoder ::
  "binary_decoder \<Rightarrow> (buffer, zap_leaf_header_decode_error, zap_leaf_header) step" where
  "zap_leaf_header_from_decoder d =
     bindD (liftD ZlhBinary (get_u64 d)) (\<lambda>block_type.
     if block_type \<noteq> ZAP_LEAF_BLOCK_TYPE then failD (ZlhBlockType block_type)
     else
       bindD (liftD ZlhBinary (skip_zeros d 8)) (\<lambda>_.
       bindD (liftD ZlhBinary (get_u64 d)) (\<lambda>hash_prefix.
       bindD (liftD ZlhBinary (get_u32 d)) (\<lambda>magic.
       if magic \<noteq> ZAP_LEAF_MAGIC then failD (ZlhMagic magic)
       else
         bindD (liftD ZlhBinary (get_u16 d)) (\<lambda>number_of_free_chunks.
         bindD (liftD ZlhBinary (get_u16 d)) (\<lambda>number_of_entries.
         bindD (liftD ZlhBinary (get_u16 d)) (\<lambda>hash_prefix_len.
         bindD (liftD ZlhBinary (get_u16 d)) (\<lambda>next_free_chunk.
         bindD (liftD ZlhBinary (get_u8 d)) (\<lambda>flags.
         if flags AND ZAP_LEAF_HEADER_FLAG_ALL \<noteq> flags then failD (ZlhFlags flags)
         else
           bindD (liftD ZlhBinary (skip_zeros d 11)) (\<lambda>_.
           returnD \<lparr>
             zlh_hash_prefix = hash_prefix,
             zlh_hash_prefix_len = hash_prefix_len,
             zlh_number_of_free_chunks = number_of_free_chunks,
             zlh_number_of_entries = number_of_entries,
             zlh_next_free_chunk = some_chunk next_free_chunk,
             zlh_cd_sorted = flags AND ZAP_LEAF_HEADER_FLAG_ALL \<noteq> 0\<rparr>))))))))))"

definition zap_leaf_header_to_encoder :: "binary_encoder \<Rightarrow> zap_leaf_header \<Rightarrow> unit enc" where
  "zap_leaf_header_to_encoder e h =
     bindD (put_u64 e ZAP_LEAF_BLOCK_TYPE) (\<lambda>_.
     bindD (put_zeros e 8) (\<lambda>_.
     bindD (put_u64 e (zlh_hash_prefix h)) (\<lambda>_.
     bindD (put_u32 e ZAP_LEAF_MAGIC) (\<lambda>_.
     bindD (put_u16 e (zlh_number_of_free_chunks h)) (\<lambda>_.
     bindD (put_u16 e (zlh_number_of_entries h)) (\<lambda>_.
     bindD (put_u16 e (zlh_hash_prefix_len h)) (\<lambda>_.
     bindD (put_u16 e (unwrap_chunk (zlh_next_free_chunk h))) (\<lambda>_.
     bindD (put_u8 e (if zlh_cd_sorted h then ZAP_LEAF_HEADER_FLAG_ALL else 0)) (\<lambda>_.
     put_zeros e 11)))))))))"

definition ZAP_LEAF_CHUNK_SIZE :: nat where "ZAP_LEAF_CHUNK_SIZE = 24"
definition ZAP_LEAF_DATA_SIZE :: nat where "ZAP_LEAF_DATA_SIZE = 21"

definition get_entries_and_chunks_counts :: "nat \<Rightarrow> (zap_mega_header_decode_error, nat \<times> nat) result" where
  "get_entries_and_chunks_counts block_size =
     (if block_size < 2 ^ SECTOR_SHIFT \<or> \<not> is_power_of_two block_size then Err (ZghBlockSize block_size)
      else
        let entries_count = block_size div 2 ^ 5;
            chunks_count = (block_size - (ZAP_LEAF_SIZE + 2 * entries_count)) div ZAP_LEAF_CHUNK_SIZE in
        Ok (entries_count, chunks_count))"

record zap_leaf_chunk_data =
  zld_data :: bytes
  zld_next :: "u16 option"

record zap_leaf_chunk_entry =
  zle_hash :: u64
  zle_cd :: u32
  zle_name_chunk :: u16
  zle_name_length :: u16
  zle_value_chunk :: u16
  zle_value_length :: u16
  zle_value_int_size :: u8
  zle_next :: "u16 option"

record zap_leaf_chunk_free =
  zlf_next :: "u16 option"

datatype zap_leaf_chunk = ZlcArray zap_leaf_chunk_data | ZlcEntry zap_leaf_chunk_entry | ZlcFree zap_leaf_chunk_free

datatype zap_leaf_chunk_decode_error = ZlcBinary binary_decode_error | ZlcChunkType u8

definition CHUNK_TYPE_DATA :: u8 where "CHUNK_TYPE_DATA = 251"
definition CHUNK_TYPE_ENTRY :: u8 where "CHUNK_TYPE_ENTRY = 252"
definition CHUNK_TYPE_FREE :: u8 where "CHUNK_TYPE_FREE = 253"

type_synonym 'a zlc_dec = "(buffer, zap_leaf_chunk_decode_error, 'a) step"

definition zap_leaf_chunk_data_from_decoder :: "binary_decoder \<Rightarrow> zap_leaf_chunk_data zlc_dec" where
  "zap_leaf_chunk_data_from_decoder d =
     bindD (liftD ZlcBinary (get_u8 d)) (\<lambda>chunk_type.
     if chunk_type \<noteq> CHUNK_TYPE_DATA then failD (ZlcChunkType chunk_type)
     else
       bindD (liftD ZlcBinary (get_bytes_n d ZAP_LEAF_DATA_SIZE)) (\<lambda>data.
       bindD (liftD ZlcBinary (get_u16 d)) (\<lambda>next.
       returnD \<lparr>zld_data = data, zld_next = some_chunk next\<rparr>)))"

definition zap_leaf_chunk_data_to_encoder :: "binary_encoder \<Rightarrow> zap_leaf_chunk_data \<Rightarrow> unit enc" where
  "zap_leaf_chunk_data_to_encoder e c =
     bindD (put_u8 e CHUNK_TYPE_DATA) (\<lambda>_.
     bindD (put_bytes e (zld_data c)) (\<lambda>_.
     put_u16 e (unwrap_chunk (zld_next c))))"

definition zap_leaf_chunk_entry_from_decoder :: "binary_decoder \<Rightarrow> zap_leaf_chunk_entry zlc_dec" where
  "zap_leaf_chunk_entry_from_decoder d =
     bindD (liftD ZlcBinary (get_u8 d)) (\<lambda>chunk_type.
     if chunk_type \<noteq> CHUNK_TYPE_ENTRY then failD (ZlcChunkType chunk_type)
     else
       bindD (liftD ZlcBinary (get_u8 d)) (\<lambda>value_int_size.
       bindD (liftD ZlcBinary (get_u16 d)) (\<lambda>next.
       bindD (liftD ZlcBinary (get_u16 d)) (\<lambda>name_chunk.
       bindD (liftD ZlcBinary (get_u16 d)) (\<lambda>name_length.
       bindD (liftD ZlcBinary (get_u16 d)) (\<lambda>value_chunk.
       bindD (liftD ZlcBinary (get_u16 d)) (\<lambda>value_length.
       bindD (liftD ZlcBinary (get_u32 d)) (\<lambda>cd.
       bindD (liftD ZlcBinary (get_u64 d)) (\<lambda>hash.
       returnD \<lparr>zle_hash = hash, zle_cd = cd, zle_name_chunk = name_chunk, zle_name_length = name_length,
         zle_value_chunk = value_chunk, zle_value_length = value_length, zle_value_int_size = value_int_size,
         zle_next = some_chunk next\<rparr>)))))))))"

definition zap_leaf_chunk_entry_to_encoder :: "binary_encoder \<Rightarrow> zap_leaf_chunk_entry \<Rightarrow> unit enc" where
  "zap_leaf_chunk_entry_to_encoder e c =
     bindD (put_u8 e CHUNK_TYPE_ENTRY) (\<lambda>_.
     bindD (put_u8 e (zle_value_int_size c)) (\<lambda>_.
     bindD (put_u16 e (unwrap_chunk (zle_next c))) (\<lambda>_.
     bindD (put_u16 e (zle_name_chunk c)) (\<lambda>_.
     bindD (put_u16 e (zle_name_length c)) (\<lambda>_.
     bindD (put_u16 e (zle_value_chunk c)) (\<lambda>_.
     bindD (put_u16 e (zle_value_length c)) (\<lambda>_.
     bindD (put_u32 e (zle_cd c)) (\<lambda>_.
     put_u64 e (zle_hash c)))))))))"

definition zap_leaf_chunk_free_from_decoder :: "binary_decoder \<Rightarrow> zap_leaf_chunk_free zlc_dec" where
  "zap_leaf_chunk_free_from_decoder d =
     bindD (liftD ZlcBinary (get_u8 d)) (\<lambda>chunk_type.
     if chunk_type \<noteq> CHUNK_TYPE_FREE then failD (ZlcChunkType chunk_type)
     else
       bindD (liftD ZlcBinary (skip d ZAP_LEAF_DATA_SIZE)) (\<lambda>_.
       bindD (liftD ZlcBinary (get_u16 d)) (\<lambda>next.
       returnD \<lparr>zlf_next = some_chunk next\<rparr>)))"

definition zap_leaf_chunk_free_to_encoder :: "binary_encoder \<Rightarrow> zap_leaf_chunk_free \<Rightarrow> unit enc" where
  "zap_leaf_chunk_free_to_encoder e c =
     bindD (put_u8 e CHUNK_TYPE_FREE) (\<lambda>_.
     bindD (put_zeros e ZAP_LEAF_DATA_SIZE) (\<lambda>_.
     put_u16 e (unwrap_chunk (zlf_next c))))"

definition zap_leaf_chunk_from_decoder :: "binary_decoder \<Rightarrow> zap_leaf_chunk zlc_dec" where
  "zap_leaf_chunk_from_decoder d =
     bindD (liftD ZlcBinary (get_u8 d)) (\<lambda>chunk_type.
     bindD (liftD ZlcBinary (rewind d 1)) (\<lambda>_.
     if chunk_type = CHUNK_TYPE_DATA then bindD (zap_leaf_chunk_data_from_decoder d) (\<lambda>c. returnD (ZlcArray c))
     else if chunk_type = CHUNK_TYPE_ENTRY then bindD (zap_leaf_chunk_entry_from_decoder d) (\<lambda>c. returnD (ZlcEntry c))
     else if chunk_type = CHUNK_TYPE_FREE then bindD (zap_leaf_chunk_free_from_decoder d) (\<lambda>c. returnD (ZlcFree c))
     else failD (ZlcChunkType chunk_type)))"

definition zap_leaf_chunk_to_encoder :: "binary_encoder \<Rightarrow> zap_leaf_chunk \<Rightarrow> unit enc" where
  "zap_leaf_chunk_to_encoder e c = (case c of
       ZlcArray c \<Rightarrow> zap_leaf_chunk_data_to_encoder e c
     | ZlcEntry c \<Rightarrow> zap_leaf_chunk_entry_to_encoder e c
     | ZlcFree c \<Rightarrow> zap_leaf_chunk_free_to_encoder e c)"

section \<open>Safety\<close>

lemma slice_prefix_not_Panic: "n \<le> length xs \<Longrightarrow> slice xs 0 n \<noteq> Panic"
  by (simp add: slice_def slice_get_def)

context decoder_contract
begin

lemma zap_micro_header_safe: "safe_dec (zap_micro_header_from_decoder d)"
  unfolding zap_micro_header_from_decoder_def by (intro dec_safe methods) simp_all

lemma zap_micro_iterator_safe: "safe_dec (zap_micro_iterator_from_decoder d)"
  unfolding zap_micro_iterator_from_decoder_def by (intro dec_safe methods zap_micro_header_safe)

lemma zap_micro_entry_ref_safe: "safe_dec (zap_micro_entry_ref_from_decoder d)"
  unfolding zap_micro_entry_ref_from_decoder_def Let_def
  by (intro dec_safe methods slice_prefix_not_Panic) (simp_all add: from_utf8_not_Panic length_takeWhile_le)

lemma zap_mega_header_safe: "safe_dec (zap_mega_header_from_decoder d)"
  unfolding zap_mega_header_from_decoder_def zap_mega_pointer_table_from_decoder_def by (intro dec_safe methods) simp_all

lemma zap_header_safe: "safe_dec (zap_header_from_decoder d)"
  unfolding zap_header_from_decoder_def by (intro dec_safe methods zap_mega_header_safe zap_micro_header_safe)

lemma zap_leaf_header_safe: "safe_dec (zap_leaf_header_from_decoder d)"
  unfolding zap_leaf_header_from_decoder_def by (intro dec_safe methods)

lemma zap_leaf_chunks_safe:
  "safe_dec (zap_leaf_chunk_data_from_decoder d)" "safe_dec (zap_leaf_chunk_entry_from_decoder d)"
  "safe_dec (zap_leaf_chunk_free_from_decoder d)"
  unfolding zap_leaf_chunk_data_from_decoder_def zap_leaf_chunk_entry_from_decoder_def zap_leaf_chunk_free_from_decoder_def
  by (intro dec_safe methods)+

lemma zap_leaf_chunk_safe: "safe_dec (zap_leaf_chunk_from_decoder d)"
  unfolding zap_leaf_chunk_from_decoder_def by (intro dec_safe methods zap_leaf_chunks_safe)

end

end
