(* ===== verification/Walk.thy ===== *)
theory Walk
  imports File_Read Object_Set Zap Decode_Progress
begin

text \<open>
  \<open>walk.rs\<close>: object sets, the dnodes in them, and the entries of ZAP objects. Names are the bytes of
  UTF-8 strings.
\<close>

text \<open>\<open>uN::from_be_bytes\<close> or \<open>uN::from_le_bytes\<close>, by byte order.\<close>

definition order_word :: "endian_order \<Rightarrow> bytes \<Rightarrow> 'a::len word" where
  "order_word order bs = (case order of Big \<Rightarrow> be_word bs | Little \<Rightarrow> le_word bs)"

section \<open>Object sets and dnodes\<close>

definition DNODE_SIZE :: nat where "DNODE_SIZE = 512"
definition DNODE_MAX_SLOTS :: nat where "DNODE_MAX_SLOTS = 32"
definition DNODE_HEADER_SIZE :: nat where "DNODE_HEADER_SIZE = 64"
definition WALK_BLKPTR_SIZE :: nat where "WALK_BLKPTR_SIZE = 128"
definition DN_NBLKPTR :: nat where "DN_NBLKPTR = 3"
definition DN_FLAGS :: nat where "DN_FLAGS = 7"
definition DN_BONUSLEN :: nat where "DN_BONUSLEN = 10"
definition DN_EXTRA_SLOTS :: nat where "DN_EXTRA_SLOTS = 12"
definition DNODE_FLAG_SPILL_BLKPTR :: u8 where "DNODE_FLAG_SPILL_BLKPTR = 4"

record object_dnode =
  od_dnode :: dnode
  od_bonus :: bytes

definition read_objset :: "'r env \<Rightarrow> topology \<Rightarrow> block_pointer \<Rightarrow> endian_order \<Rightarrow> ('r, object_set) zio" where
  "read_objset E topo bp order =
     bindZ (read_block_pointer E topo bp) (\<lambda>bytes.
     liftZ (map_err (\<lambda>_. Inconsistent ''objset_decode'' Loc_Mos) (with_decoder bytes order object_set_from_decoder)))"

definition decode_dnode :: "bytes \<Rightarrow> u64 \<Rightarrow> endian_order \<Rightarrow> (error, dnode) result" where
  "decode_dnode buf objnum order =
     and_then (map_err (\<lambda>_. Inconsistent ''dnode_decode'' (Loc_Dnode objnum)) (with_decoder buf order dnode_from_decoder))
       (\<lambda>dn. ok_or (Inconsistent ''dnode_empty'' (Loc_Dnode objnum)) dn)"

text \<open>A dnode of one slot: its bonus buffer is part of the decoded dnode.\<close>

definition small_object :: "bytes \<Rightarrow> u64 \<Rightarrow> endian_order \<Rightarrow> (error, object_dnode) result" where
  "small_object first objnum order =
     and_then (decode_dnode first objnum order) (\<lambda>dn.
     and_then (bonus_used dn) (\<lambda>bonus. Ok \<lparr>od_dnode = dn, od_bonus = bonus\<rparr>))"

text \<open>
  A dnode of several slots: the bonus buffer extends past the first slot, so the first slot is
  decoded with an empty bonus buffer and without its spill pointer.
\<close>

definition large_object :: "bytes \<Rightarrow> nat \<Rightarrow> u64 \<Rightarrow> endian_order \<Rightarrow> (error, object_dnode) result" where
  "large_object full dn_size objnum order =
     and_then (index full DN_NBLKPTR) (\<lambda>nblkptr.
     and_then (index full DN_FLAGS) (\<lambda>flags.
     and_then (slice full DN_BONUSLEN (DN_BONUSLEN + 2)) (\<lambda>len_bytes.
     let spill = (flags AND DNODE_FLAG_SPILL_BLKPTR \<noteq> 0);
         bonus_len = unat (order_word order len_bytes :: u16);
         bonus_start = DNODE_HEADER_SIZE + unat nblkptr * WALK_BLKPTR_SIZE;
         bonus_room = dn_size - (if spill then WALK_BLKPTR_SIZE else 0) in
     if bonus_start > DNODE_SIZE \<or> bonus_start + bonus_len > bonus_room
     then Err (Inconsistent ''dnode_bonus_len'' (Loc_Dnode objnum))
     else
       and_then (slice full 0 bonus_start) (\<lambda>head.
       let slot0 = overwrite (replicate DNODE_SIZE 0) 0 head;
           slot0 = slot0[DN_FLAGS := slot0 ! DN_FLAGS AND NOT DNODE_FLAG_SPILL_BLKPTR];
           slot0 = slot0[DN_BONUSLEN := 0, DN_BONUSLEN + 1 := 0] in
       and_then (decode_dnode slot0 objnum order) (\<lambda>dn.
       and_then (slice full bonus_start (bonus_start + bonus_len)) (\<lambda>bonus.
       Ok \<lparr>od_dnode = dn, od_bonus = bonus\<rparr>))))))"

definition read_object ::
  "'r env \<Rightarrow> topology \<Rightarrow> dnode \<Rightarrow> u64 \<Rightarrow> endian_order \<Rightarrow> ('r, object_dnode) zio" where
  "read_object E topo dnode_array objnum order =
     (case checked_mul objnum (of_nat DNODE_SIZE) of
        None \<Rightarrow> failZ (Inconsistent ''dnode_obj_overflow'' (Loc_Dnode objnum))
      | Some byte_off \<Rightarrow> (
          bindZ (read_dnode_range E topo dnode_array byte_off DNODE_SIZE order) (\<lambda>first.
          bindZ (liftZ (index first DN_EXTRA_SLOTS)) (\<lambda>extra_slots.
          if extra_slots = 0 then liftZ (small_object first objnum order)
          else
            let slots = unat extra_slots + 1;
                block_slots = data_block_size dnode_array div DNODE_SIZE in
            if slots > DNODE_MAX_SLOTS \<or> block_slots = 0 \<or> unat objnum mod block_slots + slots > block_slots
            then failZ (Inconsistent ''dnode_slots'' (Loc_Dnode objnum))
            else
              let dn_size = slots * DNODE_SIZE in
              bindZ (read_dnode_range E topo dnode_array byte_off dn_size order) (\<lambda>full.
              liftZ (large_object full dn_size objnum order))))))"

definition read_object_dnode ::
  "'r env \<Rightarrow> topology \<Rightarrow> dnode \<Rightarrow> u64 \<Rightarrow> endian_order \<Rightarrow> ('r, dnode) zio" where
  "read_object_dnode E topo dnode_array objnum order =
     bindZ (read_object E topo dnode_array objnum order) (\<lambda>object.
     returnZ (od_dnode object))"

section \<open>ZAP entries\<close>

definition ZAP_MICRO :: u64 where "ZAP_MICRO = 0x8000000000000003"
definition ZAP_FAT_HEADER :: u64 where "ZAP_FAT_HEADER = 0x8000000000000001"
definition ZAP_LEAF_HEADER_SIZE :: nat where "ZAP_LEAF_HEADER_SIZE = 48"
definition MAX_ZAP_LEAF_BLOCKS :: nat where "MAX_ZAP_LEAF_BLOCKS = 2 ^ 20"

abbreviation zap_error :: "string \<Rightarrow> error" where
  "zap_error token \<equiv> Inconsistent token (Loc_Zap 0)"

definition block_type :: "bytes \<Rightarrow> endian_order \<Rightarrow> (error, u64) result" where
  "block_type block order = and_then (slice block 0 8) (\<lambda>b. Ok (order_word order b))"

text \<open>The loop over the iterator of a micro ZAP.\<close>

lemma bindD_Ok: "bindD m f b = Ok (y, b') \<Longrightarrow> \<exists>x b1. m b = Ok (x, b1) \<and> f x b1 = Ok (y, b')"
  by (auto simp: bindD_def and_then_Ok_iff)

lemma zap_micro_entry_ref_moves:
  assumes "zap_micro_entry_ref_from_decoder (endian_decoder ord) b = Ok (Some e, b')" "\<not> buf_is_empty b"
  shows "buf_len b' < buf_len b"
proof -
  let ?fields = "\<lambda>value. bindD (liftD ZmeBinary (get_u32 (endian_decoder ord))) (\<lambda>cd.
    bindD (liftD ZmeBinary (skip_zeros (endian_decoder ord) 2)) (\<lambda>_.
    bindD (liftD ZmeBinary (get_bytes_n (endian_decoder ord) (ZAP_NAME_MAX + 1))) (\<lambda>name.
    if 0 \<notin> set name then failD ZmeNameNotNullTerminated
    else bindD (resultD (slice name 0 (length (takeWhile (\<lambda>b. b \<noteq> 0) name)))) (\<lambda>name.
      bindD (liftD ZmeInvalidStr (resultD (from_utf8 name))) (\<lambda>name.
      returnD (Some \<lparr>zme_cd = cd, zme_name = name, zme_value = value\<rparr>))))))"
  let ?rest = "bindD (liftD ZmeBinary (get_u64 (endian_decoder ord))) ?fields"
  have fields: "moves (?fields w) 0" for w
    unfolding endian_methods
    by (intro moves_bind_rest moves_if moves_fail moves_lift moves_result moves_return moves_any_0[OF endian_moves(3)]
        moves_any_0[OF moves_buf_zeros(1)] moves_any_0[OF moves_buf_get_bytes])
  have rest: "moves ?rest 8"
    by (rule moves_bind_first[OF moves_lift[OF endian_moves(4)] fields])
  have skip: "moves (is_skip_zeros (endian_decoder ord) 64) 0"
    by (simp add: moves_buf_zeros)
  obtain z b1 where z: "liftD ZmeBinary (is_skip_zeros (endian_decoder ord) 64) b = Ok (z, b1)"
    and cont: "(if z then returnD None else ?rest) b1 = Ok (Some e, b')"
    using bindD_Ok[OF assms(1)[unfolded zap_micro_entry_ref_from_decoder_def Let_def]] by blast
  then have "?rest b1 = Ok (Some e, b')"
    by (cases z) (simp_all add: returnD_def)
  from movesD[OF rest this] movesD[OF moves_lift[OF skip] z] assms(2) show ?thesis
    unfolding buf_len_def buf_is_empty_def by linarith
qed

lemma zap_micro_next_eqs:
  "buf_is_empty b \<Longrightarrow> zap_micro_next ord b = (None, b)"
  "\<not> buf_is_empty b \<Longrightarrow> zap_micro_entry_ref_from_decoder (endian_decoder ord) b = Ok (Some e, b') \<Longrightarrow>
     zap_micro_next ord b = (Some (Ok e), b')"
  "\<not> buf_is_empty b \<Longrightarrow> zap_micro_entry_ref_from_decoder (endian_decoder ord) b = Ok (None, b') \<Longrightarrow>
     zap_micro_next ord b = zap_micro_next ord b'"
  "\<not> buf_is_empty b \<Longrightarrow> zap_micro_entry_ref_from_decoder (endian_decoder ord) b = Err err \<Longrightarrow>
     zap_micro_next ord b = (Some (Err err), b)"
  "\<not> buf_is_empty b \<Longrightarrow> zap_micro_entry_ref_from_decoder (endian_decoder ord) b = Panic \<Longrightarrow>
     zap_micro_next ord b = (Some Panic, b)"
  by (subst zap_micro_next.simps, simp)+

lemma zap_micro_next_cases:
  obtains "buf_is_empty b"
  | e b' where "\<not> buf_is_empty b" "zap_micro_entry_ref_from_decoder (endian_decoder ord) b = Ok (Some e, b')"
  | b' where "\<not> buf_is_empty b" "zap_micro_entry_ref_from_decoder (endian_decoder ord) b = Ok (None, b')"
  | err where "\<not> buf_is_empty b" "zap_micro_entry_ref_from_decoder (endian_decoder ord) b = Err err"
  | "\<not> buf_is_empty b" "zap_micro_entry_ref_from_decoder (endian_decoder ord) b = Panic"
  by (metis option.exhaust result.exhaust surj_pair)

lemma zap_micro_next_moves:
  "zap_micro_next ord b = (Some (Ok e), b') \<Longrightarrow> buf_len b' < buf_len b"
proof (induction "buf_len b" arbitrary: b rule: less_induct)
  case less
  show ?case
  proof (cases rule: zap_micro_next_cases[where b = b and ord = ord])
    case (2 m b1)
    then show ?thesis
      using less.prems zap_micro_entry_ref_moves[OF 2(2,1)] by (simp add: zap_micro_next_eqs(2))
  next
    case (3 b1)
    have "buf_len b1 < buf_len b"
      by (rule zap_micro_entry_ref_None[OF 3(2,1)])
    with less.hyps[OF this] less.prems show ?thesis
      using zap_micro_next_eqs(3)[OF 3] by simp
  qed (use less.prems in \<open>simp_all add: zap_micro_next_eqs(1,4,5)\<close>)
qed

type_synonym zap_list = "(bytes \<times> u64) list"

function micro_loop :: "endian_order \<Rightarrow> buffer \<Rightarrow> zap_list \<Rightarrow> (error, zap_list) result" where
  "micro_loop order b out =
     (case zap_micro_next order b of
        (None, _) \<Rightarrow> Ok out
      | (Some entry, b') \<Rightarrow>
          (case entry of
             Ok entry \<Rightarrow> micro_loop order b' (out @ [(zme_name entry, zme_value entry)])
           | Err _ \<Rightarrow> Err (zap_error ''zap_entry'')
           | Panic \<Rightarrow> Panic))"
  by pat_completeness auto
termination
  by (relation "measure (\<lambda>(order, b, out). buf_len b)") (auto dest: zap_micro_next_moves[OF sym])

declare micro_loop.simps [simp del]

definition micro_entries :: "bytes \<Rightarrow> endian_order \<Rightarrow> (error, zap_list) result" where
  "micro_entries block order =
     and_then (map_err (\<lambda>_. zap_error ''zap_micro'')
       (zap_micro_iterator_from_decoder (endian_decoder order) (buf_from_bytes block))) (\<lambda>(_, b).
     micro_loop order b [])"

text \<open>
  The chunks of a leaf: an array of bytes is a list of chunks linked by their numbers. The number of
  steps is bounded by the number of chunks, so a cycle is an error.
\<close>

function collect_chunks_loop ::
  "bytes \<Rightarrow> nat \<Rightarrow> nat \<Rightarrow> nat \<Rightarrow> endian_order \<Rightarrow> u16 option \<Rightarrow> nat \<Rightarrow> bytes \<Rightarrow> (error, bytes) result" where
  "collect_chunks_loop block chunk_base nchunks len order next guard out =
     (if length out < len then
        case next of
          None \<Rightarrow> Ok out
        | Some idx \<Rightarrow>
            if unat idx \<ge> nchunks \<or> guard > nchunks then Err (zap_error ''zap_array_chunk'')
            else
              let off = chunk_base + unat idx * ZAP_LEAF_CHUNK_SIZE in
              and_then (ok_or (zap_error ''zap_array_chunk'') (slice_get block off (off + ZAP_LEAF_CHUNK_SIZE))) (\<lambda>chunk.
              and_then (map_err (\<lambda>_. zap_error ''zap_array_chunk'')
                (with_decoder chunk order zap_leaf_chunk_data_from_decoder)) (\<lambda>data.
              and_then (slice (zld_data data) 0 (min (len - length out) ZAP_LEAF_DATA_SIZE)) (\<lambda>src.
              collect_chunks_loop block chunk_base nchunks len order (zld_next data) (guard + 1) (out @ src))))
      else Ok out)"
  by pat_completeness auto
termination
  by (relation "measure (\<lambda>(block, chunk_base, nchunks, len, order, next, guard, out). Suc nchunks - guard)") auto

declare collect_chunks_loop.simps [simp del]

definition collect_chunks :: "bytes \<Rightarrow> nat \<Rightarrow> nat \<Rightarrow> u16 \<Rightarrow> nat \<Rightarrow> endian_order \<Rightarrow> (error, bytes) result" where
  "collect_chunks block chunk_base nchunks start len order =
     collect_chunks_loop block chunk_base nchunks len order (Some start) 0 []"

type_synonym zap_raw_list = "(bytes \<times> bytes) list"

definition leaf_entry ::
  "bytes \<Rightarrow> nat \<Rightarrow> nat \<Rightarrow> endian_order \<Rightarrow> bytes \<Rightarrow> (error, bytes \<times> bytes) result" where
  "leaf_entry block chunk_base nchunks order chunk =
     and_then (map_err (\<lambda>_. zap_error ''zap_leaf_chunk'') (with_decoder chunk order zap_leaf_chunk_entry_from_decoder)) (\<lambda>entry.
     and_then (collect_chunks block chunk_base nchunks (zle_name_chunk entry) (unat (zle_name_length entry)) order) (\<lambda>name_bytes.
     let name = from_utf8_lossy (takeWhile (\<lambda>b. b \<noteq> 0) name_bytes);
         value_len = unat (zle_value_int_size entry) * unat (zle_value_length entry) in
     and_then (collect_chunks block chunk_base nchunks (zle_value_chunk entry) value_len order) (\<lambda>value_bytes.
     Ok (name, value_bytes))))"

fun collect_leaf_loop ::
  "bytes \<Rightarrow> nat \<Rightarrow> nat \<Rightarrow> endian_order \<Rightarrow> nat list \<Rightarrow> zap_raw_list \<Rightarrow> (error, zap_raw_list) result" where
  "collect_leaf_loop block chunk_base nchunks order [] out = Ok out"
| "collect_leaf_loop block chunk_base nchunks order (ci # cis) out =
     (let off = chunk_base + ci * ZAP_LEAF_CHUNK_SIZE in
      and_then (ok_or (zap_error ''zap_leaf_chunk'') (slice_get block off (off + ZAP_LEAF_CHUNK_SIZE))) (\<lambda>chunk.
      and_then (index chunk 0) (\<lambda>chunk_type.
      if chunk_type \<noteq> CHUNK_TYPE_ENTRY then collect_leaf_loop block chunk_base nchunks order cis out
      else
        and_then (leaf_entry block chunk_base nchunks order chunk) (\<lambda>entry.
        collect_leaf_loop block chunk_base nchunks order cis (out @ [entry])))))"

definition collect_leaf ::
  "bytes \<Rightarrow> nat \<Rightarrow> nat \<Rightarrow> endian_order \<Rightarrow> zap_raw_list \<Rightarrow> (error, zap_raw_list) result" where
  "collect_leaf block chunk_base nchunks order out =
     collect_leaf_loop block chunk_base nchunks order [0..<nchunks] out"

fun trailing_zeros :: "nat \<Rightarrow> nat" where
  "trailing_zeros n = (if n = 0 then 64 else if odd n then 0 else Suc (trailing_zeros (n div 2)))"

declare trailing_zeros.simps [simp del]

function fat_loop ::
  "'r env \<Rightarrow> topology \<Rightarrow> dnode \<Rightarrow> endian_order \<Rightarrow> nat \<Rightarrow> nat \<Rightarrow> nat \<Rightarrow> zap_raw_list \<Rightarrow> ('r, zap_raw_list) zio" where
  "fat_loop E topo zap_dnode order chunk_base nchunks blkid out =
     (if blkid < MAX_ZAP_LEAF_BLOCKS then
        bindZ (read_dnode_block E topo zap_dnode (of_nat blkid) order) (\<lambda>block.
        case block of
          None \<Rightarrow> returnZ out
        | Some block \<Rightarrow>
            bindZ (liftZ (if length block \<ge> 8 then
                and_then (block_type block order) (\<lambda>bt.
                if bt = ZAP_LEAF_BLOCK_TYPE then collect_leaf block chunk_base nchunks order out else Ok out)
              else Ok out)) (\<lambda>out.
            fat_loop E topo zap_dnode order chunk_base nchunks (blkid + 1) out))
      else returnZ out)"
  by pat_completeness auto
termination
  by (relation "measure (\<lambda>(E, topo, zap_dnode, order, chunk_base, nchunks, blkid, out). MAX_ZAP_LEAF_BLOCKS - blkid)") auto

declare fat_loop.simps [simp del]

definition fat_entries_raw ::
  "'r env \<Rightarrow> topology \<Rightarrow> dnode \<Rightarrow> nat \<Rightarrow> endian_order \<Rightarrow> ('r, zap_raw_list) zio" where
  "fat_entries_raw E topo zap_dnode dbsz order =
     (let block_shift = trailing_zeros dbsz;
          hash_entries = 2 ^ (block_shift - 5);
          chunk_base = ZAP_LEAF_HEADER_SIZE + hash_entries * 2 in
      if chunk_base \<ge> dbsz then failZ (zap_error ''zap_leaf_geom'')
      else fat_loop E topo zap_dnode order chunk_base ((dbsz - chunk_base) div ZAP_LEAF_CHUNK_SIZE) 1 [])"

definition value_as_u64 :: "bytes \<Rightarrow> u64" where
  "value_as_u64 value =
     (let n = min (length value) 8 in
      be_word (overwrite (replicate 8 0) (8 - n) (drop (length value - n) value)))"

definition fat_entries :: "'r env \<Rightarrow> topology \<Rightarrow> dnode \<Rightarrow> nat \<Rightarrow> endian_order \<Rightarrow> ('r, zap_list) zio" where
  "fat_entries E topo zap_dnode dbsz order =
     bindZ (fat_entries_raw E topo zap_dnode dbsz order) (\<lambda>entries.
     returnZ (map (\<lambda>(name, value). (name, value_as_u64 value)) entries))"

definition zap_entries :: "'r env \<Rightarrow> topology \<Rightarrow> dnode \<Rightarrow> endian_order \<Rightarrow> ('r, zap_list) zio" where
  "zap_entries E topo zap_dnode order =
     (let dbsz = data_block_size zap_dnode in
      if dbsz = 0 then failZ (zap_error ''zap_dbsz0'')
      else (
        bindZ (read_dnode_block E topo zap_dnode 0 order) (\<lambda>block0.
        bindZ (liftZ (ok_or (zap_error ''zap_empty'') block0)) (\<lambda>block0.
        bindZ (liftZ (block_type block0 order)) (\<lambda>bt.
        if bt = ZAP_MICRO then liftZ (micro_entries block0 order)
        else if bt = ZAP_FAT_HEADER then fat_entries E topo zap_dnode dbsz order
        else failZ (zap_error ''zap_bad_type''))))))"

text \<open>\<open>iter().find(|(n, _)| n == name).map(|(_, v)| v)\<close>.\<close>

definition find_entry :: "bytes \<Rightarrow> (bytes \<times> 'v) list \<Rightarrow> 'v option" where
  "find_entry name entries = map_option snd (find (\<lambda>(n, _). n = name) entries)"

definition zap_lookup :: "'r env \<Rightarrow> topology \<Rightarrow> dnode \<Rightarrow> bytes \<Rightarrow> endian_order \<Rightarrow> ('r, u64 option) zio" where
  "zap_lookup E topo zap_dnode name order =
     bindZ (zap_entries E topo zap_dnode order) (\<lambda>entries.
     returnZ (find_entry name entries))"

definition zap_lookup_bytes :: "'r env \<Rightarrow> topology \<Rightarrow> dnode \<Rightarrow> bytes \<Rightarrow> endian_order \<Rightarrow> ('r, bytes option) zio" where
  "zap_lookup_bytes E topo zap_dnode name order =
     (let dbsz = data_block_size zap_dnode in
      (
      bindZ (read_dnode_block E topo zap_dnode 0 order) (\<lambda>block0.
      bindZ (liftZ (ok_or (zap_error ''zap_empty'') block0)) (\<lambda>block0.
      bindZ ((if dbsz \<noteq> 0 then bindZ (liftZ (block_type block0 order)) (\<lambda>bt. returnZ (bt = ZAP_FAT_HEADER)) else returnZ False)) (\<lambda>fat.
      if fat then
        bindZ (fat_entries_raw E topo zap_dnode dbsz order) (\<lambda>entries. returnZ (find_entry name entries))
      else
        bindZ (zap_lookup E topo zap_dnode name order) (\<lambda>v. returnZ (map_option (be_bytes 8) v)))))))"

end
