(* ===== verification/Dsl.thy ===== *)
theory Dsl
  imports Block_Pointer Decode_Props
begin

text \<open>
  \<open>phys/dsl.rs\<close>: the directories and data sets of the dataset and snapshot layer, which are stored
  in the bonus buffers of their dnodes.
\<close>

text \<open>An object number, where zero stands for none, and \<open>unwrap_or(0)\<close>, its inverse.\<close>

definition some_nonzero :: "u64 \<Rightarrow> u64 option" where
  "some_nonzero v = (if v = 0 then None else Some v)"

definition unwrap_or_0 :: "u64 option \<Rightarrow> u64" where
  "unwrap_or_0 v = (case v of None \<Rightarrow> 0 | Some v \<Rightarrow> v)"

lemma some_nonzero_unwrap: "v \<noteq> Some 0 \<Longrightarrow> some_nonzero (unwrap_or_0 v) = v"
  by (auto simp: some_nonzero_def unwrap_or_0_def split: option.split)

section \<open>Directories\<close>

record dsl_used_breakdown =
  ub_head :: u64
  ub_snapshot :: u64
  ub_child :: u64
  ub_child_reserved :: u64
  ub_referenced_reservation :: u64

record dsl_directory =
  dd_creation_time :: u64
  dd_head_dataset_obj :: "u64 option"
  dd_parent_directory_obj :: "u64 option"
  dd_origin_dataset_obj :: "u64 option"
  dd_child_directory_zap_obj :: u64
  dd_used_bytes :: u64
  dd_compressed_bytes :: u64
  dd_uncompressed_bytes :: u64
  dd_quota :: u64
  dd_reserved :: u64
  dd_properties_zap_obj :: u64
  dd_delegation_zap_obj :: "u64 option"
  dd_used_breakdown :: "dsl_used_breakdown option"
  dd_clones :: u64

datatype dsl_directory_decode_error =
    DdBinary binary_decode_error
  | DdFlags u64
  | DdMissingChildDirectory
  | DdMissingProperties

datatype dsl_directory_encode_error =
    DdEncBinary binary_encode_error
  | DdEncMissingChildDirectory
  | DdEncMissingProperties

definition FLAG_USED_BREAKDOWN :: u64 where "FLAG_USED_BREAKDOWN = 1"

definition dsl_used_breakdown_from_decoder ::
  "binary_decoder \<Rightarrow> u64 \<Rightarrow> (buffer, dsl_directory_decode_error, dsl_used_breakdown option) step" where
  "dsl_used_breakdown_from_decoder d flags =
     (if flags AND FLAG_USED_BREAKDOWN = 0 then (
        bindD (liftD DdBinary (skip_zeros d 40)) (\<lambda>_.
        returnD None))
      else (
        bindD (liftD DdBinary (get_u64 d)) (\<lambda>head.
        bindD (liftD DdBinary (get_u64 d)) (\<lambda>snapshot.
        bindD (liftD DdBinary (get_u64 d)) (\<lambda>child.
        bindD (liftD DdBinary (get_u64 d)) (\<lambda>child_reserved.
        bindD (liftD DdBinary (get_u64 d)) (\<lambda>referenced_reservation.
        returnD (Some \<lparr>ub_head = head, ub_snapshot = snapshot, ub_child = child, ub_child_reserved = child_reserved,
          ub_referenced_reservation = referenced_reservation\<rparr>))))))))"

definition dsl_directory_from_decoder :: "binary_decoder \<Rightarrow> (buffer, dsl_directory_decode_error, dsl_directory) step" where
  "dsl_directory_from_decoder d =
     bindD (liftD DdBinary (get_u64 d)) (\<lambda>creation_time.
     bindD (liftD DdBinary (get_u64 d)) (\<lambda>head_dataset_obj.
     bindD (liftD DdBinary (get_u64 d)) (\<lambda>parent_directory_obj.
     bindD (liftD DdBinary (get_u64 d)) (\<lambda>origin_dataset_obj.
     bindD (liftD DdBinary (get_u64 d)) (\<lambda>child_directory_zap_obj.
     if child_directory_zap_obj = 0 then failD DdMissingChildDirectory
     else
       bindD (liftD DdBinary (get_u64 d)) (\<lambda>used_bytes.
       bindD (liftD DdBinary (get_u64 d)) (\<lambda>compressed_bytes.
       bindD (liftD DdBinary (get_u64 d)) (\<lambda>uncompressed_bytes.
       bindD (liftD DdBinary (get_u64 d)) (\<lambda>quota.
       bindD (liftD DdBinary (get_u64 d)) (\<lambda>reserved.
       bindD (liftD DdBinary (get_u64 d)) (\<lambda>properties_zap_obj.
       if properties_zap_obj = 0 then failD DdMissingProperties
       else
         bindD (liftD DdBinary (get_u64 d)) (\<lambda>delegation_zap_obj.
         bindD (liftD DdBinary (get_u64 d)) (\<lambda>flags.
         if flags AND FLAG_USED_BREAKDOWN \<noteq> flags then failD (DdFlags flags)
         else
           bindD (dsl_used_breakdown_from_decoder d flags) (\<lambda>used_breakdown.
           bindD (liftD DdBinary (get_u64 d)) (\<lambda>clones.
           bindD (liftD DdBinary (skip_zeros d 104)) (\<lambda>_.
           returnD \<lparr>
             dd_creation_time = creation_time,
             dd_head_dataset_obj = some_nonzero head_dataset_obj,
             dd_parent_directory_obj = some_nonzero parent_directory_obj,
             dd_origin_dataset_obj = some_nonzero origin_dataset_obj,
             dd_child_directory_zap_obj = child_directory_zap_obj,
             dd_used_bytes = used_bytes,
             dd_compressed_bytes = compressed_bytes,
             dd_uncompressed_bytes = uncompressed_bytes,
             dd_quota = quota,
             dd_reserved = reserved,
             dd_properties_zap_obj = properties_zap_obj,
             dd_delegation_zap_obj = some_nonzero delegation_zap_obj,
             dd_used_breakdown = used_breakdown,
             dd_clones = clones\<rparr>))))))))))))))))"

definition dsl_used_breakdown_to_encoder ::
  "binary_encoder \<Rightarrow> dsl_used_breakdown option \<Rightarrow> (enc_buffer, dsl_directory_encode_error, unit) step" where
  "dsl_used_breakdown_to_encoder e u = (case u of
       Some u \<Rightarrow> (
         bindD (liftD DdEncBinary (put_u64 e (ub_head u))) (\<lambda>_.
         bindD (liftD DdEncBinary (put_u64 e (ub_snapshot u))) (\<lambda>_.
         bindD (liftD DdEncBinary (put_u64 e (ub_child u))) (\<lambda>_.
         bindD (liftD DdEncBinary (put_u64 e (ub_child_reserved u))) (\<lambda>_.
         liftD DdEncBinary (put_u64 e (ub_referenced_reservation u)))))))
     | None \<Rightarrow> liftD DdEncBinary (put_zeros e 40))"

definition dsl_directory_to_encoder ::
  "binary_encoder \<Rightarrow> dsl_directory \<Rightarrow> (enc_buffer, dsl_directory_encode_error, unit) step" where
  "dsl_directory_to_encoder e dd =
     bindD (liftD DdEncBinary (put_u64 e (dd_creation_time dd))) (\<lambda>_.
     bindD (liftD DdEncBinary (put_u64 e (unwrap_or_0 (dd_head_dataset_obj dd)))) (\<lambda>_.
     bindD (liftD DdEncBinary (put_u64 e (unwrap_or_0 (dd_parent_directory_obj dd)))) (\<lambda>_.
     bindD (liftD DdEncBinary (put_u64 e (unwrap_or_0 (dd_origin_dataset_obj dd)))) (\<lambda>_.
     if dd_child_directory_zap_obj dd = 0 then failD DdEncMissingChildDirectory
     else
       bindD (liftD DdEncBinary (put_u64 e (dd_child_directory_zap_obj dd))) (\<lambda>_.
       bindD (liftD DdEncBinary (put_u64 e (dd_used_bytes dd))) (\<lambda>_.
       bindD (liftD DdEncBinary (put_u64 e (dd_compressed_bytes dd))) (\<lambda>_.
       bindD (liftD DdEncBinary (put_u64 e (dd_uncompressed_bytes dd))) (\<lambda>_.
       bindD (liftD DdEncBinary (put_u64 e (dd_quota dd))) (\<lambda>_.
       bindD (liftD DdEncBinary (put_u64 e (dd_reserved dd))) (\<lambda>_.
       bindD (liftD DdEncBinary (put_u64 e (dd_properties_zap_obj dd))) (\<lambda>_.
       if dd_properties_zap_obj dd = 0 then failD DdEncMissingProperties
       else
         bindD (liftD DdEncBinary (put_u64 e (unwrap_or_0 (dd_delegation_zap_obj dd)))) (\<lambda>_.
         bindD (liftD DdEncBinary (put_u64 e (if dd_used_breakdown dd = None then 0 else FLAG_USED_BREAKDOWN))) (\<lambda>_.
         bindD (dsl_used_breakdown_to_encoder e (dd_used_breakdown dd)) (\<lambda>_.
         liftD DdEncBinary (put_zeros e 104)))))))))))))))"

section \<open>Data sets\<close>

record dsl_dataset =
  ds_dir_obj :: u64
  ds_prev_snapshot_obj :: "u64 option"
  ds_prev_snapshot_txg :: "u64 option"
  ds_next_snapshot_obj :: "u64 option"
  ds_snapshot_names_zap_obj :: "u64 option"
  ds_num_children :: u64
  ds_creation_time :: u64
  ds_creation_txg :: u64
  ds_deadlist_obj :: u64
  ds_referenced_bytes :: u64
  ds_compressed_bytes :: u64
  ds_uncompressed_bytes :: u64
  ds_unique_bytes :: u64
  ds_fsid_guid :: u64
  ds_guid :: u64
  ds_flags :: u64
  ds_block_pointer :: "block_pointer option"
  ds_next_clones_obj :: u64
  ds_snapshot_props_obj :: "u64 option"
  ds_user_refs_obj :: u64

datatype dsl_dataset_decode_error =
    DsBinary binary_decode_error
  | DsBlockPointer bp_decode_error
  | DsFlags u64
  | DsMissingDirectory
  | DsPreviousSnapshot u64 u64

datatype dsl_dataset_encode_error =
    DsEncBinary binary_encode_error
  | DsEncBlockPointer bp_encode_error
  | DsEncMissingDirectory
  | DsEncPreviousSnapshot u64 u64

definition DS_FLAG_INCONSISTENT :: u64 where "DS_FLAG_INCONSISTENT = 1"
definition DS_FLAG_NO_PROMOTE :: u64 where "DS_FLAG_NO_PROMOTE = 2"
definition DS_FLAG_UNIQUE_ACCURATE :: u64 where "DS_FLAG_UNIQUE_ACCURATE = 4"
definition DS_FLAG_DEFER_DESTROY :: u64 where "DS_FLAG_DEFER_DESTROY = 8"
definition DS_FLAG_CASE_INSENSITIVE_FS :: u64 where "DS_FLAG_CASE_INSENSITIVE_FS = push_bit 16 1"
definition DS_FLAG_NO_DIRTY :: u64 where "DS_FLAG_NO_DIRTY = push_bit 24 1"
definition DS_FLAG_ALL :: u64 where
  "DS_FLAG_ALL = DS_FLAG_INCONSISTENT OR DS_FLAG_NO_PROMOTE OR DS_FLAG_UNIQUE_ACCURATE OR DS_FLAG_DEFER_DESTROY
     OR DS_FLAG_CASE_INSENSITIVE_FS OR DS_FLAG_NO_DIRTY"

definition dsl_dataset_from_decoder :: "binary_decoder \<Rightarrow> (buffer, dsl_dataset_decode_error, dsl_dataset) step" where
  "dsl_dataset_from_decoder d =
     bindD (liftD DsBinary (get_u64 d)) (\<lambda>dir_obj.
     if dir_obj = 0 then failD DsMissingDirectory
     else
       bindD (liftD DsBinary (get_u64 d)) (\<lambda>prev_snapshot_obj.
       bindD (liftD DsBinary (get_u64 d)) (\<lambda>prev_snapshot_txg.
       if (prev_snapshot_obj = 0) \<noteq> (prev_snapshot_txg = 0)
       then failD (DsPreviousSnapshot prev_snapshot_obj prev_snapshot_txg)
       else
         bindD (liftD DsBinary (get_u64 d)) (\<lambda>next_snapshot_obj.
         bindD (liftD DsBinary (get_u64 d)) (\<lambda>snapshot_names_zap_obj.
         bindD (liftD DsBinary (get_u64 d)) (\<lambda>num_children.
         bindD (liftD DsBinary (get_u64 d)) (\<lambda>creation_time.
         bindD (liftD DsBinary (get_u64 d)) (\<lambda>creation_txg.
         bindD (liftD DsBinary (get_u64 d)) (\<lambda>deadlist_obj.
         bindD (liftD DsBinary (get_u64 d)) (\<lambda>referenced_bytes.
         bindD (liftD DsBinary (get_u64 d)) (\<lambda>compressed_bytes.
         bindD (liftD DsBinary (get_u64 d)) (\<lambda>uncompressed_bytes.
         bindD (liftD DsBinary (get_u64 d)) (\<lambda>unique_bytes.
         bindD (liftD DsBinary (get_u64 d)) (\<lambda>fsid_guid.
         bindD (liftD DsBinary (get_u64 d)) (\<lambda>guid.
         bindD (liftD DsBinary (get_u64 d)) (\<lambda>flags.
         if flags AND DS_FLAG_ALL \<noteq> flags then failD (DsFlags flags)
         else
           bindD (liftD DsBlockPointer (block_pointer_from_decoder d)) (\<lambda>block_pointer.
           bindD (liftD DsBinary (get_u64 d)) (\<lambda>next_clones_obj.
           bindD (liftD DsBinary (get_u64 d)) (\<lambda>snapshot_props_obj.
           bindD (liftD DsBinary (get_u64 d)) (\<lambda>user_refs_obj.
           bindD (liftD DsBinary (skip_zeros d 40)) (\<lambda>_.
           returnD \<lparr>
             ds_dir_obj = dir_obj,
             ds_prev_snapshot_obj = some_nonzero prev_snapshot_obj,
             ds_prev_snapshot_txg = some_nonzero prev_snapshot_txg,
             ds_next_snapshot_obj = some_nonzero next_snapshot_obj,
             ds_snapshot_names_zap_obj = some_nonzero snapshot_names_zap_obj,
             ds_num_children = num_children,
             ds_creation_time = creation_time,
             ds_creation_txg = creation_txg,
             ds_deadlist_obj = deadlist_obj,
             ds_referenced_bytes = referenced_bytes,
             ds_compressed_bytes = compressed_bytes,
             ds_uncompressed_bytes = uncompressed_bytes,
             ds_unique_bytes = unique_bytes,
             ds_fsid_guid = fsid_guid,
             ds_guid = guid,
             ds_flags = flags,
             ds_block_pointer = block_pointer,
             ds_next_clones_obj = next_clones_obj,
             ds_snapshot_props_obj = some_nonzero snapshot_props_obj,
             ds_user_refs_obj = user_refs_obj\<rparr>)))))))))))))))))))))"

definition dsl_dataset_to_encoder ::
  "binary_encoder \<Rightarrow> dsl_dataset \<Rightarrow> (enc_buffer, dsl_dataset_encode_error, unit) step" where
  "dsl_dataset_to_encoder e ds =
     (if ds_dir_obj ds = 0 then failD DsEncMissingDirectory
      else (
        bindD (liftD DsEncBinary (put_u64 e (ds_dir_obj ds))) (\<lambda>_.
        if (unwrap_or_0 (ds_prev_snapshot_obj ds) = 0) \<noteq> (unwrap_or_0 (ds_prev_snapshot_txg ds) = 0)
        then failD (DsEncPreviousSnapshot (unwrap_or_0 (ds_prev_snapshot_obj ds)) (unwrap_or_0 (ds_prev_snapshot_txg ds)))
        else
          bindD (liftD DsEncBinary (put_u64 e (unwrap_or_0 (ds_prev_snapshot_obj ds)))) (\<lambda>_.
          bindD (liftD DsEncBinary (put_u64 e (unwrap_or_0 (ds_prev_snapshot_txg ds)))) (\<lambda>_.
          bindD (liftD DsEncBinary (put_u64 e (unwrap_or_0 (ds_next_snapshot_obj ds)))) (\<lambda>_.
          bindD (liftD DsEncBinary (put_u64 e (unwrap_or_0 (ds_snapshot_names_zap_obj ds)))) (\<lambda>_.
          bindD (liftD DsEncBinary (put_u64 e (ds_num_children ds))) (\<lambda>_.
          bindD (liftD DsEncBinary (put_u64 e (ds_creation_time ds))) (\<lambda>_.
          bindD (liftD DsEncBinary (put_u64 e (ds_creation_txg ds))) (\<lambda>_.
          bindD (liftD DsEncBinary (put_u64 e (ds_deadlist_obj ds))) (\<lambda>_.
          bindD (liftD DsEncBinary (put_u64 e (ds_referenced_bytes ds))) (\<lambda>_.
          bindD (liftD DsEncBinary (put_u64 e (ds_compressed_bytes ds))) (\<lambda>_.
          bindD (liftD DsEncBinary (put_u64 e (ds_uncompressed_bytes ds))) (\<lambda>_.
          bindD (liftD DsEncBinary (put_u64 e (ds_unique_bytes ds))) (\<lambda>_.
          bindD (liftD DsEncBinary (put_u64 e (ds_fsid_guid ds))) (\<lambda>_.
          bindD (liftD DsEncBinary (put_u64 e (ds_guid ds))) (\<lambda>_.
          bindD (liftD DsEncBinary (put_u64 e (ds_flags ds))) (\<lambda>_.
          bindD (liftD DsEncBlockPointer (block_pointer_option_to_encoder e (ds_block_pointer ds))) (\<lambda>_.
          bindD (liftD DsEncBinary (put_u64 e (ds_next_clones_obj ds))) (\<lambda>_.
          bindD (liftD DsEncBinary (put_u64 e (unwrap_or_0 (ds_snapshot_props_obj ds)))) (\<lambda>_.
          bindD (liftD DsEncBinary (put_u64 e (ds_user_refs_obj ds))) (\<lambda>_.
          liftD DsEncBinary (put_zeros e 40)))))))))))))))))))))))"

section \<open>Safety\<close>

context decoder_contract
begin

lemma dsl_used_breakdown_safe: "safe_dec (dsl_used_breakdown_from_decoder d flags)"
  unfolding dsl_used_breakdown_from_decoder_def by (intro dec_safe methods)

lemma dsl_directory_safe: "safe_dec (dsl_directory_from_decoder d)"
  unfolding dsl_directory_from_decoder_def by (intro dec_safe methods dsl_used_breakdown_safe)

lemma dsl_dataset_safe: "safe_dec (dsl_dataset_from_decoder d)"
  unfolding dsl_dataset_from_decoder_def by (intro dec_safe methods block_pointer_safe)

end

section \<open>Round trip of data sets\<close>

definition wf_dsl_dataset :: "dsl_dataset \<Rightarrow> bool" where
  "wf_dsl_dataset ds \<longleftrightarrow> ds_dir_obj ds \<noteq> 0 \<and>
     ds_prev_snapshot_obj ds \<noteq> Some 0 \<and> ds_prev_snapshot_txg ds \<noteq> Some 0 \<and>
     (ds_prev_snapshot_obj ds = None \<longleftrightarrow> ds_prev_snapshot_txg ds = None) \<and>
     ds_next_snapshot_obj ds \<noteq> Some 0 \<and> ds_snapshot_names_zap_obj ds \<noteq> Some 0 \<and> ds_snapshot_props_obj ds \<noteq> Some 0 \<and>
     ds_flags ds AND DS_FLAG_ALL = ds_flags ds \<and>
     (case ds_block_pointer ds of None \<Rightarrow> True
      | Some p \<Rightarrow> wf_block_pointer p \<and> (\<forall>ord. block_pointer_bytes ord p \<noteq> replicate 128 0))"

definition option_pointer_bytes :: "endian_order \<Rightarrow> block_pointer option \<Rightarrow> bytes" where
  "option_pointer_bytes ord p = (case p of None \<Rightarrow> replicate 128 0 | Some p \<Rightarrow> block_pointer_bytes ord p)"

definition dsl_dataset_bytes :: "endian_order \<Rightarrow> dsl_dataset \<Rightarrow> bytes" where
  "dsl_dataset_bytes ord ds = (let u = (word_bytes ord 8 :: u64 \<Rightarrow> bytes) in
     u (ds_dir_obj ds) @ u (unwrap_or_0 (ds_prev_snapshot_obj ds)) @ u (unwrap_or_0 (ds_prev_snapshot_txg ds)) @
     u (unwrap_or_0 (ds_next_snapshot_obj ds)) @ u (unwrap_or_0 (ds_snapshot_names_zap_obj ds)) @
     u (ds_num_children ds) @ u (ds_creation_time ds) @ u (ds_creation_txg ds) @ u (ds_deadlist_obj ds) @
     u (ds_referenced_bytes ds) @ u (ds_compressed_bytes ds) @ u (ds_uncompressed_bytes ds) @ u (ds_unique_bytes ds) @
     u (ds_fsid_guid ds) @ u (ds_guid ds) @ u (ds_flags ds) @ option_pointer_bytes ord (ds_block_pointer ds) @
     u (ds_next_clones_obj ds) @ u (unwrap_or_0 (ds_snapshot_props_obj ds)) @ u (ds_user_refs_obj ds) @ replicate 40 0)"

lemma option_pointer_writes:
  "(case p of None \<Rightarrow> True | Some p \<Rightarrow> wf_block_pointer p) \<Longrightarrow>
   writes (block_pointer_option_to_encoder (endian_encoder ord) p) (option_pointer_bytes ord p)"
  by (auto simp: block_pointer_option_to_encoder_def block_pointer_empty_to_encoder_def option_pointer_bytes_def
      split: option.splits intro: enc_writes block_pointer_writes)

lemma option_pointer_reads:
  assumes "case p of None \<Rightarrow> True | Some p \<Rightarrow> wf_block_pointer p \<and> block_pointer_bytes ord p \<noteq> replicate 128 0"
  shows "reads (block_pointer_from_decoder (endian_decoder ord)) (option_pointer_bytes ord p) p"
proof (cases p)
  case None
  then show ?thesis
    by (simp add: option_pointer_bytes_def block_pointer_reads_zeros)
next
  case (Some q)
  then have q: "wf_block_pointer q" "block_pointer_bytes ord q \<noteq> replicate 128 0"
    using assms by auto
  then have "\<exists>x \<in> set (block_pointer_bytes ord q). x \<noteq> 0"
    using replicate_length_same[of "block_pointer_bytes ord q" 0] length_block_pointer_bytes[OF q(1), of ord] by auto
  with Some q show ?thesis
    by (simp add: option_pointer_bytes_def block_pointer_reads)
qed

lemma unwrap_or_0_eq_0: "v \<noteq> Some 0 \<Longrightarrow> unwrap_or_0 v = 0 \<longleftrightarrow> v = None"
  by (auto simp: unwrap_or_0_def split: option.split)

lemma dsl_dataset_writes:
  assumes "wf_dsl_dataset ds"
  shows "writes (dsl_dataset_to_encoder (endian_encoder ord) ds) (dsl_dataset_bytes ord ds)"
proof -
  have "case ds_block_pointer ds of None \<Rightarrow> True | Some p \<Rightarrow> wf_block_pointer p"
    "(unwrap_or_0 (ds_prev_snapshot_obj ds) = 0) = (unwrap_or_0 (ds_prev_snapshot_txg ds) = 0)" "ds_dir_obj ds \<noteq> 0"
    using assms by (auto simp: wf_dsl_dataset_def unwrap_or_0_eq_0 split: option.splits)
  then show ?thesis
    unfolding dsl_dataset_to_encoder_def dsl_dataset_bytes_def Let_def
    by (simp only: if_False not_True_eq_False simp_thms)
      (intro writes_bindD writes_liftD endian_put_u64 option_pointer_writes; simp add: writes_put_zeros)
qed

lemma dsl_dataset_reads:
  assumes "wf_dsl_dataset ds"
  shows "reads (dsl_dataset_from_decoder (endian_decoder ord)) (dsl_dataset_bytes ord ds) ds"
proof -
  have bp: "case ds_block_pointer ds of None \<Rightarrow> True
      | Some p \<Rightarrow> wf_block_pointer p \<and> block_pointer_bytes ord p \<noteq> replicate 128 0"
    and prev: "((unwrap_or_0 (ds_prev_snapshot_obj ds) = 0) \<noteq> (unwrap_or_0 (ds_prev_snapshot_txg ds) = 0)) = False"
    and dir: "(ds_dir_obj ds = 0) = False" and flags: "(ds_flags ds AND DS_FLAG_ALL \<noteq> ds_flags ds) = False"
    using assms by (auto simp: wf_dsl_dataset_def unwrap_or_0_eq_0 split: option.splits)
  note get = reads_bindD[OF reads_liftD[OF endian_get_u64]]
  show ?thesis
    unfolding dsl_dataset_from_decoder_def dsl_dataset_bytes_def Let_def
    apply (rule get, simp only: dir if_False)
    apply (rule get, rule get, simp only: prev if_False)
    apply (intro get, simp only: flags simp_thms if_False)
    apply (rule reads_bindD[OF reads_liftD[OF option_pointer_reads[OF bp]]])
    apply (intro get, simp only: endian_methods, rule reads_bindD_last[OF reads_liftD[OF reads_buf_skip_zeros]])
    apply (rule reads_returnD_eq)
    using assms by (simp add: wf_dsl_dataset_def some_nonzero_unwrap)
qed

lemma length_option_pointer_bytes:
  "(case p of None \<Rightarrow> True | Some p \<Rightarrow> wf_block_pointer p) \<Longrightarrow> length (option_pointer_bytes ord p) = 128"
  by (auto simp: option_pointer_bytes_def length_block_pointer_bytes split: option.splits)

lemma length_dsl_dataset_bytes: "wf_dsl_dataset ds \<Longrightarrow> length (dsl_dataset_bytes ord ds) = 320"
  using length_option_pointer_bytes[of "ds_block_pointer ds" ord]
  by (auto simp: dsl_dataset_bytes_def Let_def wf_dsl_dataset_def split: option.splits)

section \<open>What a directory encodes to\<close>

definition dsl_directory_bytes :: "endian_order \<Rightarrow> dsl_directory \<Rightarrow> bytes" where
  "dsl_directory_bytes ord dd = (let u = (word_bytes ord 8 :: u64 \<Rightarrow> bytes) in
     u (dd_creation_time dd) @ u (unwrap_or_0 (dd_head_dataset_obj dd)) @ u (unwrap_or_0 (dd_parent_directory_obj dd)) @
     u (unwrap_or_0 (dd_origin_dataset_obj dd)) @ u (dd_child_directory_zap_obj dd) @ u (dd_used_bytes dd) @
     u (dd_compressed_bytes dd) @ u (dd_uncompressed_bytes dd) @ u (dd_quota dd) @ u (dd_reserved dd) @
     u (dd_properties_zap_obj dd) @ u (unwrap_or_0 (dd_delegation_zap_obj dd)) @
     u (if dd_used_breakdown dd = None then 0 else FLAG_USED_BREAKDOWN) @
     (case dd_used_breakdown dd of None \<Rightarrow> replicate 40 0
      | Some b \<Rightarrow> u (ub_head b) @ u (ub_snapshot b) @ u (ub_child b) @ u (ub_child_reserved b) @ u (ub_referenced_reservation b)) @
     replicate 104 0)"

lemma dsl_used_breakdown_writes:
  "writes (dsl_used_breakdown_to_encoder (endian_encoder ord) u)
     (case u of None \<Rightarrow> replicate 40 0
      | Some b \<Rightarrow> word_bytes ord 8 (ub_head b) @ word_bytes ord 8 (ub_snapshot b) @ word_bytes ord 8 (ub_child b) @
          word_bytes ord 8 (ub_child_reserved b) @ word_bytes ord 8 (ub_referenced_reservation b))"
  by (cases u) (auto simp: dsl_used_breakdown_to_encoder_def intro!: writes_bindD writes_liftD endian_put_u64 writes_put_zeros)

lemma dsl_directory_writes:
  assumes "dd_child_directory_zap_obj dd \<noteq> 0" "dd_properties_zap_obj dd \<noteq> 0"
  shows "writes (dsl_directory_to_encoder (endian_encoder ord) dd) (dsl_directory_bytes ord dd)"
  unfolding dsl_directory_to_encoder_def dsl_directory_bytes_def Let_def
  by (simp only: assms if_False endian_methods)
    (intro writes_bindD writes_liftD endian_put_u64 dsl_used_breakdown_writes writes_put_zeros)

text \<open>A directory that can be encoded and whose optional object numbers are not zero.\<close>

definition wf_dsl_directory :: "dsl_directory \<Rightarrow> bool" where
  "wf_dsl_directory dd \<longleftrightarrow> dd_child_directory_zap_obj dd \<noteq> 0 \<and> dd_properties_zap_obj dd \<noteq> 0 \<and>
     dd_head_dataset_obj dd \<noteq> Some 0 \<and> dd_parent_directory_obj dd \<noteq> Some 0 \<and> dd_origin_dataset_obj dd \<noteq> Some 0 \<and>
     dd_delegation_zap_obj dd \<noteq> Some 0"

lemma length_dsl_directory_bytes: "length (dsl_directory_bytes ord dd) = 248"
  by (simp add: dsl_directory_bytes_def Let_def split: option.split)

lemma dsl_used_breakdown_reads:
  "reads (dsl_used_breakdown_from_decoder (endian_decoder ord) (if u = None then 0 else FLAG_USED_BREAKDOWN))
     (case u of None \<Rightarrow> replicate 40 0
      | Some b \<Rightarrow> word_bytes ord 8 (ub_head b) @ word_bytes ord 8 (ub_snapshot b) @ word_bytes ord 8 (ub_child b) @
          word_bytes ord 8 (ub_child_reserved b) @ word_bytes ord 8 (ub_referenced_reservation b)) u"
proof (cases u)
  case None
  then show ?thesis
    by (auto simp: dsl_used_breakdown_from_decoder_def endian_methods
        intro: reads_bindD_last reads_liftD reads_buf_skip_zeros reads_returnD)
next
  case (Some b)
  then show ?thesis
    by (auto simp: dsl_used_breakdown_from_decoder_def FLAG_USED_BREAKDOWN_def
        intro!: reads_bindD[OF reads_liftD[OF endian_get_u64]] reads_bindD_last[OF reads_liftD[OF endian_get_u64]] reads_returnD_eq)
qed

text \<open>A decoding step that has only the bytes \<open>bs\<close> left fails with an error that satisfies \<open>P\<close>.\<close>

definition fails_on :: "(buffer, 'e, 'a) step \<Rightarrow> bytes \<Rightarrow> ('e \<Rightarrow> bool) \<Rightarrow> bool" where
  "fails_on m bs P \<longleftrightarrow> (\<forall>b. wf_buf b \<longrightarrow> buf_offset b + length bs = buf_max_offset b \<longrightarrow>
     take (length bs) (drop (buf_offset b) (buf_data b)) = bs \<longrightarrow> (\<exists>e. m b = Err e \<and> P e))"

lemma fails_on_bind:
  assumes "reads m bs x" "fails_on (f x) cs P"
  shows "fails_on (bindD m f) (bs @ cs) P"
  unfolding fails_on_def
proof (intro allI impI)
  fix b :: buffer
  assume b: "wf_buf b" "buf_offset b + length (bs @ cs) = buf_max_offset b"
    "take (length (bs @ cs)) (drop (buf_offset b) (buf_data b)) = bs @ cs"
  let ?b = "b\<lparr>buf_offset := buf_offset b + length bs\<rparr>"
  have "take (length bs) (drop (buf_offset b) (buf_data b)) = bs"
    using arg_cong[OF b(3), of "take (length bs)"] by simp
  then have "m b = Ok (x, ?b)" using assms(1) b by (simp add: reads_def)
  moreover have "take (length cs) (drop (buf_offset ?b) (buf_data ?b)) = cs"
    using arg_cong[OF b(3), of "drop (length bs)"] by (simp add: drop_take add.commute)
  then have "\<exists>e. f x ?b = Err e \<and> P e"
    using assms(2) b unfolding fails_on_def by (auto simp: add.assoc wf_buf_def)
  ultimately show "\<exists>e. bindD m f b = Err e \<and> P e" by (auto simp: bindD_def)
qed

lemma fails_on_skip_zeros:
  "length bs < n \<Longrightarrow> (\<And>off max cap. P (C (EndOfInput off max cap n))) \<Longrightarrow>
   fails_on (bindD (liftD C (buf_skip_zeros n)) f) bs P"
  by (auto simp: fails_on_def bindD_def liftD_def buf_skip_zeros_def buf_get_bytes_def buf_check_need_def buffer_defs)

text \<open>The zeros after the breakdown, as the decoder divides them.\<close>

lemma zeros_as_clones:
  "replicate 104 0 @ replicate 8 0 = word_bytes ord 8 (0 :: u64) @ replicate 104 0"
  "replicate 104 0 = word_bytes ord 8 (0 :: u64) @ replicate 96 0"
proof -
  have z: "word_bytes ord 8 (0 :: u64) = replicate 8 0"
    by (cases ord) (simp_all add: word_bytes_def be_bytes_def numeral_eq_Suc)
  show "replicate 104 0 @ replicate 8 0 = word_bytes ord 8 (0 :: u64) @ replicate 104 0"
    "replicate 104 0 = word_bytes ord 8 (0 :: u64) @ replicate 96 0"
    unfolding z replicate_add[symmetric] by simp_all
qed

lemmas get_directory_u64 = reads_bindD[OF reads_liftD[OF endian_get_u64]] fails_on_bind[OF reads_liftD[OF endian_get_u64]]

lemma dsl_directory_reads:
  assumes "wf_dsl_directory dd"
  shows "reads (dsl_directory_from_decoder (endian_decoder ord)) (dsl_directory_bytes ord dd @ replicate 8 0) (dd\<lparr>dd_clones := 0\<rparr>)"
proof -
  have child: "(dd_child_directory_zap_obj dd = 0) = False" and props: "(dd_properties_zap_obj dd = 0) = False"
    and flags: "((if dd_used_breakdown dd = None then 0 else FLAG_USED_BREAKDOWN) AND FLAG_USED_BREAKDOWN \<noteq>
      (if dd_used_breakdown dd = None then 0 else FLAG_USED_BREAKDOWN)) = False"
    using assms by (simp_all add: wf_dsl_directory_def)
  show ?thesis
    unfolding dsl_directory_from_decoder_def dsl_directory_bytes_def Let_def append_assoc zeros_as_clones(1)[of ord]
    apply (intro get_directory_u64(1), simp only: child if_False)
    apply (intro get_directory_u64(1), simp only: props if_False)
    apply (intro get_directory_u64(1), simp only: flags if_False)
    apply (rule reads_bindD[OF dsl_used_breakdown_reads], rule get_directory_u64(1))
    apply (simp only: endian_methods, rule reads_bindD_last[OF reads_liftD[OF reads_buf_skip_zeros]])
    apply (rule reads_returnD_eq)
    using assms by (simp add: wf_dsl_directory_def some_nonzero_unwrap)
qed

lemma dsl_directory_fails_on:
  assumes "wf_dsl_directory dd"
  shows "fails_on (dsl_directory_from_decoder (endian_decoder ord)) (dsl_directory_bytes ord dd)
    (\<lambda>e. \<exists>off max cap. e = DdBinary (EndOfInput off max cap 104))"
proof -
  have child: "(dd_child_directory_zap_obj dd = 0) = False" and props: "(dd_properties_zap_obj dd = 0) = False"
    and flags: "((if dd_used_breakdown dd = None then 0 else FLAG_USED_BREAKDOWN) AND FLAG_USED_BREAKDOWN \<noteq>
      (if dd_used_breakdown dd = None then 0 else FLAG_USED_BREAKDOWN)) = False"
    using assms by (simp_all add: wf_dsl_directory_def)
  show ?thesis
    unfolding dsl_directory_from_decoder_def dsl_directory_bytes_def Let_def zeros_as_clones(2)[of ord]
    apply (intro get_directory_u64(2), simp only: child if_False)
    apply (intro get_directory_u64(2), simp only: props if_False)
    apply (intro get_directory_u64(2), simp only: flags if_False)
    apply (rule fails_on_bind[OF dsl_used_breakdown_reads], rule get_directory_u64(2))
    apply (simp only: endian_methods, rule fails_on_skip_zeros)
    by simp_all
qed

section \<open>Properties\<close>

text \<open>
  C23. Round trip of the data set: a data set whose optional object numbers are not zero, whose
  flags are known and whose block pointer can be encoded is written as 320 bytes, in either byte
  order, from which the decoder reads the same data set.
\<close>

theorem dsl_dataset_roundtrip:
  assumes "wf_dsl_dataset ds" "length dst = 320"
  shows "\<exists>eb bs b. dsl_dataset_to_encoder (endian_encoder ord) ds (enc_to_bytes dst) = Ok ((), eb) \<and>
    enc_finish eb = Ok bs \<and> length bs = 320 \<and>
    dsl_dataset_from_decoder (endian_decoder ord) (buf_from_bytes bs) = Ok (ds, b) \<and> buf_is_empty b"
  using writes_reads_roundtrip[OF dsl_dataset_writes[OF assms(1)] dsl_dataset_reads[OF assms(1)], of ord dst]
    length_dsl_dataset_bytes[OF assms(1), of ord] assms(2) by auto

definition sample_dataset :: dsl_dataset where
  "sample_dataset = \<lparr>ds_dir_obj = 2, ds_prev_snapshot_obj = Some 18, ds_prev_snapshot_txg = Some 1,
     ds_next_snapshot_obj = None, ds_snapshot_names_zap_obj = Some 22, ds_num_children = 0, ds_creation_time = 7,
     ds_creation_txg = 1, ds_deadlist_obj = 23, ds_referenced_bytes = 24576, ds_compressed_bytes = 24576,
     ds_uncompressed_bytes = 24576, ds_unique_bytes = 24576, ds_fsid_guid = 5, ds_guid = 6, ds_flags = 4,
     ds_block_pointer = None, ds_next_clones_obj = 0, ds_snapshot_props_obj = None, ds_user_refs_obj = 0\<rparr>"

theorem dsl_dataset_roundtrip_witness:
  "\<exists>eb bs b. dsl_dataset_to_encoder (endian_encoder Big) sample_dataset (enc_to_bytes (replicate 320 1)) = Ok ((), eb) \<and>
    enc_finish eb = Ok bs \<and> length bs = 320 \<and>
    dsl_dataset_from_decoder (endian_decoder Big) (buf_from_bytes bs) = Ok (sample_dataset, b) \<and> buf_is_empty b"
  by (rule dsl_dataset_roundtrip)
    (simp_all add: wf_dsl_dataset_def sample_dataset_def DS_FLAG_ALL_def DS_FLAG_INCONSISTENT_def DS_FLAG_NO_PROMOTE_def
      DS_FLAG_UNIQUE_ACCURATE_def DS_FLAG_DEFER_DESTROY_def DS_FLAG_CASE_INSENSITIVE_FS_def DS_FLAG_NO_DIRTY_def)

text \<open>
  C27. \<open>DslDirectory::to_encoder\<close> loses the object of the clones: into a buffer of the 256 bytes of a
  directory that ends in zeros, a directory is encoded as 248 bytes that do not depend on \<open>clones\<close>.
  The decoder reads 256 bytes: from the 248 bytes written it fails at the end of the input, and from
  the whole buffer it reads the directory with its \<open>clones\<close> replaced by 0.
\<close>

theorem dsl_directory_loses_clones:
  assumes "wf_dsl_directory dd" "length dst = 256" "drop 248 dst = replicate 8 0"
  shows "\<exists>eb b off max cap. dsl_directory_to_encoder (endian_encoder ord) dd (enc_to_bytes dst) = Ok ((), eb) \<and>
    enc_offset eb = 248 \<and>
    dsl_directory_to_encoder (endian_encoder ord) (dd\<lparr>dd_clones := c\<rparr>) (enc_to_bytes dst) = Ok ((), eb) \<and>
    dsl_directory_from_decoder (endian_decoder ord) (buf_from_bytes (take 248 (enc_data eb))) =
      Err (DdBinary (EndOfInput off max cap 104)) \<and>
    dsl_directory_from_decoder (endian_decoder ord) (buf_from_bytes (enc_data eb)) = Ok (dd\<lparr>dd_clones := 0\<rparr>, b) \<and>
    buf_offset b = 256 \<and> buf_is_empty b"
proof -
  let ?bs = "dsl_directory_bytes ord dd"
  let ?eb = "\<lparr>enc_data = ?bs @ replicate 8 0, enc_offset = 248\<rparr>"
  let ?b = "(buf_from_bytes (?bs @ replicate 8 0))\<lparr>buf_offset := 256\<rparr>"
  note len = length_dsl_directory_bytes[of ord dd]
  have same: "dsl_directory_bytes ord (dd\<lparr>dd_clones := c\<rparr>) = ?bs"
    by (simp add: dsl_directory_bytes_def)
  have enc: "dsl_directory_to_encoder (endian_encoder ord) dd (enc_to_bytes dst) = Ok ((), ?eb)"
    "dsl_directory_to_encoder (endian_encoder ord) (dd\<lparr>dd_clones := c\<rparr>) (enc_to_bytes dst) = Ok ((), ?eb)"
    using dsl_directory_writes[of dd ord] dsl_directory_writes[of "dd\<lparr>dd_clones := c\<rparr>" ord] assms len same
    by (simp_all add: writes_def enc_to_bytes_def overwrite_def wf_dsl_directory_def)
  have "wf_buf (buf_from_bytes ?bs)" "buf_offset (buf_from_bytes ?bs) + length ?bs = buf_max_offset (buf_from_bytes ?bs)"
    "take (length ?bs) (drop (buf_offset (buf_from_bytes ?bs)) (buf_data (buf_from_bytes ?bs))) = ?bs"
    by (simp_all add: buf_from_bytes_def wf_buf_def)
  then have short: "\<exists>off max cap. dsl_directory_from_decoder (endian_decoder ord) (buf_from_bytes ?bs) =
      Err (DdBinary (EndOfInput off max cap 104))"
    using dsl_directory_fails_on[OF assms(1), of ord] unfolding fails_on_def by fastforce
  have whole: "dsl_directory_from_decoder (endian_decoder ord) (buf_from_bytes (?bs @ replicate 8 0)) = Ok (dd\<lparr>dd_clones := 0\<rparr>, ?b)"
    using readsD[OF dsl_directory_reads[OF assms(1), of ord], of "buf_from_bytes (?bs @ replicate 8 0)"] len
    by (simp add: buf_from_bytes_def wf_buf_def)
  have "buf_is_empty ?b" using len by (simp add: buf_from_bytes_def buf_is_empty_def buffer_defs)
  with enc short whole len show ?thesis by auto
qed

definition sample_directory :: dsl_directory where
  "sample_directory = \<lparr>dd_creation_time = 1, dd_head_dataset_obj = Some 21, dd_parent_directory_obj = None,
     dd_origin_dataset_obj = None, dd_child_directory_zap_obj = 4, dd_used_bytes = 0, dd_compressed_bytes = 0,
     dd_uncompressed_bytes = 0, dd_quota = 0, dd_reserved = 0, dd_properties_zap_obj = 3, dd_delegation_zap_obj = None,
     dd_used_breakdown = None, dd_clones = 0\<rparr>"

theorem dsl_directory_loses_clones_witness:
  "\<exists>eb b. dsl_directory_to_encoder (endian_encoder Little) (sample_directory\<lparr>dd_clones := 9\<rparr>) (enc_to_bytes (replicate 256 0)) =
      Ok ((), eb) \<and> enc_offset eb = 248 \<and>
    dsl_directory_from_decoder (endian_decoder Little) (buf_from_bytes (enc_data eb)) = Ok (sample_directory, b) \<and>
    dsl_directory_from_decoder (endian_decoder Little) (buf_from_bytes (take 248 (enc_data eb))) \<noteq> Ok (sample_directory, b)"
proof -
  have "wf_dsl_directory sample_directory" and zero: "sample_directory\<lparr>dd_clones := 0\<rparr> = sample_directory"
    by (simp_all add: wf_dsl_directory_def sample_directory_def)
  from dsl_directory_loses_clones[OF this(1), of "replicate 256 0" Little 9] show ?thesis
    unfolding zero by auto
qed

end
