(* ===== verification/Dataset.thy ===== *)
theory Dataset
  imports Walk Dsl
begin

text \<open>
  \<open>dataset.rs\<close>: from the meta object set to a dataset, its root directory, directory entries and file
  sizes. Names are the bytes of UTF-8 strings.
\<close>

definition str_bytes :: "string \<Rightarrow> bytes" where
  "str_bytes s = map of_char s"

definition MOS_OBJECT_DIRECTORY :: u64 where "MOS_OBJECT_DIRECTORY = 1"
definition ZPL_MASTER_NODE :: u64 where "ZPL_MASTER_NODE = 1"

record dataset =
  meta_dnode :: dnode

section \<open>Datasets\<close>

definition dsl_dir :: "'r env \<Rightarrow> topology \<Rightarrow> dnode \<Rightarrow> u64 \<Rightarrow> endian_order \<Rightarrow> ('r, dsl_directory) zio" where
  "dsl_dir E topo mos obj order =
     bindZ (read_object E topo mos obj order) (\<lambda>object.
     liftZ (map_err (\<lambda>_. Inconsistent ''dsl_dir'' (Loc_Dsl obj))
       (with_decoder (od_bonus object) order dsl_directory_from_decoder)))"

text \<open>The object of the root directory of the pool, and the descent along the names of child datasets.\<close>

definition root_dataset_obj :: "'r env \<Rightarrow> topology \<Rightarrow> dnode \<Rightarrow> endian_order \<Rightarrow> ('r, u64) zio" where
  "root_dataset_obj E topo mos order =
     bindZ (read_object_dnode E topo mos MOS_OBJECT_DIRECTORY order) (\<lambda>objdir.
     bindZ (zap_lookup E topo objdir (str_bytes ''root_dataset'') order) (\<lambda>obj.
     liftZ (ok_or (NotFound ''root_dataset'') obj)))"

fun descend_datasets ::
  "'r env \<Rightarrow> topology \<Rightarrow> dnode \<Rightarrow> endian_order \<Rightarrow> u64 \<Rightarrow> bytes list \<Rightarrow> ('r, u64) zio" where
  "descend_datasets E topo mos order dir_obj [] = returnZ dir_obj"
| "descend_datasets E topo mos order dir_obj (name # names) =
     bindZ (dsl_dir E topo mos dir_obj order) (\<lambda>dir.
     bindZ (read_object_dnode E topo mos (dd_child_directory_zap_obj dir) order) (\<lambda>child_zap.
     bindZ (zap_lookup E topo child_zap name order) (\<lambda>obj.
     bindZ (liftZ (ok_or (NotFound ''dataset'') obj)) (\<lambda>dir_obj.
     descend_datasets E topo mos order dir_obj names))))"

definition open_dataset ::
  "'r env \<Rightarrow> topology \<Rightarrow> dnode \<Rightarrow> endian_order \<Rightarrow> bytes list \<Rightarrow> ('r, dataset) zio" where
  "open_dataset E topo mos order names =
     bindZ (root_dataset_obj E topo mos order) (\<lambda>dir_obj.
     bindZ (descend_datasets E topo mos order dir_obj names) (\<lambda>dir_obj.
     bindZ (dsl_dir E topo mos dir_obj order) (\<lambda>dir.
     bindZ (liftZ (ok_or (NotFound ''head_dataset'') (dd_head_dataset_obj dir))) (\<lambda>ds_obj.
     bindZ (read_object E topo mos ds_obj order) (\<lambda>ds_object.
     bindZ (liftZ (map_err (\<lambda>_. Inconsistent ''dsl_dataset'' (Loc_Dsl ds_obj))
       (with_decoder (od_bonus ds_object) order dsl_dataset_from_decoder))) (\<lambda>ds.
     bindZ (liftZ (ok_or (Inconsistent ''dataset_no_bp'' (Loc_Dsl ds_obj)) (ds_block_pointer ds))) (\<lambda>bp.
     bindZ (read_objset E topo bp order) (\<lambda>objset.
     returnZ \<lparr>meta_dnode = os_dnode objset\<rparr>))))))))"

text \<open>\<open>name.starts_with('$')\<close>, on the UTF-8 encoding.\<close>

definition starts_with_dollar :: "bytes \<Rightarrow> bool" where
  "starts_with_dollar name \<longleftrightarrow> (case name of [] \<Rightarrow> False | b # _ \<Rightarrow> b = 0x24)"

definition child_dataset_names ::
  "'r env \<Rightarrow> topology \<Rightarrow> dnode \<Rightarrow> endian_order \<Rightarrow> bytes list \<Rightarrow> ('r, bytes list) zio" where
  "child_dataset_names E topo mos order parent =
     bindZ (root_dataset_obj E topo mos order) (\<lambda>dir_obj.
     bindZ (descend_datasets E topo mos order dir_obj parent) (\<lambda>dir_obj.
     bindZ (dsl_dir E topo mos dir_obj order) (\<lambda>dir.
     bindZ (read_object_dnode E topo mos (dd_child_directory_zap_obj dir) order) (\<lambda>child_zap.
     bindZ (zap_entries E topo child_zap order) (\<lambda>entries.
     returnZ (filter (\<lambda>name. \<not> starts_with_dollar name) (map fst entries)))))))"

section \<open>Directories and files\<close>

definition root_dir_obj :: "'r env \<Rightarrow> topology \<Rightarrow> dataset \<Rightarrow> endian_order \<Rightarrow> ('r, u64) zio" where
  "root_dir_obj E topo ds order =
     bindZ (read_object_dnode E topo (meta_dnode ds) ZPL_MASTER_NODE order) (\<lambda>master.
     bindZ (zap_lookup E topo master (str_bytes ''ROOT'') order) (\<lambda>obj.
     liftZ (ok_or (NotFound ''ROOT'') obj)))"

definition list_dir :: "'r env \<Rightarrow> topology \<Rightarrow> dataset \<Rightarrow> u64 \<Rightarrow> endian_order \<Rightarrow> ('r, zap_list) zio" where
  "list_dir E topo ds dir_obj order =
     bindZ (read_object_dnode E topo (meta_dnode ds) dir_obj order) (\<lambda>dir.
     zap_entries E topo dir order)"

definition DIRENT_OBJ_MASK :: u64 where "DIRENT_OBJ_MASK = push_bit 48 1 - 1"

text \<open>The loop of \<open>resolve_path\<close>: the last component is the result, every other one is descended into.\<close>

fun resolve_components ::
  "'r env \<Rightarrow> topology \<Rightarrow> dataset \<Rightarrow> endian_order \<Rightarrow> u64 \<Rightarrow> bytes list \<Rightarrow> ('r, u64 \<times> u64) zio" where
  "resolve_components E topo ds order dir_obj [] = failZ (NotFound ''empty_path'')"
| "resolve_components E topo ds order dir_obj (component # components) =
     bindZ (read_object_dnode E topo (meta_dnode ds) dir_obj order) (\<lambda>dir.
     bindZ (zap_lookup E topo dir component order) (\<lambda>value.
     bindZ (liftZ (ok_or (NotFound ''path'') value)) (\<lambda>value.
     let obj = value AND DIRENT_OBJ_MASK in
     if components = [] then returnZ (obj, value)
     else resolve_components E topo ds order obj components)))"

definition resolve_path ::
  "'r env \<Rightarrow> topology \<Rightarrow> dataset \<Rightarrow> endian_order \<Rightarrow> bytes list \<Rightarrow> ('r, u64 \<times> u64) zio" where
  "resolve_path E topo ds order components =
     bindZ (root_dir_obj E topo ds order) (\<lambda>dir_obj.
     resolve_components E topo ds order dir_obj components)"

definition SA_MAGIC :: u32 where "SA_MAGIC = 0x002F505A"
definition SA_SIZE_OFFSET_STD :: nat where "SA_SIZE_OFFSET_STD = 8"

definition sa_file_size :: "bytes \<Rightarrow> endian_order \<Rightarrow> (error, u64) result" where
  "sa_file_size bonus order =
     (let unsupported = UnsupportedFeature ''sa_layout'' in
      and_then (ok_or unsupported (slice_get bonus 0 4)) (\<lambda>magic_bytes.
      if (order_word order magic_bytes :: u32) \<noteq> SA_MAGIC then Err unsupported
      else
        and_then (ok_or unsupported (slice_get bonus 4 6)) (\<lambda>info_bytes.
        let layout_info = (order_word order info_bytes :: u16);
            hdrsz = unat (drop_bit 10 layout_info AND 0x3f) * 8;
            off = hdrsz + SA_SIZE_OFFSET_STD in
        and_then (ok_or unsupported (slice_get bonus off (off + 8))) (\<lambda>size_bytes.
        Ok (order_word order size_bytes)))))"

end
