(* ===== verification/Uberblock.thy ===== *)
theory Uberblock
  imports Label_Checksum
begin

text \<open>
  \<open>phys/spa.rs\<close> and \<open>phys/uberblock.rs\<close>: pool versions, uberblocks with their multi-modifier
  protection fields, and their self-checksum.
\<close>

section \<open>Pool versions\<close>

datatype (plugins only: code) spa_version =
    Spa_V1
  | Spa_V2
  | Spa_V3
  | Spa_V4
  | Spa_V5
  | Spa_V6
  | Spa_V7
  | Spa_V8
  | Spa_V9
  | Spa_V10
  | Spa_V11
  | Spa_V12
  | Spa_V13
  | Spa_V14
  | Spa_V15
  | Spa_V16
  | Spa_V17
  | Spa_V18
  | Spa_V19
  | Spa_V20
  | Spa_V21
  | Spa_V22
  | Spa_V23
  | Spa_V24
  | Spa_V25
  | Spa_V26
  | Spa_V27
  | Spa_V28
  | Spa_V5000

primrec spa_version_to_u64 :: "spa_version \<Rightarrow> u64" where
  "spa_version_to_u64 Spa_V1 = 1"
| "spa_version_to_u64 Spa_V2 = 2"
| "spa_version_to_u64 Spa_V3 = 3"
| "spa_version_to_u64 Spa_V4 = 4"
| "spa_version_to_u64 Spa_V5 = 5"
| "spa_version_to_u64 Spa_V6 = 6"
| "spa_version_to_u64 Spa_V7 = 7"
| "spa_version_to_u64 Spa_V8 = 8"
| "spa_version_to_u64 Spa_V9 = 9"
| "spa_version_to_u64 Spa_V10 = 10"
| "spa_version_to_u64 Spa_V11 = 11"
| "spa_version_to_u64 Spa_V12 = 12"
| "spa_version_to_u64 Spa_V13 = 13"
| "spa_version_to_u64 Spa_V14 = 14"
| "spa_version_to_u64 Spa_V15 = 15"
| "spa_version_to_u64 Spa_V16 = 16"
| "spa_version_to_u64 Spa_V17 = 17"
| "spa_version_to_u64 Spa_V18 = 18"
| "spa_version_to_u64 Spa_V19 = 19"
| "spa_version_to_u64 Spa_V20 = 20"
| "spa_version_to_u64 Spa_V21 = 21"
| "spa_version_to_u64 Spa_V22 = 22"
| "spa_version_to_u64 Spa_V23 = 23"
| "spa_version_to_u64 Spa_V24 = 24"
| "spa_version_to_u64 Spa_V25 = 25"
| "spa_version_to_u64 Spa_V26 = 26"
| "spa_version_to_u64 Spa_V27 = 27"
| "spa_version_to_u64 Spa_V28 = 28"
| "spa_version_to_u64 Spa_V5000 = 5000"

definition spa_version_table :: "(u64 \<times> spa_version) list" where
  "spa_version_table =
    [(1, Spa_V1),
     (2, Spa_V2),
     (3, Spa_V3),
     (4, Spa_V4),
     (5, Spa_V5),
     (6, Spa_V6),
     (7, Spa_V7),
     (8, Spa_V8),
     (9, Spa_V9),
     (10, Spa_V10),
     (11, Spa_V11),
     (12, Spa_V12),
     (13, Spa_V13),
     (14, Spa_V14),
     (15, Spa_V15),
     (16, Spa_V16),
     (17, Spa_V17),
     (18, Spa_V18),
     (19, Spa_V19),
     (20, Spa_V20),
     (21, Spa_V21),
     (22, Spa_V22),
     (23, Spa_V23),
     (24, Spa_V24),
     (25, Spa_V25),
     (26, Spa_V26),
     (27, Spa_V27),
     (28, Spa_V28),
     (5000, Spa_V5000)]"

definition spa_version_try_from :: "u64 \<Rightarrow> (u64, spa_version) result" where
  "spa_version_try_from v = ok_or v (map_of spa_version_table v)"

lemma spa_version_try_from_to [simp]: "spa_version_try_from (spa_version_to_u64 v) = Ok v"
  by (cases v) (simp_all add: spa_version_try_from_def spa_version_table_def)

lemma spa_version_try_from_safe [simp]: "spa_version_try_from v \<noteq> Panic"
  by (simp add: spa_version_try_from_def)

lemma spa_version_nonzero [simp]: "spa_version_to_u64 v \<noteq> 0"
  by (cases v) simp_all

section \<open>Multi-modifier protection\<close>

record uberblock_mmp =
  mmp_delay :: u64
  mmp_fail_intervals :: "u16 option"
  mmp_sequence :: "u16 option"
  mmp_write_interval :: "u32 option"

datatype mmp_decode_error =
    MmpEndian binary_decode_error
  | MmpInvalidMagic u64
  | MmpNonZeroReservedConfigBits u64
  | MmpNonZeroValues u64 u64 u64

datatype mmp_encode_error = MmpEncBinary binary_encode_error | MmpEncWriteIntervalTooLarge u32

definition MMP_MAGIC :: u64 where "MMP_MAGIC = 0x00000000a11cea11"
definition CONFIG_WRITE_INTERVAL_BIT_FLAG :: u64 where "CONFIG_WRITE_INTERVAL_BIT_FLAG = 1"
definition CONFIG_SEQUENCE_BIT_FLAG :: u64 where "CONFIG_SEQUENCE_BIT_FLAG = 2"
definition CONFIG_FAIL_INTERVALS_BIT_FLAG :: u64 where "CONFIG_FAIL_INTERVALS_BIT_FLAG = 4"
definition CONFIG_RESERVED_MASK :: u64 where
  "CONFIG_RESERVED_MASK = 0xff XOR CONFIG_FAIL_INTERVALS_BIT_FLAG XOR CONFIG_SEQUENCE_BIT_FLAG
     XOR CONFIG_WRITE_INTERVAL_BIT_FLAG"
definition CONFIG_WRITE_INTERVAL_MASK_DOWN_SHIFTED :: u64 where
  "CONFIG_WRITE_INTERVAL_MASK_DOWN_SHIFTED = push_bit 24 1 - 1"

text \<open>A value of the configuration word: present with its flag, and zero without it.\<close>

definition mmp_optional :: "bool \<Rightarrow> 'a::len word \<Rightarrow> mmp_decode_error \<Rightarrow> (mmp_decode_error, 'a word option) result" where
  "mmp_optional flag v err = (if flag then Ok (Some v) else if v \<noteq> 0 then Err err else Ok None)"

definition uberblock_mmp_parse :: "u64 \<Rightarrow> u64 \<Rightarrow> u64 \<Rightarrow> (mmp_decode_error, uberblock_mmp option) result" where
  "uberblock_mmp_parse magic delay config =
     (let non_zero = MmpNonZeroValues magic delay config in
      if magic = 0 then (if delay \<noteq> 0 \<or> config \<noteq> 0 then Err non_zero else Ok None)
      else if magic = MMP_MAGIC then
        if config AND CONFIG_RESERVED_MASK \<noteq> 0 then Err (MmpNonZeroReservedConfigBits config)
        else
          and_then (mmp_optional (config AND CONFIG_FAIL_INTERVALS_BIT_FLAG \<noteq> 0) (ucast (drop_bit 48 config)) non_zero) (\<lambda>fail_intervals.
          and_then (mmp_optional (config AND CONFIG_SEQUENCE_BIT_FLAG \<noteq> 0) (ucast (drop_bit 32 config)) non_zero) (\<lambda>sequence.
          and_then (mmp_optional (config AND CONFIG_WRITE_INTERVAL_BIT_FLAG \<noteq> 0)
              (ucast (drop_bit 8 config AND CONFIG_WRITE_INTERVAL_MASK_DOWN_SHIFTED)) non_zero) (\<lambda>write_interval.
          Ok (Some \<lparr>mmp_delay = delay, mmp_fail_intervals = fail_intervals, mmp_sequence = sequence,
            mmp_write_interval = write_interval\<rparr>))))
      else Err (MmpInvalidMagic magic))"

definition uberblock_mmp_from_decoder :: "binary_decoder \<Rightarrow> (buffer, mmp_decode_error, uberblock_mmp option) step" where
  "uberblock_mmp_from_decoder d =
     bindD (liftD MmpEndian (get_u64 d)) (\<lambda>magic.
     bindD (liftD MmpEndian (get_u64 d)) (\<lambda>delay.
     bindD (liftD MmpEndian (get_u64 d)) (\<lambda>config.
     resultD (uberblock_mmp_parse magic delay config))))"

definition mmp_config :: "uberblock_mmp \<Rightarrow> u64" where
  "mmp_config m =
     (case mmp_fail_intervals m of Some v \<Rightarrow> push_bit 48 (ucast v) OR CONFIG_FAIL_INTERVALS_BIT_FLAG | None \<Rightarrow> 0)
     OR (case mmp_sequence m of Some v \<Rightarrow> push_bit 32 (ucast v) OR CONFIG_SEQUENCE_BIT_FLAG | None \<Rightarrow> 0)
     OR (case mmp_write_interval m of Some v \<Rightarrow> push_bit 8 (ucast v) OR CONFIG_WRITE_INTERVAL_BIT_FLAG | None \<Rightarrow> 0)"

definition uberblock_mmp_to_encoder ::
  "binary_encoder \<Rightarrow> uberblock_mmp \<Rightarrow> (enc_buffer, mmp_encode_error, unit) step" where
  "uberblock_mmp_to_encoder e m =
     bindD (liftD MmpEncBinary (put_u64 e MMP_MAGIC)) (\<lambda>_.
     bindD (liftD MmpEncBinary (put_u64 e (mmp_delay m))) (\<lambda>_.
     case mmp_write_interval m of
       Some v \<Rightarrow>
         if ucast v > CONFIG_WRITE_INTERVAL_MASK_DOWN_SHIFTED then failD (MmpEncWriteIntervalTooLarge v)
         else liftD MmpEncBinary (put_u64 e (mmp_config m))
     | None \<Rightarrow> liftD MmpEncBinary (put_u64 e (mmp_config m))))"

section \<open>Uberblocks\<close>

record uberblock =
  ub_checkpoint_txg :: u64
  ub_raidz_reflow_info :: u64
  ub_order :: endian_order
  ub_guid_sum :: u64
  ub_mmp :: "uberblock_mmp option"
  ub_ptr :: block_pointer
  ub_software_version :: "spa_version option"
  ub_timestamp :: u64
  ub_txg :: u64
  ub_version :: spa_version

definition UBERBLOCK_MAGIC :: u64 where "UBERBLOCK_MAGIC = 0x0000000000bab10c"

datatype uberblock_decode_error =
    UbBinary binary_decode_error
  | UbBlockPointer bp_decode_error
  | UbEmptyBlockPointer
  | UbLabelVerify label_verify_error
  | UbSpaVersion u64
  | UbMmp mmp_decode_error

datatype uberblock_encode_error =
    UbEncBinary binary_encode_error
  | UbEncBlockPointer bp_encode_error
  | UbEncLabelChecksum label_checksum_error
  | UbEncMmp mmp_encode_error

definition is_newer_than :: "uberblock \<Rightarrow> uberblock \<Rightarrow> bool" where
  "is_newer_than a b \<longleftrightarrow> ub_txg a > ub_txg b \<or> (ub_txg a = ub_txg b \<and> ub_timestamp a > ub_timestamp b)"

definition get_shift_from_version_ashift :: "spa_version \<Rightarrow> u64 \<Rightarrow> nat" where
  "get_shift_from_version_ashift version ashift =
     (let min_shift = 10;
          max_shift = (case version of Spa_V1 \<Rightarrow> 10 | Spa_V5000 \<Rightarrow> 13 | _ \<Rightarrow> 17) in
      unat (min max_shift (max min_shift ashift)))"

definition uberblock_bytes_are_empty :: "bytes \<Rightarrow> bool \<Rightarrow> bool" where
  "uberblock_bytes_are_empty bs exclude_checksum =
     (case skip_zeros LittleEndianDecoder 8 (buf_from_bytes bs) of
        Ok (_, b) \<Rightarrow>
          (case skip LittleEndianDecoder 8 b of
             Ok (_, b) \<Rightarrow>
               let excluded_length = (if exclude_checksum then CHECKSUM_TAIL_SIZE else 0) in
               buf_len b \<ge> excluded_length \<and> is_ok (skip_zeros LittleEndianDecoder (buf_len b - excluded_length) b)
           | _ \<Rightarrow> False)
      | _ \<Rightarrow> False)"

text \<open>The fields between the magic number and the padding.\<close>

definition uberblock_fields_from_decoder ::
  "binary_decoder \<Rightarrow> endian_order \<Rightarrow> (buffer, uberblock_decode_error, uberblock) step" where
  "uberblock_fields_from_decoder d order =
     bindD (liftD UbBinary (get_u64 d)) (\<lambda>version.
     bindD (liftD UbSpaVersion (resultD (spa_version_try_from version))) (\<lambda>version.
     bindD (liftD UbBinary (get_u64 d)) (\<lambda>txg.
     bindD (liftD UbBinary (get_u64 d)) (\<lambda>guid_sum.
     bindD (liftD UbBinary (get_u64 d)) (\<lambda>timestamp.
     bindD (liftD UbBlockPointer (block_pointer_from_decoder d)) (\<lambda>block_ptr.
     bindD ((case block_ptr of Some ptr \<Rightarrow> returnD ptr | None \<Rightarrow> failD UbEmptyBlockPointer)) (\<lambda>block_ptr.
     bindD (liftD UbBinary (get_u64 d)) (\<lambda>software_version.
     bindD ((if software_version = 0 then returnD None
        else bindD (liftD UbSpaVersion (resultD (spa_version_try_from software_version))) (\<lambda>v. returnD (Some v)))) (\<lambda>software_version.
     bindD (liftD UbMmp (uberblock_mmp_from_decoder d)) (\<lambda>mmp.
     bindD (liftD UbBinary (get_u64 d)) (\<lambda>checkpoint_txg.
     bindD (liftD UbBinary (get_u64 d)) (\<lambda>raidz_reflow_info.
     returnD \<lparr>
       ub_checkpoint_txg = checkpoint_txg,
       ub_raidz_reflow_info = raidz_reflow_info,
       ub_order = order,
       ub_guid_sum = guid_sum,
       ub_mmp = mmp,
       ub_ptr = block_ptr,
       ub_software_version = software_version,
       ub_timestamp = timestamp,
       ub_txg = txg,
       ub_version = version\<rparr>))))))))))))"

definition uberblock_padding_from_decoder ::
  "binary_decoder \<Rightarrow> nat \<Rightarrow> (buffer, uberblock_decode_error, unit) step" where
  "uberblock_padding_from_decoder d bytes_len =
     bindD (queryD (\<lambda>b. b)) (\<lambda>b.
     if buf_len b < CHECKSUM_TAIL_SIZE
     then failD (UbBinary (EndOfInput (buf_offset b) bytes_len (buf_capacity b) CHECKSUM_TAIL_SIZE))
     else liftD UbBinary (skip_zeros d (buf_len b - CHECKSUM_TAIL_SIZE)))"

definition uberblock_from_bytes ::
  "bytes \<Rightarrow> u64 \<Rightarrow> sha256 \<Rightarrow> (uberblock_decode_error, uberblock option) result" where
  "uberblock_from_bytes bs offset sha =
     (case label_verify bs offset sha of
        Err err \<Rightarrow> if uberblock_bytes_are_empty bs False then Ok None else Err (UbLabelVerify err)
      | Panic \<Rightarrow> Panic
      | Ok () \<Rightarrow>
          (case from_u64_magic bs UBERBLOCK_MAGIC of
             Panic \<Rightarrow> Panic
           | Err (InvalidU64Magic expected actual) \<Rightarrow>
               if uberblock_bytes_are_empty bs True then Ok None else Err (UbBinary (InvalidU64Magic expected actual))
           | Err err \<Rightarrow> Err (UbBinary err)
           | Ok (order, b) \<Rightarrow>
               let d = endian_decoder order in
               and_then (bindD (uberblock_fields_from_decoder d order) (\<lambda>ub.
                         bindD (uberblock_padding_from_decoder d (length bs)) (\<lambda>_. returnD (Some ub))) b)
                 (\<lambda>r. Ok (fst r))))"

definition uberblock_to_encoder ::
  "binary_encoder \<Rightarrow> uberblock \<Rightarrow> (enc_buffer, uberblock_encode_error, unit) step" where
  "uberblock_to_encoder e ub =
     bindD (liftD UbEncBinary (put_u64 e UBERBLOCK_MAGIC)) (\<lambda>_.
     bindD (liftD UbEncBinary (put_u64 e (spa_version_to_u64 (ub_version ub)))) (\<lambda>_.
     bindD (liftD UbEncBinary (put_u64 e (ub_txg ub))) (\<lambda>_.
     bindD (liftD UbEncBinary (put_u64 e (ub_guid_sum ub))) (\<lambda>_.
     bindD (liftD UbEncBinary (put_u64 e (ub_timestamp ub))) (\<lambda>_.
     bindD (liftD UbEncBlockPointer (block_pointer_to_encoder e (ub_ptr ub))) (\<lambda>_.
     bindD (liftD UbEncBinary (put_u64 e (case ub_software_version ub of Some v \<Rightarrow> spa_version_to_u64 v | None \<Rightarrow> 0))) (\<lambda>_.
     bindD ((case ub_mmp ub of
         Some mmp \<Rightarrow> liftD UbEncMmp (uberblock_mmp_to_encoder e mmp)
       | None \<Rightarrow> liftD UbEncBinary (put_zeros e 24))) (\<lambda>_.
     bindD (liftD UbEncBinary (put_u64 e (ub_checkpoint_txg ub))) (\<lambda>_.
     liftD UbEncBinary (put_u64 e (ub_raidz_reflow_info ub)))))))))))"

definition uberblock_padding_to_encoder :: "binary_encoder \<Rightarrow> (enc_buffer, uberblock_encode_error, unit) step" where
  "uberblock_padding_to_encoder e b =
     (if enc_available b < CHECKSUM_TAIL_SIZE
      then Err (UbEncBinary (EndOfOutput (enc_offset b) (length (enc_data b)) CHECKSUM_TAIL_SIZE))
      else liftD UbEncBinary (put_zeros e (enc_available b - CHECKSUM_TAIL_SIZE)) b)"

definition uberblock_to_bytes ::
  "uberblock \<Rightarrow> bytes \<Rightarrow> u64 \<Rightarrow> sha256 \<Rightarrow> (uberblock_encode_error, bytes) result" where
  "uberblock_to_bytes ub bs offset sha =
     (let e = endian_encoder (ub_order ub) in
      and_then (bindD (uberblock_to_encoder e ub) (\<lambda>_. uberblock_padding_to_encoder e) (enc_to_bytes bs)) (\<lambda>(_, eb).
      map_err UbEncLabelChecksum (label_checksum (enc_data eb) offset sha (ub_order ub))))"

section \<open>Safety\<close>

context decoder_contract
begin

lemma uberblock_mmp_parse_not_Panic: "uberblock_mmp_parse magic delay config \<noteq> Panic"
  by (auto simp: uberblock_mmp_parse_def mmp_optional_def Let_def and_then_Panic_iff)

lemma uberblock_mmp_safe: "safe_dec (uberblock_mmp_from_decoder d)"
  unfolding uberblock_mmp_from_decoder_def by (intro dec_safe methods uberblock_mmp_parse_not_Panic)

lemma uberblock_fields_safe: "safe_dec (uberblock_fields_from_decoder d order)"
  unfolding uberblock_fields_from_decoder_def
  by (intro dec_safe methods block_pointer_safe uberblock_mmp_safe) (auto split: option.split)

lemma uberblock_padding_safe: "safe_dec (uberblock_padding_from_decoder d n)"
  unfolding uberblock_padding_from_decoder_def by (intro dec_safe methods)

end

lemma checksum_tail_from_bytes_not_Panic: "checksum_tail_from_bytes bs \<noteq> Panic"
proof -
  have "checksum_value_from_decoder (endian_decoder ord) b \<noteq> Panic" if "from_u64_magic bs CHECKSUM_TAIL_MAGIC = Ok (ord, b)" for ord b
    using that from_u64_magic_wf
    by (intro safe_decD(1)[OF decoder_contract.checksum_value_safe[OF endian_decoder_contract]]) auto
  then show ?thesis
    by (auto simp: checksum_tail_from_bytes_def and_then_Panic_iff from_u64_magic_not_Panic)
qed

lemma label_verify_not_Panic: "label_verify data off sha \<noteq> Panic"
  by (auto simp: label_verify_def Let_def and_then_Panic_iff slice_Panic_iff slice_get_def CHECKSUM_TAIL_SIZE_def
      checksum_tail_from_bytes_not_Panic offset_tail_eq)

lemma uberblock_from_bytes_not_Panic: "uberblock_from_bytes bs off sha \<noteq> Panic"
proof -
  have "bindD (uberblock_fields_from_decoder (endian_decoder ord) ord) (\<lambda>ub.
      bindD (uberblock_padding_from_decoder (endian_decoder ord) n) (\<lambda>_. returnD (Some ub))) b \<noteq> Panic"
    if "wf_buf b" for ord n b
    by (intro safe_decD(1)[OF _ that] dec_safe decoder_contract.uberblock_fields_safe[OF endian_decoder_contract]
        decoder_contract.uberblock_padding_safe[OF endian_decoder_contract])
  then show ?thesis
    using label_verify_not_Panic[of bs off sha] from_u64_magic_not_Panic[of bs UBERBLOCK_MAGIC] from_u64_magic_wf[of bs UBERBLOCK_MAGIC]
    by (auto simp: uberblock_from_bytes_def Let_def and_then_Panic_iff split: result.splits binary_decode_error.splits unit.splits)
qed

end
