(* ===== verification/Uberblock_Props.thy ===== *)
theory Uberblock_Props
  imports Uberblock
begin

text \<open>Properties of uberblocks: the round trip through their self-checksummed bytes, and their order.\<close>

section \<open>The configuration word\<close>

lemma mmp_flag_defs:
  "CONFIG_WRITE_INTERVAL_BIT_FLAG = push_bit 0 1" "CONFIG_SEQUENCE_BIT_FLAG = push_bit 1 1"
  "CONFIG_FAIL_INTERVALS_BIT_FLAG = push_bit 2 1"
  by (simp_all add: CONFIG_WRITE_INTERVAL_BIT_FLAG_def CONFIG_SEQUENCE_BIT_FLAG_def CONFIG_FAIL_INTERVALS_BIT_FLAG_def)

lemma bit_mmp_flags [simp]:
  "bit CONFIG_WRITE_INTERVAL_BIT_FLAG n \<longleftrightarrow> n = 0" "bit CONFIG_SEQUENCE_BIT_FLAG n \<longleftrightarrow> n = 1"
  "bit CONFIG_FAIL_INTERVALS_BIT_FLAG n \<longleftrightarrow> n = 2"
  unfolding mmp_flag_defs by (auto simp only: bit_push_bit_iff bit_1_iff possible_bit_word) auto

lemma mmp_flags:
  "(w AND CONFIG_WRITE_INTERVAL_BIT_FLAG \<noteq> 0) = bit w 0" "(w AND CONFIG_SEQUENCE_BIT_FLAG \<noteq> 0) = bit w 1"
  "(w AND CONFIG_FAIL_INTERVALS_BIT_FLAG \<noteq> 0) = bit w 2"
  unfolding mmp_flag_defs by (simp_all only: push_bit_of_1 flag_bit)

lemma reserved_mask: "CONFIG_RESERVED_MASK = mask 8 AND NOT (mask 3)"
  by (simp add: CONFIG_RESERVED_MASK_def CONFIG_WRITE_INTERVAL_BIT_FLAG_def CONFIG_SEQUENCE_BIT_FLAG_def
      CONFIG_FAIL_INTERVALS_BIT_FLAG_def mask_numeral)

lemma write_interval_mask: "w AND CONFIG_WRITE_INTERVAL_MASK_DOWN_SHIFTED = take_bit 24 (w :: u64)"
  by (simp add: CONFIG_WRITE_INTERVAL_MASK_DOWN_SHIFTED_def take_bit_eq_mask mask_numeral)

definition wf_mmp :: "uberblock_mmp \<Rightarrow> bool" where
  "wf_mmp m \<longleftrightarrow> (case mmp_write_interval m of None \<Rightarrow> True | Some v \<Rightarrow> unat v < 2 ^ 24)"

lemma mmp_config_bits:
  assumes "wf_mmp m"
  shows "bit (mmp_config m) 0 = (mmp_write_interval m \<noteq> None)" "bit (mmp_config m) 1 = (mmp_sequence m \<noteq> None)"
    "bit (mmp_config m) 2 = (mmp_fail_intervals m \<noteq> None)" "mmp_config m AND CONFIG_RESERVED_MASK = 0"
    "(ucast (drop_bit 48 (mmp_config m)) :: u16) = (case mmp_fail_intervals m of None \<Rightarrow> 0 | Some v \<Rightarrow> v)"
    "(ucast (drop_bit 32 (mmp_config m)) :: u16) = (case mmp_sequence m of None \<Rightarrow> 0 | Some v \<Rightarrow> v)"
    "(ucast (take_bit 24 (drop_bit 8 (mmp_config m))) :: u32) = (case mmp_write_interval m of None \<Rightarrow> 0 | Some v \<Rightarrow> v)"
proof -
  have below: "i < 24" if "mmp_write_interval m = Some v" "bit v i" for v i
    using assms that bit_below[of v 24 i] by (simp add: wf_mmp_def)
  show "bit (mmp_config m) 0 = (mmp_write_interval m \<noteq> None)" "bit (mmp_config m) 1 = (mmp_sequence m \<noteq> None)"
    "bit (mmp_config m) 2 = (mmp_fail_intervals m \<noteq> None)"
    by (auto simp: mmp_config_def bit_simps split: option.split)
  show "mmp_config m AND CONFIG_RESERVED_MASK = 0" unfolding reserved_mask
    by (rule bit_word_eqI) (auto simp: mmp_config_def bit_simps split: option.splits)
  show "(ucast (drop_bit 48 (mmp_config m)) :: u16) = (case mmp_fail_intervals m of None \<Rightarrow> 0 | Some v \<Rightarrow> v)"
    "(ucast (drop_bit 32 (mmp_config m)) :: u16) = (case mmp_sequence m of None \<Rightarrow> 0 | Some v \<Rightarrow> v)"
    "(ucast (take_bit 24 (drop_bit 8 (mmp_config m))) :: u32) = (case mmp_write_interval m of None \<Rightarrow> 0 | Some v \<Rightarrow> v)"
    by (rule bit_word_eqI; auto simp: mmp_config_def bit_simps split: option.splits dest: below bit_imp_le_length)+
qed

lemma mmp_parse_config:
  assumes "wf_mmp m"
  shows "uberblock_mmp_parse MMP_MAGIC (mmp_delay m) (mmp_config m) = Ok (Some m)"
  using mmp_config_bits[OF assms]
  by (cases m) (simp add: uberblock_mmp_parse_def mmp_optional_def mmp_flags write_interval_mask MMP_MAGIC_def Let_def
      split: option.split)

section \<open>Round trip\<close>

definition mmp_bytes :: "endian_order \<Rightarrow> uberblock_mmp option \<Rightarrow> bytes" where
  "mmp_bytes ord m = (case m of
     None \<Rightarrow> replicate 24 0
   | Some m \<Rightarrow> word_bytes ord 8 MMP_MAGIC @ word_bytes ord 8 (mmp_delay m) @ word_bytes ord 8 (mmp_config m))"

lemma word_bytes_0: "word_bytes ord n (0 :: 'a::len word) = replicate n 0"
proof -
  have "le_bytes n (0 :: 'a word) = replicate n 0"
    by (induction n) simp_all
  then show ?thesis
    by (cases ord) (simp_all add: word_bytes_def be_bytes_def)
qed

lemma mmp_reads:
  assumes "case m of None \<Rightarrow> True | Some m \<Rightarrow> wf_mmp m"
  shows "reads (uberblock_mmp_from_decoder (endian_decoder ord)) (mmp_bytes ord m) m"
proof -
  note get = reads_bindD[OF reads_liftD[OF endian_get_u64]]
  note last = reads_bindD_last[OF reads_liftD[OF endian_get_u64]]
  show ?thesis
  proof (cases m)
    case None
    have bytes: "mmp_bytes ord m = word_bytes ord 8 (0 :: u64) @ word_bytes ord 8 (0 :: u64) @ word_bytes ord 8 (0 :: u64)"
      by (simp add: None mmp_bytes_def word_bytes_0 replicate_add[symmetric])
    show ?thesis unfolding bytes uberblock_mmp_from_decoder_def unfolding None
      by (intro get last reads_resultD) (simp add: uberblock_mmp_parse_def)
  next
    case (Some w)
    then show ?thesis unfolding mmp_bytes_def uberblock_mmp_from_decoder_def Some option.case
      using assms unfolding Some by (intro get last reads_resultD) (simp add: mmp_parse_config)
  qed
qed

lemma mmp_interval_fits:
  "wf_mmp m \<Longrightarrow> mmp_write_interval m = Some v \<Longrightarrow> \<not> (ucast v :: u64) > CONFIG_WRITE_INTERVAL_MASK_DOWN_SHIFTED"
  by (simp add: wf_mmp_def CONFIG_WRITE_INTERVAL_MASK_DOWN_SHIFTED_def word_less_nat_alt unat_ucast_up)

lemma mmp_writes:
  assumes "wf_mmp m"
  shows "writes (uberblock_mmp_to_encoder (endian_encoder ord) m) (mmp_bytes ord (Some m))"
  unfolding uberblock_mmp_to_encoder_def mmp_bytes_def option.case
  using mmp_interval_fits[OF assms]
  by (intro writes_bindD writes_liftD endian_put_u64) (auto split: option.split intro: writes_liftD endian_put_u64)

definition wf_uberblock :: "uberblock \<Rightarrow> bool" where
  "wf_uberblock ub \<longleftrightarrow> wf_block_pointer (ub_ptr ub) \<and> block_pointer_bytes (ub_order ub) (ub_ptr ub) \<noteq> replicate 128 0 \<and>
     (case ub_mmp ub of None \<Rightarrow> True | Some m \<Rightarrow> wf_mmp m)"

definition uberblock_field_bytes :: "uberblock \<Rightarrow> bytes" where
  "uberblock_field_bytes ub = (let ord = ub_order ub; u = (word_bytes ord 8 :: u64 \<Rightarrow> bytes) in
     u (spa_version_to_u64 (ub_version ub)) @ u (ub_txg ub) @ u (ub_guid_sum ub) @ u (ub_timestamp ub) @
     block_pointer_bytes ord (ub_ptr ub) @
     u (case ub_software_version ub of Some v \<Rightarrow> spa_version_to_u64 v | None \<Rightarrow> 0) @
     mmp_bytes ord (ub_mmp ub) @ u (ub_checkpoint_txg ub) @ u (ub_raidz_reflow_info ub))"

lemma length_mmp_bytes [simp]: "length (mmp_bytes ord m) = 24"
  by (simp add: mmp_bytes_def split: option.split)

lemma length_uberblock_field_bytes: "wf_uberblock ub \<Longrightarrow> length (uberblock_field_bytes ub) = 208"
  by (simp add: uberblock_field_bytes_def Let_def wf_uberblock_def length_block_pointer_bytes)

lemma uberblock_fields_reads:
  assumes "wf_uberblock ub"
  shows "reads (uberblock_fields_from_decoder (endian_decoder (ub_order ub)) (ub_order ub)) (uberblock_field_bytes ub) ub"
proof -
  let ?ord = "ub_order ub"
  have ptr: "reads (block_pointer_from_decoder (endian_decoder ?ord)) (block_pointer_bytes ?ord (ub_ptr ub)) (Some (ub_ptr ub))"
  proof (rule block_pointer_reads)
    show wf: "wf_block_pointer (ub_ptr ub)"
      using assms by (simp add: wf_uberblock_def)
    show "\<exists>x \<in> set (block_pointer_bytes ?ord (ub_ptr ub)). x \<noteq> 0"
      using assms length_block_pointer_bytes[OF wf, of ?ord] unfolding wf_uberblock_def by (metis replicate_length_same)
  qed
  have mmp: "case ub_mmp ub of None \<Rightarrow> True | Some m \<Rightarrow> wf_mmp m"
    using assms by (simp add: wf_uberblock_def)
  have sw: "reads (if v = 0 then returnD None
        else bindD (liftD UbSpaVersion (resultD (spa_version_try_from v))) (\<lambda>v. returnD (Some v))) [] s"
    if "v = (case s of Some v \<Rightarrow> spa_version_to_u64 v | None \<Rightarrow> 0)" for v s
    using that by (cases s) (auto intro!: reads_returnD reads_bindD_nil[OF reads_liftD[OF reads_resultD]])
  note get = reads_bindD[OF reads_liftD[OF endian_get_u64]]
  note last = reads_bindD_last[OF reads_liftD[OF endian_get_u64]]
  show ?thesis
    unfolding uberblock_fields_from_decoder_def uberblock_field_bytes_def Let_def
    apply (rule get, rule reads_bindD_nil[OF reads_liftD[OF reads_resultD[OF spa_version_try_from_to]]])
    apply (rule get, rule get, rule get, rule reads_bindD[OF reads_liftD[OF ptr]], simp only: option.case,
        rule reads_bindD_nil[OF reads_returnD])
    apply (rule get, rule reads_bindD_nil[OF sw[OF refl]], rule reads_bindD[OF reads_liftD[OF mmp_reads[OF mmp]]])
    apply (rule get, rule last, rule reads_returnD_eq, simp)
    done
qed

lemma uberblock_writes:
  assumes "wf_uberblock ub"
  shows "writes (uberblock_to_encoder (endian_encoder (ub_order ub)) ub)
    (word_bytes (ub_order ub) 8 UBERBLOCK_MAGIC @ uberblock_field_bytes ub)"
proof -
  let ?e = "endian_encoder (ub_order ub)"
  have "writes (case ub_mmp ub of Some mmp \<Rightarrow> liftD UbEncMmp (uberblock_mmp_to_encoder ?e mmp)
      | None \<Rightarrow> liftD UbEncBinary (put_zeros ?e 24)) (mmp_bytes (ub_order ub) (ub_mmp ub))"
  proof (cases "ub_mmp ub")
    case None
    then show ?thesis
      by (simp add: mmp_bytes_def writes_liftD writes_put_zeros)
  next
    case (Some m)
    then show ?thesis
      using assms by (simp add: wf_uberblock_def writes_liftD mmp_writes)
  qed
  moreover have "wf_block_pointer (ub_ptr ub)"
    using assms by (simp add: wf_uberblock_def)
  ultimately show ?thesis
    unfolding uberblock_to_encoder_def uberblock_field_bytes_def Let_def
    by (intro writes_bindD writes_liftD endian_put_u64 block_pointer_writes)
qed

lemma uberblock_magic_asymmetric: "le_word (be_bytes 8 UBERBLOCK_MAGIC) \<noteq> UBERBLOCK_MAGIC"
  by code_simp

definition uberblock_prefix :: "uberblock \<Rightarrow> nat \<Rightarrow> bytes" where
  "uberblock_prefix ub n = word_bytes (ub_order ub) 8 UBERBLOCK_MAGIC @ uberblock_field_bytes ub @ replicate (n - 256) 0"

lemma uberblock_to_bytes_eq:
  assumes "wf_uberblock ub" "length dst \<ge> 256"
  shows "\<exists>rest. length rest = 40 \<and> uberblock_to_bytes ub dst off sha =
    map_err UbEncLabelChecksum (label_checksum (uberblock_prefix ub (length dst) @ rest) off sha (ub_order ub))"
proof -
  let ?e = "endian_encoder (ub_order ub)" and ?bs = "word_bytes (ub_order ub) 8 UBERBLOCK_MAGIC @ uberblock_field_bytes ub"
  have len: "length ?bs = 216"
    by (simp add: length_uberblock_field_bytes[OF assms(1)])
  let ?eb = "\<lparr>enc_data = overwrite dst 0 ?bs, enc_offset = 216\<rparr>"
  have "uberblock_to_encoder ?e ub (enc_to_bytes dst) = Ok ((), ?eb)"
    using uberblock_writes[OF assms(1)] len assms(2) by (simp add: writes_def enc_to_bytes_def)
  moreover have "uberblock_padding_to_encoder ?e ?eb =
      Ok ((), \<lparr>enc_data = overwrite (overwrite dst 0 ?bs) 216 (replicate (length dst - 256) 0), enc_offset = length dst - 40\<rparr>)"
    using len assms(2) writes_put_zeros[of "length dst - 256"]
    by (simp add: uberblock_padding_to_encoder_def enc_available_def length_overwrite CHECKSUM_TAIL_SIZE_def liftD_def writes_def)
  moreover have "overwrite (overwrite dst 0 ?bs) 216 (replicate (length dst - 256) 0) =
      uberblock_prefix ub (length dst) @ drop (length dst - 40) dst"
    using len assms(2) overwrite_overwrite[of 0 ?bs "replicate (length dst - 256) 0" dst]
    by (simp add: uberblock_prefix_def overwrite_def)
  ultimately show ?thesis
    using assms(2) by (intro exI[of _ "drop (length dst - 40) dst"]) (simp add: uberblock_to_bytes_def Let_def bindD_def)
qed

lemma length_uberblock_prefix: "wf_uberblock ub \<Longrightarrow> n \<ge> 256 \<Longrightarrow> length (uberblock_prefix ub n) = n - 40"
  by (simp add: uberblock_prefix_def length_uberblock_field_bytes)

lemma uberblock_from_prefix:
  assumes "wf_uberblock ub" "length dst \<ge> 256" "length tail = 40"
    and "label_verify (uberblock_prefix ub (length dst) @ tail) off sha = Ok ()"
  shows "uberblock_from_bytes (uberblock_prefix ub (length dst) @ tail) off sha = Ok (Some ub)"
proof -
  let ?bs = "uberblock_prefix ub (length dst) @ tail" and ?d = "endian_decoder (ub_order ub)"
  let ?b = "\<lambda>n. (buf_from_bytes ?bs)\<lparr>buf_offset := n\<rparr>"
  have len: "length ?bs = length dst"
    using assms by (simp add: length_uberblock_prefix)
  have magic: "from_u64_magic ?bs UBERBLOCK_MAGIC = Ok (ub_order ub, ?b 8)"
    by (rule from_u64_magic_order[OF _ uberblock_magic_asymmetric]) (simp add: uberblock_prefix_def)
  have fields: "uberblock_fields_from_decoder ?d (ub_order ub) (?b 8) = Ok (ub, ?b 216)"
    using readsD[OF uberblock_fields_reads[OF assms(1)], of "?b 8"] assms(2) len
    by (simp add: length_uberblock_field_bytes[OF assms(1)] wf_buf_def buf_from_bytes_def uberblock_prefix_def)
  have "buf_skip_zeros (length dst - 256) (?b 216) = Ok ((), ?b (length dst - 40))"
    using readsD[OF reads_buf_skip_zeros[of "length dst - 256"], of "?b 216"] assms(2) len
    by (simp add: length_uberblock_field_bytes[OF assms(1)] wf_buf_def buf_from_bytes_def uberblock_prefix_def)
  moreover have "\<not> length dst - 216 < 40"
    using assms(2) by linarith
  ultimately have "uberblock_padding_from_decoder ?d (length ?bs) (?b 216) = Ok ((), ?b (length dst - 40))"
    using len assms(2)
    by (simp add: uberblock_padding_from_decoder_def queryD_def bindD_def buf_len_def buf_from_bytes_def
        CHECKSUM_TAIL_SIZE_def liftD_def)
  with fields have "bindD (uberblock_fields_from_decoder ?d (ub_order ub)) (\<lambda>ub.
      bindD (uberblock_padding_from_decoder ?d (length ?bs)) (\<lambda>_. returnD (Some ub))) (?b 8) = Ok (Some ub, ?b (length dst - 40))"
    by (simp only: bindD_def and_then.simps prod.case returnD_def)
  then show ?thesis
    unfolding uberblock_from_bytes_def Let_def assms(4) magic result.case unit.case prod.case by simp
qed

section \<open>Properties\<close>

lemma uberblock_written:
  assumes "wf_uberblock ub" "length dst \<ge> 256"
  shows "\<exists>bs. uberblock_to_bytes ub dst off sha = Ok bs \<and> length bs = length dst \<and>
    uberblock_from_bytes bs off sha' = Ok (Some ub)"
proof -
  obtain rest where rest: "length rest = 40" "uberblock_to_bytes ub dst off sha =
      map_err UbEncLabelChecksum (label_checksum (uberblock_prefix ub (length dst) @ rest) off sha (ub_order ub))"
    using uberblock_to_bytes_eq[OF assms] by blast
  let ?data = "uberblock_prefix ub (length dst) @ rest"
  have len: "length ?data = length dst"
    using assms rest(1) by (simp add: length_uberblock_prefix)
  obtain tail where tail: "label_checksum ?data off sha (ub_order ub) = Ok (uberblock_prefix ub (length dst) @ tail)" "length tail = 40"
    using label_checksum_eq[of ?data off sha "ub_order ub"] len assms rest(1) by (simp add: length_uberblock_prefix)
  from uberblock_from_prefix[OF assms tail(2) label_verify_checksum[OF tail(1)]] tail rest(2) assms show ?thesis
    by (simp add: length_uberblock_prefix)
qed

text \<open>
  C16. Round trip of the uberblock with its self-checksum: a well-formed uberblock is written into any
  slot of at least 256 bytes, in its byte order, and reading the slot at the same device offset
  verifies the checksum and returns the same uberblock.
\<close>

theorem uberblock_roundtrip:
  assumes "wf_uberblock ub" "length dst \<ge> 256"
  shows "\<exists>bs. uberblock_to_bytes ub dst off sha = Ok bs \<and> length bs = length dst \<and>
    uberblock_from_bytes bs off sha' = Ok (Some ub)"
  by (rule uberblock_written[OF assms])

definition sample_uberblock :: uberblock where
  "sample_uberblock = \<lparr>ub_checkpoint_txg = 0, ub_raidz_reflow_info = 0, ub_order = Little, ub_guid_sum = 99,
     ub_mmp = Some \<lparr>mmp_delay = 5, mmp_fail_intervals = Some 10, mmp_sequence = None, mmp_write_interval = Some 1000\<rparr>,
     ub_ptr = Regular sample_bp_regular, ub_software_version = Some Spa_V5000, ub_timestamp = 7, ub_txg = 8,
     ub_version = Spa_V5000\<rparr>"

lemma sample_uberblock_wf: "wf_uberblock sample_uberblock"
proof -
  have "bpr_flags sample_bp_regular \<noteq> 0"
    by code_simp
  then have "\<exists>x \<in> set (block_pointer_bytes Little (Regular sample_bp_regular)). x \<noteq> 0"
    using word_bytes_nonzero[of "bpr_flags sample_bp_regular" Little]
    by (auto simp: block_pointer_bytes_def bp_regular_bytes_def)
  then have "block_pointer_bytes Little (Regular sample_bp_regular) \<noteq> replicate 128 0"
    by (auto simp del: set_replicate simp: in_set_replicate)
  then show ?thesis
    by (simp add: wf_uberblock_def sample_uberblock_def wf_mmp_def wf_block_pointer_def wf_bp_regular_def
        sample_bp_regular_def wf_dva_def word_le_nat_alt unat_ucast_up)
qed

definition sample_sha :: sha256 where
  "sample_sha = \<lparr>sh_bytes_processed = 0, sh_buffer_fill = 0, sh_buffer = replicate 64 0, sh_state = SHA_256_H\<rparr>"

theorem uberblock_roundtrip_witness:
  "\<exists>bs. uberblock_to_bytes sample_uberblock (replicate 1024 0) 256 sample_sha = Ok bs \<and> length bs = length (replicate 1024 (0 :: u8)) \<and>
    uberblock_from_bytes bs 256 sample_sha = Ok (Some sample_uberblock)"
  by (rule uberblock_roundtrip[OF sample_uberblock_wf]) simp

lemma is_newer_than_order:
  "\<not> is_newer_than a a"
  "is_newer_than a b \<Longrightarrow> is_newer_than b c \<Longrightarrow> is_newer_than a c"
  "is_newer_than a b \<or> is_newer_than b a \<or> (ub_txg a = ub_txg b \<and> ub_timestamp a = ub_timestamp b)"
  "is_newer_than a b \<Longrightarrow> \<not> is_newer_than b a"
  by (auto simp: is_newer_than_def)

end
