(* ===== verification/Pool.thy ===== *)
theory Pool
  imports Dataset Uberblock_Props
begin

text \<open>
  Parts of \<open>pool.rs\<close>: the choice of the active uberblock among all slots of all labels of all members,
  and the checks of the features that a reader must understand.
\<close>

definition LABEL_SIZE :: u64 where "LABEL_SIZE = 256 * 1024"
definition LABEL_UBERBLOCK_OFFSET :: u64 where "LABEL_UBERBLOCK_OFFSET = 128 * 1024"
definition UBERBLOCK_ARRAY_SIZE :: nat where "UBERBLOCK_ARRAY_SIZE = 128 * 1024"
definition UBERBLOCK_SHIFT_MIN :: u8 where "UBERBLOCK_SHIFT_MIN = 10"
definition UBERBLOCK_SHIFT_MAX :: u8 where "UBERBLOCK_SHIFT_MAX = 13"

record imported_pool =
  ip_pool_guid :: u64
  ip_pool_name :: bytes
  ip_topology :: topology
  ip_uberblock :: uberblock
  ip_mos_dnode :: dnode
  ip_order :: endian_order

section \<open>Uberblocks\<close>

definition label_offsets :: "u64 \<Rightarrow> u64 list" where
  "label_offsets device_size =
     (let out = [0, LABEL_SIZE];
          dev_end = device_size - device_size mod LABEL_SIZE in
      if dev_end \<ge> 4 * LABEL_SIZE then out @ [dev_end - 2 * LABEL_SIZE, dev_end - LABEL_SIZE] else out)"

text \<open>\<open>let Ok(x) = m else { ... }\<close>: the value, or nothing on an error.\<close>

definition okZ :: "('r, 'a) zio \<Rightarrow> ('r, 'a option) zio" where
  "okZ m ms = (case m ms of
     (Ok x, ms') \<Rightarrow> (Ok (Some x), ms') | (Err e, ms') \<Rightarrow> (Ok None, ms') | (Panic, ms') \<Rightarrow> (Panic, ms'))"

definition keep_newest :: "uberblock \<Rightarrow> uberblock option \<Rightarrow> uberblock option" where
  "keep_newest ub best = (case best of
     Some b \<Rightarrow> if \<not> is_newer_than ub b then Some b else Some ub
   | None \<Rightarrow> Some ub)"

text \<open>
  The three nested loops: the slots at the given offsets of a member, its labels, the members. The hash
  is reset before each use, so its state is not threaded.
\<close>

fun select_slots ::
  "'r env \<Rightarrow> sha256 \<Rightarrow> nat \<Rightarrow> nat \<Rightarrow> u64 list \<Rightarrow> uberblock option \<Rightarrow> ('r, uberblock option) zio" where
  "select_slots E sha slot mi [] best = returnZ best"
| "select_slots E sha slot mi (byte_off # byte_offs) best =
     bindZ (okZ (read_exact E mi byte_off slot 0 ''io_uberblock'')) (\<lambda>buf.
     case buf of
       None \<Rightarrow> select_slots E sha slot mi byte_offs best
     | Some buf \<Rightarrow>
         (case uberblock_from_bytes buf (drop_bit 9 byte_off) sha of
            Ok (Some ub) \<Rightarrow> select_slots E sha slot mi byte_offs (keep_newest ub best)
          | Panic \<Rightarrow> liftZ Panic
          | _ \<Rightarrow> select_slots E sha slot mi byte_offs best))"

definition slot_offsets :: "nat \<Rightarrow> nat \<Rightarrow> u64 \<Rightarrow> u64 list" where
  "slot_offsets slot count label = map (\<lambda>i. label + LABEL_UBERBLOCK_OFFSET + of_nat (i * slot)) [0..<count]"

fun select_labels ::
  "'r env \<Rightarrow> sha256 \<Rightarrow> nat \<Rightarrow> nat \<Rightarrow> nat \<Rightarrow> u64 list \<Rightarrow> uberblock option \<Rightarrow> ('r, uberblock option) zio" where
  "select_labels E sha slot count mi [] best = returnZ best"
| "select_labels E sha slot count mi (label # labels) best =
     bindZ (select_slots E sha slot mi (slot_offsets slot count label) best) (\<lambda>best.
     select_labels E sha slot count mi labels best)"

fun select_members ::
  "'r env \<Rightarrow> sha256 \<Rightarrow> nat \<Rightarrow> nat \<Rightarrow> nat list \<Rightarrow> uberblock option \<Rightarrow> ('r, uberblock option) zio" where
  "select_members E sha slot count [] best ms = returnZ best ms"
| "select_members E sha slot count (mi # mis) best ms =
     (case index_get ms mi of
        None \<Rightarrow> select_members E sha slot count mis best ms
      | Some member \<Rightarrow>
          bindZ (select_labels E sha slot count mi (label_offsets (device_size_bytes member)) best) (\<lambda>best.
          select_members E sha slot count mis best) ms)"

definition select_uberblock :: "'r env \<Rightarrow> topology \<Rightarrow> u8 \<Rightarrow> sha256 \<Rightarrow> ('r, uberblock) zio" where
  "select_uberblock E topo ashift sha =
     (let shift = min UBERBLOCK_SHIFT_MAX (max UBERBLOCK_SHIFT_MIN ashift);
          slot = push_bit (unat shift) 1;
          count = UBERBLOCK_ARRAY_SIZE div slot in
      (
      bindZ (select_members E sha slot count (topology_members topo) None) (\<lambda>best.
      liftZ (ok_or NoValidUberblock best))))"

section \<open>Features\<close>

definition READ_FEATURES_UNDERSTOOD :: "string list" where
  "READ_FEATURES_UNDERSTOOD = [
     ''com.datto:encryption'',
     ''org.illumos:lz4_compress'',
     ''org.freebsd:zstd_compress'',
     ''com.delphix:embedded_data'',
     ''com.delphix:hole_birth'',
     ''org.open-zfs:large_blocks'',
     ''org.zfsonlinux:large_dnode'',
     ''com.delphix:extensible_dataset'',
     ''com.klarasystems:vdev_zaps_v2'',
     ''com.delphix:head_errlog'',
     ''com.delphix:bookmarks'',
     ''com.datto:bookmark_v2'',
     ''com.delphix:bookmark_written'',
     ''com.delphix:redaction_bookmarks'',
     ''com.joyent:multi_vdev_crash_dump'',
     ''org.zfsonlinux:longname'',
     ''org.illumos:sha512'',
     ''org.illumos:skein'',
     ''org.illumos:edonr'',
     ''org.openzfs:blake3'']"

definition REFUSED_FEATURE_TOKENS :: "string list" where
  "REFUSED_FEATURE_TOKENS = [
     ''raidz_expansion'',
     ''device_removal'',
     ''draid'',
     ''dynamic_gang_header'',
     ''redacted_datasets'',
     ''redaction_list_spill'']"

text \<open>\<open>guid.rsplit(':').next()\<close>: what follows the last colon, everything when there is none.\<close>

definition feature_short_name :: "bytes \<Rightarrow> bytes" where
  "feature_short_name guid = rev (takeWhile (\<lambda>b. b \<noteq> 0x3a) (rev guid))"

definition check_read_feature :: "bytes \<Rightarrow> (error, unit) result" where
  "check_read_feature guid =
     (if guid \<in> set (map str_bytes READ_FEATURES_UNDERSTOOD) then Ok ()
      else
        let short = feature_short_name guid in
        Err (UnsupportedFeature (case find (\<lambda>t. str_bytes t = short) REFUSED_FEATURE_TOKENS of
          Some t \<Rightarrow> t | None \<Rightarrow> ''feat_unknown_read_incompat'')))"

fun check_features_loop :: "zap_list \<Rightarrow> (error, unit) result" where
  "check_features_loop [] = Ok ()"
| "check_features_loop ((guid, refcount) # entries) =
     (if refcount \<noteq> 0 then and_then (check_read_feature guid) (\<lambda>_. check_features_loop entries)
      else check_features_loop entries)"

definition check_mos_features ::
  "'r env \<Rightarrow> topology \<Rightarrow> dnode \<Rightarrow> dnode \<Rightarrow> endian_order \<Rightarrow> ('r, unit) zio" where
  "check_mos_features E topo mos objdir order =
     bindZ (zap_lookup E topo objdir (str_bytes ''features_for_read'') order) (\<lambda>obj.
     case obj of
       None \<Rightarrow> returnZ ()
     | Some obj \<Rightarrow>
         bindZ (read_object_dnode E topo mos obj order) (\<lambda>features.
         bindZ (zap_entries E topo features order) (\<lambda>entries.
         liftZ (check_features_loop entries))))"

definition checksum_salt :: "'r env \<Rightarrow> topology \<Rightarrow> dnode \<Rightarrow> endian_order \<Rightarrow> ('r, bytes option) zio" where
  "checksum_salt E topo objdir order =
     bindZ (zap_lookup_bytes E topo objdir (str_bytes ''org.illumos:checksum_salt'') order) (\<lambda>salt.
     case salt of
       None \<Rightarrow> returnZ None
     | Some salt \<Rightarrow>
         if length salt = 32 then returnZ (Some salt) else failZ (Inconsistent ''checksum_salt'' Loc_Mos))"

section \<open>The active uberblock is the newest\<close>

text \<open>
  The abstract view: the uberblocks that verify in the slots of a member, and of all members, in the
  order of the search.
\<close>

definition slot_uberblock :: "'r env \<Rightarrow> sha256 \<Rightarrow> nat \<Rightarrow> 'r pool_member \<Rightarrow> u64 \<Rightarrow> uberblock option" where
  "slot_uberblock E sha slot member byte_off =
     (case fst (read_at E (reader member) byte_off slot) of
        None \<Rightarrow> None
      | Some buf \<Rightarrow> (case uberblock_from_bytes buf (drop_bit 9 byte_off) sha of Ok ub \<Rightarrow> ub | _ \<Rightarrow> None))"

definition member_uberblocks :: "'r env \<Rightarrow> sha256 \<Rightarrow> nat \<Rightarrow> nat \<Rightarrow> 'r pool_member \<Rightarrow> uberblock list" where
  "member_uberblocks E sha slot count member =
     List.map_filter (slot_uberblock E sha slot member)
       (concat (map (slot_offsets slot count) (label_offsets (device_size_bytes member))))"

definition pool_uberblocks :: "'r env \<Rightarrow> sha256 \<Rightarrow> nat \<Rightarrow> nat \<Rightarrow> nat list \<Rightarrow> 'r pool_member list \<Rightarrow> uberblock list" where
  "pool_uberblocks E sha slot count mis ms =
     concat (map (member_uberblocks E sha slot count) (List.map_filter (index_get ms) mis))"

lemma map_filter_append: "List.map_filter f (xs @ ys) = List.map_filter f xs @ List.map_filter f ys"
  by (simp add: List.map_filter_def)

lemma select_slots_steady:
  assumes "steady E" "mi < length ms"
  shows "select_slots E sha slot mi byte_offs best ms =
    (Ok (fold keep_newest (List.map_filter (slot_uberblock E sha slot (ms ! mi)) byte_offs) best), ms)"
proof (induction byte_offs arbitrary: best)
  case Nil
  then show ?case
    by (simp add: returnZ_def map_filter_simps)
next
  case (Cons off offs)
  obtain r s where r: "read_at E (reader (ms ! mi)) off slot = (r, s)"
    by (cases "read_at E (reader (ms ! mi)) off slot")
  have "s = reader (ms ! mi)"
    using assms(1) r unfolding steady_def by (metis snd_conv)
  then have same: "ms[mi := (ms ! mi)\<lparr>reader := s\<rparr>] = ms"
    by (cases "ms ! mi") (metis list_update_id pool_member.update_convs(1) pool_member.select_convs(1))
  show ?case
  proof (cases r)
    case None
    with Cons show ?thesis
      by (simp add: bindZ_def okZ_def read_exact_def r same slot_uberblock_def map_filter_simps)
  next
    case (Some buf)
    with Cons uberblock_from_bytes_not_Panic[of buf "drop_bit 9 off" sha] show ?thesis
      by (cases "uberblock_from_bytes buf (drop_bit 9 off) sha")
        (simp_all add: bindZ_def okZ_def read_exact_def r same slot_uberblock_def map_filter_simps split: option.split)
  qed
qed

lemma select_labels_steady:
  assumes "steady E" "mi < length ms"
  shows "select_labels E sha slot count mi labels best ms =
    (Ok (fold keep_newest (List.map_filter (slot_uberblock E sha slot (ms ! mi)) (concat (map (slot_offsets slot count) labels))) best), ms)"
  by (induction labels arbitrary: best)
    (simp_all add: returnZ_def bindZ_def map_filter_simps map_filter_append select_slots_steady[OF assms])

lemma select_members_steady:
  assumes "steady E"
  shows "select_members E sha slot count mis best ms =
    (Ok (fold keep_newest (pool_uberblocks E sha slot count mis ms) best), ms)"
proof (induction mis arbitrary: best)
  case Nil
  then show ?case
    by (simp add: returnZ_def pool_uberblocks_def map_filter_simps)
next
  case (Cons mi mis)
  then show ?case
    by (cases "mi < length ms") (simp_all add: pool_uberblocks_def map_filter_simps index_get_def bindZ_def
        select_labels_steady[OF assms] member_uberblocks_def)
qed

lemma fold_keep_newest:
  "(fold keep_newest ubs best = None \<longleftrightarrow> ubs = [] \<and> best = None) \<and>
   (\<forall>ub. fold keep_newest ubs best = Some ub \<longrightarrow> ub \<in> set ubs \<union> set_option best \<and>
      (\<forall>ub' \<in> set ubs \<union> set_option best. \<not> is_newer_than ub' ub))"
proof (induction ubs arbitrary: best)
  case Nil
  then show ?case
    by (auto simp: is_newer_than_order(1))
next
  case (Cons x xs)
  show ?case
  proof (cases best)
    case None
    then show ?thesis
      using Cons[of "Some x"] by (simp add: keep_newest_def)
  next
    case (Some b)
    show ?thesis
    proof (cases "is_newer_than x b")
      case True
      have "\<not> is_newer_than b ub" if "\<not> is_newer_than x ub" for ub
        using that True is_newer_than_order(2)[of x b ub] by blast
      moreover have "keep_newest x (Some b) = Some x"
        using True by (simp add: keep_newest_def)
      ultimately show ?thesis
        using Some Cons[of "Some x"] by auto
    next
      case False
      have "\<not> is_newer_than x ub" if "\<not> is_newer_than b ub" for ub
        using that False by (auto simp: is_newer_than_def)
      moreover have "keep_newest x (Some b) = Some b"
        using False by (simp add: keep_newest_def)
      ultimately show ?thesis
        using Some Cons[of "Some b"] by auto
    qed
  qed
qed

definition uberblock_slot_size :: "u8 \<Rightarrow> nat" where
  "uberblock_slot_size ashift = push_bit (unat (min UBERBLOCK_SHIFT_MAX (max UBERBLOCK_SHIFT_MIN ashift))) 1"

text \<open>
  C6. The active uberblock: on devices whose reads do not change them, the selection returns an uberblock that
  verifies in some slot of some label of some member, and no uberblock that verifies anywhere is newer; it
  reports that there is none exactly when none verifies. It never panics and has no other error.
\<close>

theorem select_uberblock_newest:
  assumes "steady E"
  shows "let ubs = pool_uberblocks E sha (uberblock_slot_size ashift) (UBERBLOCK_ARRAY_SIZE div uberblock_slot_size ashift)
           (topology_members topo) ms in
     case fst (select_uberblock E topo ashift sha ms) of
       Ok ub \<Rightarrow> ub \<in> set ubs \<and> list_all (\<lambda>ub'. \<not> is_newer_than ub' ub) ubs
     | Err e \<Rightarrow> e = NoValidUberblock \<and> ubs = []
     | Panic \<Rightarrow> False"
proof -
  let ?ubs = "pool_uberblocks E sha (uberblock_slot_size ashift) (UBERBLOCK_ARRAY_SIZE div uberblock_slot_size ashift)
    (topology_members topo) ms"
  have "select_uberblock E topo ashift sha ms = (ok_or NoValidUberblock (fold keep_newest ?ubs None), ms)"
    by (simp add: select_uberblock_def Let_def bindZ_def liftZ_def select_members_steady[OF assms]
        uberblock_slot_size_def)
  with fold_keep_newest[of ?ubs None] show ?thesis
    by (cases "fold keep_newest ?ubs None") (auto simp: list_all_iff Let_def)
qed

text \<open>A device of which one slot can be read, the first one of the first label.\<close>

definition one_slot_env :: "bytes env" where
  "one_slot_env = mem_env\<lparr>read_at := \<lambda>r off n. (if off = 0x20000 \<and> n = length r then Some r else None, r)\<rparr>"

theorem select_uberblock_newest_witness:
  "\<exists>bs. fst (select_uberblock one_slot_env sample_topology 12 sample_sha [\<lparr>reader = bs, device_size_bytes = 0\<rparr>]) =
     Ok sample_uberblock"
proof -
  obtain bs where bs: "length bs = 4096" "uberblock_from_bytes bs 256 sample_sha = Ok (Some sample_uberblock)"
    using uberblock_written[OF sample_uberblock_wf, of "replicate 4096 0" 256 sample_sha sample_sha] by auto
  let ?member = "\<lparr>reader = bs, device_size_bytes = 0\<rparr>"
  have slot: "slot_uberblock one_slot_env sample_sha 4096 ?member off = (if off = 0x20000 then Some sample_uberblock else None)" for off
    using bs by (simp add: slot_uberblock_def one_slot_env_def)
  have shift: "uberblock_slot_size 12 = 4096"
    by (simp add: uberblock_slot_size_def UBERBLOCK_SHIFT_MIN_def UBERBLOCK_SHIFT_MAX_def)
  have "member_uberblocks one_slot_env sample_sha 4096 32 ?member = [sample_uberblock]"
    by (simp add: member_uberblocks_def slot slot_offsets_def label_offsets_def LABEL_SIZE_def LABEL_UBERBLOCK_OFFSET_def
        upt_rec map_filter_simps)
  then have "pool_uberblocks one_slot_env sample_sha 4096 32 (topology_members sample_topology) [?member] = [sample_uberblock]"
    by (simp add: pool_uberblocks_def topology_members_def sample_topology_def index_get_def map_filter_simps)
  moreover have "steady one_slot_env"
    by (simp add: steady_def one_slot_env_def)
  ultimately show ?thesis
    using select_uberblock_newest[of one_slot_env sample_sha 12 sample_topology "[?member]"]
    by (intro exI[of _ bs], cases "fst (select_uberblock one_slot_env sample_topology 12 sample_sha [?member])")
      (simp_all add: shift UBERBLOCK_ARRAY_SIZE_def)
qed

end
