(* ===== verification/Label.thy ===== *)
theory Label
  imports Pool
begin

text \<open>
  \<open>phys/label.rs\<close>, the sections of a vdev label with their sizes, offsets and checksums, and where the
  four labels of a device are.
\<close>

section \<open>Sizes and offsets\<close>

text \<open>Sizes are in bytes, offsets in sectors.\<close>

definition UBERBLOCK_TOTAL_SIZE :: nat where "UBERBLOCK_TOTAL_SIZE = 131072"

definition LABEL_BLANK_SIZE :: nat where "LABEL_BLANK_SIZE = 8 * 1024"
definition LABEL_BLANK_LABEL_OFFSET :: u64 where "LABEL_BLANK_LABEL_OFFSET = 0"
definition LABEL_BLANK_PAYLOAD_SIZE :: nat where "LABEL_BLANK_PAYLOAD_SIZE = LABEL_BLANK_SIZE"

definition LABEL_BOOT_HEADER_SIZE :: nat where "LABEL_BOOT_HEADER_SIZE = 8 * 1024"
definition LABEL_BOOT_HEADER_LABEL_OFFSET :: u64 where
  "LABEL_BOOT_HEADER_LABEL_OFFSET = LABEL_BLANK_LABEL_OFFSET + of_nat (drop_bit SECTOR_SHIFT LABEL_BLANK_SIZE)"
definition LABEL_BOOT_HEADER_PAYLOAD_SIZE :: nat where
  "LABEL_BOOT_HEADER_PAYLOAD_SIZE = LABEL_BOOT_HEADER_SIZE - CHECKSUM_TAIL_SIZE"

definition LABEL_NV_PAIRS_SIZE :: nat where "LABEL_NV_PAIRS_SIZE = 112 * 1024"
definition LABEL_NV_PAIRS_LABEL_OFFSET :: u64 where
  "LABEL_NV_PAIRS_LABEL_OFFSET = LABEL_BOOT_HEADER_LABEL_OFFSET + of_nat (drop_bit SECTOR_SHIFT LABEL_BOOT_HEADER_SIZE)"
definition LABEL_NV_PAIRS_PAYLOAD_SIZE :: nat where
  "LABEL_NV_PAIRS_PAYLOAD_SIZE = LABEL_NV_PAIRS_SIZE - CHECKSUM_TAIL_SIZE"

definition UBERBLOCK_LABEL_OFFSET :: u64 where
  "UBERBLOCK_LABEL_OFFSET = LABEL_NV_PAIRS_LABEL_OFFSET + of_nat (drop_bit SECTOR_SHIFT LABEL_NV_PAIRS_SIZE)"

definition LABEL_COUNT :: nat where "LABEL_COUNT = 4"
definition LABEL_TOTAL_SIZE :: nat where
  "LABEL_TOTAL_SIZE = LABEL_BLANK_SIZE + LABEL_BOOT_HEADER_SIZE + LABEL_NV_PAIRS_SIZE + UBERBLOCK_TOTAL_SIZE"
definition LABEL_SECTORS :: u64 where "LABEL_SECTORS = of_nat (drop_bit SECTOR_SHIFT LABEL_TOTAL_SIZE)"

definition BOOT_BLOCK_SIZE :: nat where "BOOT_BLOCK_SIZE = 3584 * 1024"
definition BOOT_BLOCK_DEVICE_OFFSET :: u64 where "BOOT_BLOCK_DEVICE_OFFSET = 2 * LABEL_SECTORS"
definition BOOT_BLOCK_PAYLOAD_SIZE :: nat where "BOOT_BLOCK_PAYLOAD_SIZE = BOOT_BLOCK_SIZE"
definition BOOT_BLOCK_SECTORS :: u64 where "BOOT_BLOCK_SECTORS = of_nat (drop_bit SECTOR_SHIFT BOOT_BLOCK_SIZE)"

section \<open>Boot block\<close>

record boot_block =
  bb_payload :: bytes

datatype boot_block_decode_error = BbDecInvalidSize nat

datatype boot_block_encode_error = BbEncInvalidPayloadSize nat | BbEncInvalidSize nat

definition boot_block_from_bytes :: "bytes \<Rightarrow> (boot_block_decode_error, boot_block) result" where
  "boot_block_from_bytes bs =
     (if length bs \<noteq> BOOT_BLOCK_SIZE then Err (BbDecInvalidSize (length bs)) else Ok \<lparr>bb_payload = bs\<rparr>)"

definition boot_block_to_bytes :: "boot_block \<Rightarrow> bytes \<Rightarrow> (boot_block_encode_error, bytes) result" where
  "boot_block_to_bytes h bs =
     (if length bs \<noteq> BOOT_BLOCK_SIZE then Err (BbEncInvalidSize (length bs))
      else if length (bb_payload h) \<noteq> BOOT_BLOCK_PAYLOAD_SIZE then Err (BbEncInvalidPayloadSize (length (bb_payload h)))
      else Ok (overwrite bs 0 (bb_payload h)))"

section \<open>Blank section\<close>

record label_blank =
  lb_payload :: bytes

datatype label_blank_decode_error = LbDecInvalidSize nat

datatype label_blank_encode_error = LbEncInvalidPayloadSize nat | LbEncInvalidSize nat

definition label_blank_from_bytes :: "bytes \<Rightarrow> (label_blank_decode_error, label_blank) result" where
  "label_blank_from_bytes bs =
     (if length bs \<noteq> LABEL_BLANK_SIZE then Err (LbDecInvalidSize (length bs)) else Ok \<lparr>lb_payload = bs\<rparr>)"

definition label_blank_to_bytes :: "label_blank \<Rightarrow> bytes \<Rightarrow> (label_blank_encode_error, bytes) result" where
  "label_blank_to_bytes h bs =
     (if length bs \<noteq> LABEL_BLANK_SIZE then Err (LbEncInvalidSize (length bs))
      else if length (lb_payload h) \<noteq> LABEL_BLANK_PAYLOAD_SIZE then Err (LbEncInvalidPayloadSize (length (lb_payload h)))
      else Ok (overwrite bs 0 (lb_payload h)))"

section \<open>Boot header\<close>

record label_boot_header =
  lbh_payload :: bytes

datatype label_boot_header_decode_error = LbhDecInvalidSize nat | LbhDecLabelVerify label_verify_error

datatype label_boot_header_encode_error =
    LbhEncInvalidPayloadSize nat
  | LbhEncInvalidSize nat
  | LbhEncLabelChecksum label_checksum_error

definition label_boot_header_from_bytes :: "bytes \<Rightarrow> u64 \<Rightarrow> sha256 \<Rightarrow> (label_boot_header_decode_error, label_boot_header) result" where
  "label_boot_header_from_bytes bs offset sha =
     (if length bs \<noteq> LABEL_BOOT_HEADER_SIZE then Err (LbhDecInvalidSize (length bs))
      else
        and_then (map_err LbhDecLabelVerify (label_verify bs offset sha)) (\<lambda>_.
        and_then (slice bs 0 LABEL_BOOT_HEADER_PAYLOAD_SIZE) (\<lambda>payload.
        Ok \<lparr>lbh_payload = payload\<rparr>)))"

definition label_boot_header_to_bytes ::
  "label_boot_header \<Rightarrow> bytes \<Rightarrow> u64 \<Rightarrow> sha256 \<Rightarrow> endian_order \<Rightarrow> (label_boot_header_encode_error, bytes) result" where
  "label_boot_header_to_bytes h bs offset sha order =
     (if length bs \<noteq> LABEL_BOOT_HEADER_SIZE then Err (LbhEncInvalidSize (length bs))
      else if length (lbh_payload h) \<noteq> LABEL_BOOT_HEADER_PAYLOAD_SIZE then Err (LbhEncInvalidPayloadSize (length (lbh_payload h)))
      else map_err LbhEncLabelChecksum (label_checksum (overwrite bs 0 (lbh_payload h)) offset sha order))"

definition label_boot_header_checksum :: "bytes \<Rightarrow> u64 \<Rightarrow> sha256 \<Rightarrow> endian_order \<Rightarrow> (label_boot_header_encode_error, bytes) result" where
  "label_boot_header_checksum bs offset sha order =
     (if length bs \<noteq> LABEL_BOOT_HEADER_SIZE then Err (LbhEncInvalidSize (length bs))
      else map_err LbhEncLabelChecksum (label_checksum bs offset sha order))"

definition label_boot_header_verify :: "bytes \<Rightarrow> u64 \<Rightarrow> sha256 \<Rightarrow> (label_boot_header_decode_error, unit) result" where
  "label_boot_header_verify bs offset sha =
     (if length bs \<noteq> LABEL_BOOT_HEADER_SIZE then Err (LbhDecInvalidSize (length bs))
      else map_err LbhDecLabelVerify (label_verify bs offset sha))"

section \<open>Name/value pairs\<close>

record label_nv_pairs =
  lnv_payload :: bytes

datatype label_nv_pairs_decode_error = LnvDecInvalidSize nat | LnvDecLabelVerify label_verify_error

datatype label_nv_pairs_encode_error =
    LnvEncInvalidPayloadSize nat
  | LnvEncInvalidSize nat
  | LnvEncLabelChecksum label_checksum_error

definition label_nv_pairs_from_bytes :: "bytes \<Rightarrow> u64 \<Rightarrow> sha256 \<Rightarrow> (label_nv_pairs_decode_error, label_nv_pairs) result" where
  "label_nv_pairs_from_bytes bs offset sha =
     (if length bs \<noteq> LABEL_NV_PAIRS_SIZE then Err (LnvDecInvalidSize (length bs))
      else
        and_then (map_err LnvDecLabelVerify (label_verify bs offset sha)) (\<lambda>_.
        and_then (slice bs 0 LABEL_NV_PAIRS_PAYLOAD_SIZE) (\<lambda>payload.
        Ok \<lparr>lnv_payload = payload\<rparr>)))"

definition label_nv_pairs_to_bytes ::
  "label_nv_pairs \<Rightarrow> bytes \<Rightarrow> u64 \<Rightarrow> sha256 \<Rightarrow> endian_order \<Rightarrow> (label_nv_pairs_encode_error, bytes) result" where
  "label_nv_pairs_to_bytes h bs offset sha order =
     (if length bs \<noteq> LABEL_NV_PAIRS_SIZE then Err (LnvEncInvalidSize (length bs))
      else if length (lnv_payload h) \<noteq> LABEL_NV_PAIRS_PAYLOAD_SIZE then Err (LnvEncInvalidPayloadSize (length (lnv_payload h)))
      else map_err LnvEncLabelChecksum (label_checksum (overwrite bs 0 (lnv_payload h)) offset sha order))"

definition label_nv_pairs_checksum :: "bytes \<Rightarrow> u64 \<Rightarrow> sha256 \<Rightarrow> endian_order \<Rightarrow> (label_nv_pairs_encode_error, bytes) result" where
  "label_nv_pairs_checksum bs offset sha order =
     (if length bs \<noteq> LABEL_NV_PAIRS_SIZE then Err (LnvEncInvalidSize (length bs))
      else map_err LnvEncLabelChecksum (label_checksum bs offset sha order))"

definition label_nv_pairs_verify :: "bytes \<Rightarrow> u64 \<Rightarrow> sha256 \<Rightarrow> (label_nv_pairs_decode_error, unit) result" where
  "label_nv_pairs_verify bs offset sha =
     (if length bs \<noteq> LABEL_NV_PAIRS_SIZE then Err (LnvDecInvalidSize (length bs))
      else map_err LnvDecLabelVerify (label_verify bs offset sha))"

section \<open>The labels of a device\<close>

datatype label_sectors_error = LabelTooSmall u64

definition label_sector_offsets :: "u64 \<Rightarrow> (label_sectors_error, u64 list) result" where
  "label_sector_offsets vdev_sectors =
     (if vdev_sectors < LABEL_SECTORS * 4 then Err (LabelTooSmall vdev_sectors)
      else Ok [0, LABEL_SECTORS, vdev_sectors - 2 * LABEL_SECTORS, vdev_sectors - LABEL_SECTORS])"

section \<open>Properties\<close>

lemmas label_sizes = LABEL_BLANK_SIZE_def LABEL_BOOT_HEADER_SIZE_def LABEL_NV_PAIRS_SIZE_def UBERBLOCK_TOTAL_SIZE_def
  LABEL_TOTAL_SIZE_def LABEL_BOOT_HEADER_PAYLOAD_SIZE_def LABEL_NV_PAIRS_PAYLOAD_SIZE_def CHECKSUM_TAIL_SIZE_def
  SECTOR_SHIFT_def

lemma label_sectors: "LABEL_SECTORS = 512"
  by (simp add: LABEL_SECTORS_def label_sizes drop_bit_eq_div)

lemma uberblock_label_offset: "push_bit 9 UBERBLOCK_LABEL_OFFSET = LABEL_UBERBLOCK_OFFSET"
  by (simp add: UBERBLOCK_LABEL_OFFSET_def LABEL_NV_PAIRS_LABEL_OFFSET_def LABEL_BOOT_HEADER_LABEL_OFFSET_def
      LABEL_BLANK_LABEL_OFFSET_def LABEL_UBERBLOCK_OFFSET_def label_sizes drop_bit_eq_div push_bit_eq_mult)

text \<open>A section with a checksum in its last 40 bytes keeps the bytes before it, and verifies.\<close>

lemma label_section:
  assumes "length payload + 40 = length bs"
  obtains bs' where "label_checksum (overwrite bs 0 payload) off sha order = Ok bs'" "length bs' = length bs"
    "take (length payload) bs' = payload" "label_verify bs' off sha' = Ok ()"
proof -
  have len: "length (overwrite bs 0 payload) = length bs"
    using assms by (simp add: length_overwrite)
  have payload: "take (length payload) (overwrite bs 0 payload) = payload" "length bs - 40 = length payload"
    using assms by (simp_all add: overwrite_def)
  obtain tail where bs': "label_checksum (overwrite bs 0 payload) off sha order = Ok (payload @ tail)" "length tail = 40"
    using label_checksum_eq[of "overwrite bs 0 payload" off sha order] assms by (simp add: len payload)
  with that[OF bs'(1)] label_verify_checksum[OF bs'(1)] assms show thesis
    by simp
qed

text \<open>
  C20. Round trip of the checksummed sections of a label: a boot header and a name/value section with a payload of
  the right size are written into a buffer of the section's size, and reading the buffer at the same device
  offset verifies the checksum and returns the section.
\<close>

theorem label_sections_roundtrip:
  assumes "length (lbh_payload h) = LABEL_BOOT_HEADER_PAYLOAD_SIZE" "length bs = LABEL_BOOT_HEADER_SIZE"
    "length (lnv_payload p) = LABEL_NV_PAIRS_PAYLOAD_SIZE" "length cs = LABEL_NV_PAIRS_SIZE"
  shows "(\<exists>bs'. label_boot_header_to_bytes h bs off sha order = Ok bs' \<and> label_boot_header_from_bytes bs' off sha' = Ok h) \<and>
    (\<exists>cs'. label_nv_pairs_to_bytes p cs off sha order = Ok cs' \<and> label_nv_pairs_from_bytes cs' off sha' = Ok p)"
proof
  obtain bs' where "label_checksum (overwrite bs 0 (lbh_payload h)) off sha order = Ok bs'" "length bs' = length bs"
    "take (length (lbh_payload h)) bs' = lbh_payload h" "label_verify bs' off sha' = Ok ()"
    using label_section[of "lbh_payload h" bs off sha order sha'] assms(1,2) by (auto simp: label_sizes)
  with assms(1,2) show "\<exists>bs'. label_boot_header_to_bytes h bs off sha order = Ok bs' \<and> label_boot_header_from_bytes bs' off sha' = Ok h"
    by (simp add: label_boot_header_to_bytes_def label_boot_header_from_bytes_def label_sizes slice_def slice_get_def)
  obtain cs' where "label_checksum (overwrite cs 0 (lnv_payload p)) off sha order = Ok cs'" "length cs' = length cs"
    "take (length (lnv_payload p)) cs' = lnv_payload p" "label_verify cs' off sha' = Ok ()"
    using label_section[of "lnv_payload p" cs off sha order sha'] assms(3,4) by (auto simp: label_sizes)
  with assms(3,4) show "\<exists>cs'. label_nv_pairs_to_bytes p cs off sha order = Ok cs' \<and> label_nv_pairs_from_bytes cs' off sha' = Ok p"
    by (simp add: label_nv_pairs_to_bytes_def label_nv_pairs_from_bytes_def label_sizes slice_def slice_get_def)
qed

theorem label_sections_roundtrip_witness:
  "(\<exists>bs'. label_boot_header_to_bytes \<lparr>lbh_payload = replicate LABEL_BOOT_HEADER_PAYLOAD_SIZE 7\<rparr>
       (replicate LABEL_BOOT_HEADER_SIZE 0) 16 sample_sha Little = Ok bs' \<and>
     label_boot_header_from_bytes bs' 16 sample_sha = Ok \<lparr>lbh_payload = replicate LABEL_BOOT_HEADER_PAYLOAD_SIZE 7\<rparr>) \<and>
   (\<exists>cs'. label_nv_pairs_to_bytes \<lparr>lnv_payload = replicate LABEL_NV_PAIRS_PAYLOAD_SIZE 9\<rparr>
       (replicate LABEL_NV_PAIRS_SIZE 0) 16 sample_sha Little = Ok cs' \<and>
     label_nv_pairs_from_bytes cs' 16 sample_sha = Ok \<lparr>lnv_payload = replicate LABEL_NV_PAIRS_PAYLOAD_SIZE 9\<rparr>)"
  by (rule label_sections_roundtrip) simp_all

lemma word_split:
  fixes x :: u64
  assumes "x mod LABEL_SIZE = 0"
  shows "x div 512 * 512 = x"
proof -
  have "unat x mod 262144 = 0"
    using arg_cong[OF assms, of unat] by (simp add: LABEL_SIZE_def unat_mod)
  then have "262144 dvd unat x"
    by (simp add: dvd_eq_mod_eq_0)
  then have "512 dvd unat x"
    by (rule dvd_trans[rotated]) simp
  then have "unat x mod 512 = 0"
    by simp
  then have "unat (x mod 512) = 0"
    by (simp add: unat_mod)
  then have "x mod 512 = 0"
    by (simp add: unat_eq_zero)
  with div_mult_mod_eq[of x 512] show ?thesis
    by simp
qed

text \<open>
  C19. The two computations of the label offsets agree: on a device whose size is a multiple of the label size
  and that holds four labels, the byte offsets of \<open>pool.rs\<close> are the sector offsets of \<open>Label::offsets\<close>, and the
  four labels do not overlap and end within the device.
\<close>

theorem label_offsets_agree:
  assumes "device_size mod LABEL_SIZE = 0" "device_size \<ge> 4 * LABEL_SIZE"
  shows "(\<exists>sectors. label_sector_offsets (device_size div 512) = Ok sectors \<and> label_offsets device_size = map (\<lambda>s. s * 512) sectors) \<and>
    (\<exists>a b c d. label_offsets device_size = [a, b, c, d] \<and> unat a + unat LABEL_SIZE \<le> unat b \<and> unat b + unat LABEL_SIZE \<le> unat c \<and>
      unat c + unat LABEL_SIZE = unat d \<and> unat d + unat LABEL_SIZE = unat device_size)"
proof -
  have big: "unat device_size \<ge> 1048576"
    using assms(2) by (simp add: LABEL_SIZE_def word_le_nat_alt)
  then have "\<not> device_size div 512 < LABEL_SECTORS * 4"
    by (simp add: label_sectors word_less_nat_alt unat_div)
  then have "label_sector_offsets (device_size div 512) = Ok [0, 512, device_size div 512 - 1024, device_size div 512 - 512]"
    by (simp add: label_sector_offsets_def label_sectors)
  moreover have offs: "label_offsets device_size = [0, 262144, device_size - 524288, device_size - 262144]"
    using assms by (simp add: label_offsets_def LABEL_SIZE_def)
  moreover have "(device_size div 512 - 1024) * 512 = device_size - 524288" "(device_size div 512 - 512) * 512 = device_size - 262144"
    using word_split[OF assms(1)] by (simp_all add: left_diff_distrib)
  moreover have "unat (device_size - 524288) = unat device_size - 524288" "unat (device_size - 262144) = unat device_size - 262144"
    using big by (simp_all add: unat_sub word_le_nat_alt)
  ultimately show ?thesis
    using big by (simp add: LABEL_SIZE_def)
qed

theorem label_offsets_agree_witness:
  "(\<exists>sectors. label_sector_offsets (0x8000000 div 512) = Ok sectors \<and> label_offsets 0x8000000 = map (\<lambda>s. s * 512) sectors) \<and>
    (\<exists>a b c d. label_offsets 0x8000000 = [a, b, c, d] \<and> unat a + unat LABEL_SIZE \<le> unat b \<and> unat b + unat LABEL_SIZE \<le> unat c \<and>
      unat c + unat LABEL_SIZE = unat d \<and> unat d + unat LABEL_SIZE = unat (0x8000000 :: u64))"
  by (rule label_offsets_agree) (simp_all add: LABEL_SIZE_def)

end
