(* ===== verification/Walk_Props.thy ===== *)
theory Walk_Props
  imports Walk
begin

text \<open>
  Properties of \<open>walk.rs\<close>: reading objects never panics, the one way in which listing a ZAP panics, and
  the entries of a micro ZAP against the layout of its block.
\<close>

section \<open>Results of pool operations\<close>

text \<open>\<open>givesZ m P\<close>: every value that \<open>m\<close> returns satisfies \<open>P\<close>.\<close>

definition givesZ :: "('r, 'a) zio \<Rightarrow> ('a \<Rightarrow> bool) \<Rightarrow> bool" where
  "givesZ m P \<longleftrightarrow> (\<forall>ms x ms'. m ms = (Ok x, ms') \<longrightarrow> P x)"

lemma givesZ_return: "P x \<Longrightarrow> givesZ (returnZ x) P"
  by (simp add: givesZ_def returnZ_def)

lemma givesZ_fail: "givesZ (failZ e) P"
  by (simp add: givesZ_def failZ_def)

lemma givesZ_lift: "(\<And>x. r = Ok x \<Longrightarrow> P x) \<Longrightarrow> givesZ (liftZ r) P"
  by (simp add: givesZ_def liftZ_def)

lemma givesZ_any: "givesZ m (\<lambda>_. True)"
  by (simp add: givesZ_def)

lemma givesZ_bind: "givesZ m Q \<Longrightarrow> (\<And>x. Q x \<Longrightarrow> givesZ (f x) P) \<Longrightarrow> givesZ (bindZ m f) P"
  unfolding givesZ_def bindZ_Ok_iff by blast

lemma safeZ_bind_gives: "safeZ m \<Longrightarrow> givesZ m Q \<Longrightarrow> (\<And>x. Q x \<Longrightarrow> safeZ (f x)) \<Longrightarrow> safeZ (bindZ m f)"
  unfolding safeZ_def givesZ_def bindZ_def by (auto split: prod.splits result.splits) (metis fst_conv snd_conv)+

lemma safe_gives_cases:
  "safeZ m \<Longrightarrow> givesZ m P \<Longrightarrow> case fst (m ms) of Ok x \<Rightarrow> P x | Err _ \<Rightarrow> True | Panic \<Rightarrow> False"
  unfolding safeZ_def givesZ_def by (cases "m ms") (auto split: result.splits, metis fst_conv)

section \<open>Objects\<close>

lemma slice_not_Panic: "a \<le> b \<Longrightarrow> b \<le> length xs \<Longrightarrow> slice xs a b \<noteq> Panic"
  by (simp add: slice_def slice_get_def)

lemma index_not_Panic: "i < length xs \<Longrightarrow> index xs i \<noteq> Panic"
  by (simp add: index_def index_get_def)

lemma and_then_not_Panic: "m \<noteq> Panic \<Longrightarrow> (\<And>x. m = Ok x \<Longrightarrow> f x \<noteq> Panic) \<Longrightarrow> and_then m f \<noteq> Panic"
  by (auto simp: and_then_Panic_iff)

lemma if_not_Panic: "(b \<Longrightarrow> m \<noteq> Panic) \<Longrightarrow> (\<not> b \<Longrightarrow> n \<noteq> Panic) \<Longrightarrow> (if b then m else n) \<noteq> Panic"
  by simp

lemma range_loop_gives:
  "length out = len \<Longrightarrow> filled \<le> len \<Longrightarrow>
   givesZ (range_loop E topo dnode order off len dbsz filled out) (\<lambda>out'. length out' = len)"
proof (induction E topo dnode order off len dbsz filled out rule: range_loop.induct)
  case (1 E topo dnode order off len dbsz filled out)
  show ?case
  proof (cases "filled < len \<and> dbsz \<noteq> 0")
    case run: True
    show ?thesis
    proof (cases "checked_add off (of_nat filled :: u64)")
      case None
      then show ?thesis
        using run by (subst range_loop.simps) (simp add: givesZ_fail)
    next
      case (Some pos)
      define want where "want = min (dbsz - unat pos mod dbsz) (len - filled)"
      have copied: "length out1 = len" if "copy_block out filled (unat pos mod dbsz) want block = Ok out1" for block out1
        using that "1.prems" run by (auto simp: copy_block_def and_then_Ok_iff want_def length_overwrite
            dest!: slice_get_length split: option.splits)
      have step: "range_loop E topo dnode order off len dbsz filled out =
          bindZ (read_dnode_block E topo dnode (pos div of_nat dbsz) order) (\<lambda>block.
          bindZ (liftZ (copy_block out filled (unat pos mod dbsz) want block)) (\<lambda>out.
          range_loop E topo dnode order off len dbsz (filled + want) out))"
        using run Some by (subst range_loop.simps) (simp add: Let_def want_def)
      have "filled + want \<le> len"
        using "1.prems"(2) by (simp add: want_def)
      then have "givesZ (range_loop E topo dnode order off len dbsz (filled + want) out1) (\<lambda>out'. length out' = len)"
        if "length out1 = len" for out1
        using "1.IH"[OF run Some refl refl want_def that] by blast
      then show ?thesis
        unfolding step
        by (intro givesZ_bind[OF givesZ_any] givesZ_bind[OF givesZ_lift, where Q = "\<lambda>out1. length out1 = len"]) (rule copied)
    qed
  next
    case False
    then show ?thesis
      using "1.prems" by (subst range_loop.simps) (auto intro: givesZ_return)
  qed
qed

lemma read_dnode_range_gives: "givesZ (read_dnode_range E topo dnode off len order) (\<lambda>out. length out = len)"
  unfolding read_dnode_range_def Let_def by (simp add: givesZ_fail range_loop_gives)

lemma endian_dnode_safe: "safe_dec (dnode_from_decoder (endian_decoder order))"
  by (rule decoder_contract.dnode_safe[OF endian_decoder_contract])

lemma decode_dnode_not_Panic: "decode_dnode buf objnum order \<noteq> Panic"
  using with_decoder_not_Panic[of dnode_from_decoder, OF endian_dnode_safe]
  by (simp add: decode_dnode_def and_then_Panic_iff)

lemma decode_dnode_wf:
  assumes "decode_dnode buf objnum order = Ok dn"
  shows "wf_dnode dn"
proof -
  obtain b where "dnode_from_decoder (endian_decoder order) (buf_from_bytes buf) = Ok (Some dn, b)"
    using assms by (auto simp: decode_dnode_def and_then_Ok_iff with_decoder_def)
  from dnode_from_decoder_wf[unfolded yields_def, rule_format, OF this] show ?thesis
    by simp
qed

lemma bonus_used_not_Panic: "wf_dnode dn \<Longrightarrow> bonus_used dn \<noteq> Panic"
  by (simp add: bonus_used_def wf_dnode_def bonus_capacity_def slice_not_Panic)

lemma small_object_not_Panic: "small_object first objnum order \<noteq> Panic"
  using decode_dnode_not_Panic[of first objnum order] bonus_used_not_Panic[OF decode_dnode_wf]
  by (auto simp: small_object_def and_then_Panic_iff)

lemma large_object_not_Panic:
  assumes "length full = dn_size" "dn_size \<ge> DNODE_SIZE"
  shows "large_object full dn_size objnum order \<noteq> Panic"
proof -
  have fields: "index full DN_NBLKPTR \<noteq> Panic" "index full DN_FLAGS \<noteq> Panic" "slice full DN_BONUSLEN (DN_BONUSLEN + 2) \<noteq> Panic"
    using assms by (simp_all add: index_not_Panic slice_not_Panic DNODE_SIZE_def DN_NBLKPTR_def DN_FLAGS_def DN_BONUSLEN_def)
  have room: "slice full 0 start \<noteq> Panic" "slice full start (start + len) \<noteq> Panic"
    if "\<not> (start > DNODE_SIZE \<or> start + len > dn_size - n)" for start len n
    using that assms by (intro slice_not_Panic; linarith)+
  show ?thesis
    unfolding large_object_def Let_def
    by (intro and_then_not_Panic if_not_Panic fields decode_dnode_not_Panic; (erule room)?; simp)
qed

lemma safeZ_read_object [zio_intro]: "safeZ (read_object E topo dnode_array objnum order)"
proof -
  have big: "DNODE_SIZE \<le> (unat w + 1) * DNODE_SIZE" for w :: u8
    by simp
  show ?thesis
    unfolding read_object_def Let_def
    by (intro zio_intro safeZ_bind_gives[OF safeZ_read_dnode_range read_dnode_range_gives] small_object_not_Panic
        large_object_not_Panic big) (simp_all add: index_not_Panic DNODE_SIZE_def DN_EXTRA_SLOTS_def)
qed

lemma safeZ_read_object_dnode [zio_intro]: "safeZ (read_object_dnode E topo dnode_array objnum order)"
  unfolding read_object_dnode_def by (intro zio_intro)

lemma safeZ_read_objset [zio_intro]: "safeZ (read_objset E topo bp order)"
  unfolding read_objset_def using with_decoder_not_Panic[of object_set_from_decoder order,
      OF decoder_contract.object_set_safe[OF endian_decoder_contract]]
  by (intro zio_intro) simp

lemma read_object_gives: "givesZ (read_object E topo dnode_array objnum order) (\<lambda>object. wf_dnode (od_dnode object))"
proof -
  have small: "wf_dnode (od_dnode object)" if "small_object first objnum order = Ok object" for first object
    using that by (auto simp: small_object_def and_then_Ok_iff dest: decode_dnode_wf)
  have large: "wf_dnode (od_dnode object)" if "large_object full dn_size objnum order = Ok object" for full dn_size object
    using that by (auto simp: large_object_def and_then_Ok_iff Let_def dest: decode_dnode_wf split: if_splits)
  have lifted: "givesZ (liftZ (small_object first objnum order)) (\<lambda>object. wf_dnode (od_dnode object))"
    "givesZ (liftZ (large_object full dn_size objnum order)) (\<lambda>object. wf_dnode (od_dnode object))" for first full dn_size
    using small large by (auto intro: givesZ_lift)
  show ?thesis
    unfolding read_object_def Let_def
    by (auto intro!: givesZ_bind[OF givesZ_any] lifted givesZ_fail split: option.split)
qed

lemma read_objset_gives: "givesZ (read_objset E topo bp order) (\<lambda>objset. wf_dnode (os_dnode objset))"
proof -
  have "wf_dnode (os_dnode objset)" if "with_decoder bs order object_set_from_decoder = Ok objset" for bs objset
    using that object_set_yields[of order] by (auto simp: with_decoder_def and_then_Ok_iff yields_def)
  then show ?thesis
    unfolding read_objset_def by (intro givesZ_bind[OF givesZ_any] givesZ_lift) auto
qed

text \<open>
  C18. Reading an object never panics, whatever the devices return: an object number, a slot count or a bonus
  length that does not fit is an error, and every dnode that is returned is well formed. The same holds
  for the dnode of an object set.
\<close>

theorem read_object_safe:
  "(case fst (read_object E topo dnode_array objnum order ms) of
      Ok object \<Rightarrow> wf_dnode (od_dnode object) | Err _ \<Rightarrow> True | Panic \<Rightarrow> False) \<and>
   (case fst (read_objset E topo bp order ms) of
      Ok objset \<Rightarrow> wf_dnode (os_dnode objset) | Err _ \<Rightarrow> True | Panic \<Rightarrow> False)"
  by (intro conjI safe_gives_cases read_object_gives read_objset_gives safeZ_read_object safeZ_read_objset)

section \<open>Listing a ZAP panics only on a short first block\<close>

lemma chunk_data_length:
  assumes "with_decoder chunk order zap_leaf_chunk_data_from_decoder = Ok data"
  shows "length (zld_data data) = ZAP_LEAF_DATA_SIZE"
proof -
  have "yields (zap_leaf_chunk_data_from_decoder (endian_decoder order)) (\<lambda>data. length (zld_data data) = ZAP_LEAF_DATA_SIZE)"
    unfolding zap_leaf_chunk_data_from_decoder_def
    by (rule yields_bind_any, rule yields_if, rule yields_fail,
        rule yields_bind[OF yields_lift[OF endian_get_bytes_n_length]], rule yields_bind_any, rule yields_return) simp
  with assms show ?thesis
    by (auto simp: with_decoder_def and_then_Ok_iff yields_def)
qed

lemmas leaf_safe = with_decoder_not_Panic[of zap_leaf_chunk_data_from_decoder,
    OF decoder_contract.zap_leaf_chunks_safe(1)[OF endian_decoder_contract]]
  with_decoder_not_Panic[of zap_leaf_chunk_entry_from_decoder,
    OF decoder_contract.zap_leaf_chunks_safe(2)[OF endian_decoder_contract]]

lemma ok_or_safe: "ok_or e x \<noteq> Panic"
  by simp

lemma map_err_safe: "r \<noteq> Panic \<Longrightarrow> map_err f r \<noteq> Panic"
  by simp

lemma collect_chunks_loop_not_Panic:
  "collect_chunks_loop block chunk_base nchunks len order next guard out \<noteq> Panic"
proof (induction block chunk_base nchunks len order "next" guard out rule: collect_chunks_loop.induct)
  case (1 block chunk_base nchunks len order "next" guard out)
  show ?case
  proof (cases "next")
    case None
    then show ?thesis
      by (simp add: collect_chunks_loop.simps)
  next
    case (Some idx)
    show ?thesis
      by (subst collect_chunks_loop.simps, unfold Some option.case Let_def, intro if_not_Panic and_then_not_Panic ok_or_safe map_err_safe leaf_safe slice_not_Panic 1[OF _ Some])
        (auto simp: chunk_data_length)
  qed
qed

lemma leaf_entry_not_Panic: "leaf_entry block chunk_base nchunks order chunk \<noteq> Panic"
  unfolding leaf_entry_def collect_chunks_def Let_def
  by (intro and_then_not_Panic map_err_safe leaf_safe collect_chunks_loop_not_Panic) simp

lemma collect_leaf_loop_not_Panic: "collect_leaf_loop block chunk_base nchunks order cis out \<noteq> Panic"
proof (induction cis arbitrary: out)
  case (Cons ci cis)
  have "index chunk 0 \<noteq> Panic" if "ok_or e (slice_get block off (off + ZAP_LEAF_CHUNK_SIZE)) = Ok chunk" for chunk e off
    using that slice_get_length[of block off "off + ZAP_LEAF_CHUNK_SIZE" chunk]
    by (intro index_not_Panic) (simp add: ok_or_Ok_iff ZAP_LEAF_CHUNK_SIZE_def)
  then show ?case
    unfolding collect_leaf_loop.simps Let_def
    by (intro and_then_not_Panic if_not_Panic ok_or_safe leaf_entry_not_Panic Cons)
qed simp

lemma block_type_Panic_iff: "block_type block order = Panic \<longleftrightarrow> length block < 8"
  by (auto simp: block_type_def and_then_Panic_iff slice_Panic_iff slice_get_def)

lemma safeZ_fat_loop: "safeZ (fat_loop E topo zap_dnode order chunk_base nchunks blkid out)"
proof (induction E topo zap_dnode order chunk_base nchunks blkid out rule: fat_loop.induct)
  case (1 E topo zap_dnode order chunk_base nchunks blkid out)
  have "(if length block \<ge> 8 then and_then (block_type block order) (\<lambda>bt.
      if bt = ZAP_LEAF_BLOCK_TYPE then collect_leaf block chunk_base nchunks order out else Ok out) else Ok out) \<noteq> Panic" for block
    by (simp add: and_then_Panic_iff block_type_Panic_iff collect_leaf_def collect_leaf_loop_not_Panic)
  then show ?case
    unfolding fat_loop.simps[of E topo zap_dnode order chunk_base nchunks blkid out]
    by (intro zio_intro 1)
qed

lemma safeZ_fat_entries_raw [zio_intro]: "safeZ (fat_entries_raw E topo zap_dnode dbsz order)"
  unfolding fat_entries_raw_def by (intro zio_intro safeZ_fat_loop)

lemma safeZ_fat_entries [zio_intro]: "safeZ (fat_entries E topo zap_dnode dbsz order)"
  unfolding fat_entries_def by (intro zio_intro)

lemma micro_entry_step:
  assumes "wf_buf b"
  shows "zap_micro_entry_ref_from_decoder (endian_decoder order) b \<noteq> Panic"
    "zap_micro_entry_ref_from_decoder (endian_decoder order) b = Ok (r, b') \<Longrightarrow> wf_buf b'"
  using safe_decD[OF decoder_contract.zap_micro_entry_ref_safe[OF endian_decoder_contract] assms] by blast+

lemma zap_micro_next_safe:
  "wf_buf b \<Longrightarrow> fst (zap_micro_next order b) \<noteq> Some Panic \<and>
     (\<forall>e. fst (zap_micro_next order b) = Some (Ok e) \<longrightarrow> wf_buf (snd (zap_micro_next order b)))"
proof (induction "buf_len b" arbitrary: b rule: less_induct)
  case less
  show ?case
  proof (cases rule: zap_micro_next_cases[where b = b and ord = order])
    case (2 e b')
    then show ?thesis
      using micro_entry_step(2)[OF less.prems 2(2)] by (simp add: zap_micro_next_eqs(2))
  next
    case (3 b')
    then show ?thesis
      using less.hyps[OF zap_micro_entry_ref_None[OF 3(2,1)] micro_entry_step(2)[OF less.prems 3(2)]]
      by (simp add: zap_micro_next_eqs(3))
  qed (use micro_entry_step(1)[OF less.prems] in \<open>simp_all add: zap_micro_next_eqs(1,4)\<close>)
qed

lemma micro_loop_not_Panic: "wf_buf b \<Longrightarrow> micro_loop order b out \<noteq> Panic"
proof (induction order b out rule: micro_loop.induct)
  case (1 order b out)
  then show ?case
    using zap_micro_next_safe[of b order]
    by (subst micro_loop.simps, auto split: prod.splits option.splits result.splits) blast
qed

lemma micro_entries_not_Panic: "micro_entries block order \<noteq> Panic"
proof -
  have "wf_buf (buf_from_bytes block)"
    by (rule wf_buf_from_bytes)
  from safe_decD[OF decoder_contract.zap_micro_iterator_safe[OF endian_decoder_contract[of order]] this]
  show ?thesis
    unfolding micro_entries_def by (intro and_then_not_Panic map_err_safe) (auto simp: micro_loop_not_Panic)
qed

text \<open>The blocks of a ZAP are checked everywhere but in \<open>block_type\<close>.\<close>

lemma zap_entries_Panic_iff:
  "fst (zap_entries E topo zap_dnode order ms) = Panic \<longleftrightarrow>
     data_block_size zap_dnode \<noteq> 0 \<and>
     (\<exists>block. fst (read_dnode_block E topo zap_dnode 0 order ms) = Ok (Some block) \<and> length block < 8)"
proof -
  obtain r ms' where r: "read_dnode_block E topo zap_dnode 0 order ms = (r, ms')"
    by (cases "read_dnode_block E topo zap_dnode 0 order ms")
  have "r \<noteq> Panic"
    using safeZ_read_dnode_block[of E topo zap_dnode 0 order] r unfolding safeZ_def by (metis fst_conv)
  moreover have "fst (fat_entries E topo zap_dnode n order ms') \<noteq> Panic" for n
    using safeZ_fat_entries unfolding safeZ_def by blast
  ultimately show ?thesis
    unfolding block_type_Panic_iff[of _ order, symmetric]
    by (auto simp: zap_entries_def Let_def bindZ_def liftZ_def failZ_def r micro_entries_not_Panic
        elim!: ok_or.elims split: option.splits result.splits if_splits)
qed

text \<open>
  C24. Listing the entries of a ZAP, whatever is stored in it, panics exactly when the data block size of the
  object is not zero and its first block can be read and is shorter than 8 bytes: \<open>block_type\<close> slices the block without a check of its length.
\<close>

theorem zap_entries_panics_iff:
  "fst (zap_entries E topo zap_dnode order ms) = Panic \<longleftrightarrow>
     data_block_size zap_dnode \<noteq> 0 \<and>
     (\<exists>block. fst (read_dnode_block E topo zap_dnode 0 order ms) = Ok (Some block) \<and> length block < 8)"
  by (rule zap_entries_Panic_iff)

text \<open>An object whose first block is embedded and 4 bytes long.\<close>

definition short_zap :: dnode where
  "short_zap = sample_dnode\<lparr>dn_data_block_size_sectors := 1, dn_tail := TailTwo
     (Some (Embedded \<lparr>bpe_compression = Co_Off, bpe_dmu = Dmu_PlainFileContents, bpe_embedded_type = Emb_Data,
       bpe_order = Little, bpe_level = 0, bpe_logical_birth_txg = 1, bpe_logical_size = 4, bpe_physical_size = 4,
       bpe_payload = [1, 2, 3, 4]\<rparr>)) None []\<rparr>"

theorem zap_entries_panics_iff_witness: "fst (zap_entries mem_env sample_topology short_zap Little []) = Panic"
  by (simp add: zap_entries_panics_iff read_dnode_block_def data_block_size_def push_bit_eq_mult short_zap_def sample_dnode_def
      pointers_def index_get_def DN_MAX_LEVELS_def read_block_pointer_def liftZ_def bindZ_def returnZ_def decompress_def
      slice_get_def MAX_BLOCK_LSIZE_def)

section \<open>The layout of a micro ZAP\<close>

text \<open>
  The block of a micro ZAP: a header of 64 bytes, then slots of 64 bytes, each empty or an entry with
  its value, its collision differentiator and its name, padded with zeros to 50 bytes.
\<close>

definition micro_slot_bytes :: "endian_order \<Rightarrow> zap_micro_entry option \<Rightarrow> bytes" where
  "micro_slot_bytes order slot = (case slot of
     None \<Rightarrow> replicate 64 0
   | Some m \<Rightarrow> word_bytes order 8 (zme_value m) @ word_bytes order 4 (zme_cd m) @ replicate 2 0 @
       (zme_name m @ replicate (50 - length (zme_name m)) 0))"

definition micro_header_bytes :: "endian_order \<Rightarrow> zap_micro_header \<Rightarrow> bytes" where
  "micro_header_bytes order h = word_bytes order 8 ZAP_MICRO_BLOCK_TYPE @ word_bytes order 8 (zmh_salt h) @
     word_bytes order 8 (zap_case_to_u64 (zmh_case_normalization h) OR zap_unicode_to_u64 (zmh_unicode_normalization h)) @
     replicate 40 0"

definition micro_block_bytes :: "endian_order \<Rightarrow> zap_micro_header \<Rightarrow> zap_micro_entry option list \<Rightarrow> bytes" where
  "micro_block_bytes order h slots = micro_header_bytes order h @ concat (map (micro_slot_bytes order) slots)"

definition wf_micro_slot :: "zap_micro_entry option \<Rightarrow> bool" where
  "wf_micro_slot slot \<longleftrightarrow> (case slot of None \<Rightarrow> True | Some m \<Rightarrow>
     zme_name m \<noteq> [] \<and> length (zme_name m) < 50 \<and> 0 \<notin> set (zme_name m) \<and> utf8_valid (zme_name m))"

lemma length_micro_slot: "wf_micro_slot slot \<Longrightarrow> length (micro_slot_bytes order slot) = 64"
  by (auto simp: wf_micro_slot_def micro_slot_bytes_def split: option.splits)

lemma reads_zeros_test:
  assumes "length bs = n" "\<exists>x \<in> set bs. x \<noteq> 0" "reads m bs y"
  shows "reads (bindD (liftD C (buf_is_skip_zeros n)) (\<lambda>zero. if zero then k else m)) bs y"
  unfolding reads_def
proof (intro allI impI)
  fix b :: buffer
  assume b: "wf_buf b" "buf_offset b + length bs \<le> buf_max_offset b" "take (length bs) (drop (buf_offset b) (buf_data b)) = bs"
  have "buf_is_skip_zeros n b = Ok (False, b)"
    using readsD[OF reads_buf_get_bytes b, of n] assms(1,2) by (simp add: buf_is_skip_zeros_def bindD_def)
  then show "bindD (liftD C (buf_is_skip_zeros n)) (\<lambda>zero. if zero then k else m) b =
      Ok (y, b\<lparr>buf_offset := buf_offset b + length bs\<rparr>)"
    using readsD[OF assms(3) b] by (simp add: bindD_def liftD_def)
qed

lemma micro_slot_reads:
  assumes "wf_micro_slot slot"
  shows "reads (zap_micro_entry_ref_from_decoder (endian_decoder order)) (micro_slot_bytes order slot) slot"
proof (cases slot)
  case None
  then show ?thesis
    using reads_buf_get_bytes[of 64 "replicate 64 0"]
    by (auto simp: reads_def micro_slot_bytes_def zap_micro_entry_ref_from_decoder_def bindD_def liftD_def
        buf_is_skip_zeros_def returnD_def)
next
  case (Some m)
  let ?name = "zme_name m @ replicate (50 - length (zme_name m)) 0"
  have name: "zme_name m \<noteq> []" "length (zme_name m) < 50" "0 \<notin> set (zme_name m)" "utf8_valid (zme_name m)"
    using assms by (simp_all add: Some wf_micro_slot_def)
  have take: "takeWhile (\<lambda>b. b \<noteq> 0) ?name = zme_name m"
    using name(2,3) by (subst takeWhile_append2) (auto simp: takeWhile_replicate)
  have slice: "slice ?name 0 (length (zme_name m)) = Ok (zme_name m)"
    by (simp add: slice_def slice_get_def)
  have zero: "0 \<in> set ?name" and len: "length ?name = ZAP_NAME_MAX + 1"
    using name(2) by (simp_all add: ZAP_NAME_MAX_def)
  have nonzero: "\<exists>x \<in> set (micro_slot_bytes order slot). x \<noteq> 0"
    using name(1,3) by (auto simp: micro_slot_bytes_def Some intro!: bexI[of _ "hd (zme_name m)"])
      (metis hd_in_set)
  show ?thesis
    unfolding zap_micro_entry_ref_from_decoder_def endian_methods
    apply (rule reads_zeros_test[OF length_micro_slot[OF assms] nonzero])
    unfolding micro_slot_bytes_def Some option.case
    apply (rule reads_bindD[OF reads_liftD[OF endian_get_u64]])
    apply (rule reads_bindD[OF reads_liftD[OF codec.get_u32[OF endian_codec]]])
    apply (rule reads_bindD[OF reads_liftD[OF reads_buf_skip_zeros]])
    apply (rule reads_bindD_last[OF reads_liftD[OF reads_buf_get_bytes[OF len[symmetric]]]])
    unfolding Let_def take using zero
    apply (simp only: not_True_eq_False if_False)
    apply (rule reads_bindD_nil[OF reads_resultD[OF slice]])
    apply (rule reads_bindD_nil[OF reads_liftD[OF reads_resultD]])
     apply (simp only: from_utf8_Ok_iff name(4))
    by (rule reads_returnD_eq) simp
qed

lemma micro_header_reads:
  "reads (zap_micro_header_from_decoder (endian_decoder order)) (micro_header_bytes order h) h"
proof -
  let ?n = "zap_case_to_u64 (zmh_case_normalization h) OR zap_unicode_to_u64 (zmh_unicode_normalization h)"
  have n: "?n AND ZAP_NORMALIZATION_MASK = ?n"
    "zap_case_try_from (?n AND ZAP_CASE_MASK_ALL) = Ok (zmh_case_normalization h)"
    "zap_unicode_try_from (?n AND ZAP_UNICODE_MASK_ALL) = Ok (zmh_unicode_normalization h)"
    by (cases "zmh_case_normalization h"; cases "zmh_unicode_normalization h";
        simp add: zap_case_to_u64_def zap_unicode_to_u64_def ZAP_NORMALIZATION_MASK_def ZAP_CASE_MASK_ALL_def
          ZAP_UNICODE_MASK_ALL_def zap_case_try_from_def zap_unicode_try_from_def)+
  show ?thesis
    unfolding zap_micro_header_from_decoder_def micro_header_bytes_def endian_methods
    apply (rule reads_bindD[OF reads_liftD[OF endian_get_u64]])
    apply (simp only: not_True_eq_False simp_thms if_False)
    apply (rule reads_bindD[OF reads_liftD[OF endian_get_u64]])
    apply (rule reads_bindD[OF reads_liftD[OF endian_get_u64]])
    apply (simp only: n not_True_eq_False simp_thms if_False)
    apply (rule reads_bindD_nil[OF reads_liftD[OF reads_resultD[OF refl]]])
    apply (rule reads_bindD_nil[OF reads_liftD[OF reads_resultD[OF refl]]])
    apply (rule reads_bindD_last[OF reads_liftD[OF reads_buf_skip_zeros]])
    by (rule reads_returnD_eq) simp
qed

lemma micro_loop_slots:
  assumes "list_all wf_micro_slot slots" "wf_buf b"
    "drop (buf_offset b) (buf_data b) = concat (map (micro_slot_bytes order) slots)"
    "buf_max_offset b = length (buf_data b)"
  shows "micro_loop order b out = Ok (out @ map (\<lambda>m. (zme_name m, zme_value m)) (List.map_filter id slots))"
  using assms
proof (induction slots arbitrary: b out)
  case Nil
  then have "buf_is_empty b"
    by (simp add: buf_is_empty_def buf_len_def)
  then show ?case
    by (simp add: micro_loop.simps zap_micro_next_eqs(1) map_filter_simps)
next
  case (Cons slot slots)
  have slot: "wf_micro_slot slot" and len: "length (micro_slot_bytes order slot) = 64"
    using Cons.prems(1) length_micro_slot by simp_all
  have room: "buf_offset b + 64 \<le> buf_max_offset b"
    using arg_cong[OF Cons.prems(3), of length] Cons.prems(4) len by simp
  define b' where "b' = b\<lparr>buf_offset := buf_offset b + 64\<rparr>"
  have "drop 64 (drop (buf_offset b) (buf_data b)) = concat (map (micro_slot_bytes order) slots)"
    using Cons.prems(3) len by simp
  then have b': "wf_buf b'" "drop (buf_offset b') (buf_data b') = concat (map (micro_slot_bytes order) slots)"
      "buf_max_offset b' = length (buf_data b')"
    using Cons.prems(2,4) room by (simp_all add: b'_def wf_buf_def add.commute)
  have step: "zap_micro_entry_ref_from_decoder (endian_decoder order) b = Ok (slot, b')"
    using readsD[OF micro_slot_reads[OF slot] Cons.prems(2), of order] Cons.prems(3) len room by (simp add: b'_def)
  have more: "\<not> buf_is_empty b"
    using room by (simp add: buf_is_empty_def buf_len_def)
  note IH = Cons.IH[OF _ b'] Cons.prems(1)
  show ?case
  proof (cases slot)
    case None
    then have "micro_loop order b out = micro_loop order b' out"
      using step more by (simp add: micro_loop.simps[of order b out] micro_loop.simps[of order b' out] zap_micro_next_eqs(3))
    with None IH show ?thesis
      by (simp add: map_filter_simps)
  next
    case (Some m)
    then have "micro_loop order b out = micro_loop order b' (out @ [(zme_name m, zme_value m)])"
      using step more by (simp add: micro_loop.simps[of order b out] zap_micro_next_eqs(2))
    with Some IH show ?thesis
      by (simp add: map_filter_simps)
  qed
qed

text \<open>
  C8. Listing a micro ZAP returns its entries: on the block that holds a header and any sequence of slots, in
  either byte order, the list has the name and the value of every slot in use, in the order of the block.
\<close>

theorem micro_entries_layout:
  assumes "list_all wf_micro_slot slots"
  shows "micro_entries (micro_block_bytes order h slots) order =
    Ok (map (\<lambda>m. (zme_name m, zme_value m)) (List.map_filter id slots))"
proof -
  let ?bs = "micro_block_bytes order h slots"
  let ?rest = "concat (map (micro_slot_bytes order) slots)"
  define b where "b = (buf_from_bytes ?bs)\<lparr>buf_offset := 64\<rparr>"
  have len: "length (micro_header_bytes order h) = 64"
    by (simp add: micro_header_bytes_def)
  have "length ?rest = 64 * length slots"
    using assms by (induction slots) (simp_all add: length_micro_slot)
  then have rest: "buf_len b mod 64 = 0" "wf_buf b" "drop (buf_offset b) (buf_data b) = ?rest" "buf_max_offset b = length (buf_data b)"
    using len by (simp_all add: b_def buf_from_bytes_def micro_block_bytes_def buf_len_def wf_buf_def)
  have "zap_micro_header_from_decoder (endian_decoder order) (buf_from_bytes ?bs) = Ok (h, b)"
    using readsD[OF micro_header_reads[of order h] wf_buf_from_bytes, of ?bs] len
    by (simp add: b_def buf_from_bytes_def micro_block_bytes_def)
  then have "zap_micro_iterator_from_decoder (endian_decoder order) (buf_from_bytes ?bs) = Ok (h, b)"
    using rest(1) by (simp add: zap_micro_iterator_from_decoder_def bindD_def liftD_def queryD_def returnD_def)
  then show ?thesis
    using micro_loop_slots[OF assms rest(2-4), of "[]"] by (simp add: micro_entries_def)
qed

theorem micro_entries_layout_witness:
  "micro_entries (micro_block_bytes Little \<lparr>zmh_salt = 5, zmh_case_normalization = Zc_None, zmh_unicode_normalization = Zu_None\<rparr>
     [Some \<lparr>zme_cd = 0, zme_name = [0x61, 0x62], zme_value = 7\<rparr>, None, Some \<lparr>zme_cd = 1, zme_name = [0x63], zme_value = 9\<rparr>]) Little =
   Ok [([0x61, 0x62], 7), ([0x63], 9)]"
  by (subst micro_entries_layout) (simp_all add: wf_micro_slot_def map_filter_simps utf8_first_def utf8_width_def)

end
