(* ===== verification/Dataset_Props.thy ===== *)
theory Dataset_Props
  imports Dataset Walk_Props
begin

text \<open>
  Where the walks of \<open>dataset.rs\<close> can panic: only at a ZAP of the meta object set whose first block is shorter than
  8 bytes. The readers of this theory have no state of their own, so every step sees the same members.
\<close>

section \<open>Reads leave the members unchanged\<close>

lemma pureZ_range_loop: "steady E \<Longrightarrow> pureZ (range_loop E topo dnode order off len dbsz filled out)"
proof (induction E topo dnode order off len dbsz filled out rule: range_loop.induct)
  case (1 E topo dnode order off len dbsz filled out)
  then show ?case
    by (subst range_loop.simps) (auto simp: Let_def intro!: pure_intro)
qed

lemma pureZ_read_dnode_range [pure_intro]: "steady E \<Longrightarrow> pureZ (read_dnode_range E topo dnode off len order)"
  unfolding read_dnode_range_def by (intro pure_intro pureZ_range_loop)

lemma pureZ_read_object [pure_intro]: "steady E \<Longrightarrow> pureZ (read_object E topo dnode_array objnum order)"
  unfolding read_object_def by (intro pure_intro)

lemma pureZ_read_object_dnode [pure_intro]: "steady E \<Longrightarrow> pureZ (read_object_dnode E topo dnode_array objnum order)"
  unfolding read_object_dnode_def by (intro pure_intro)

lemma pureZ_fat_loop: "steady E \<Longrightarrow> pureZ (fat_loop E topo zap_dnode order chunk_base nchunks blkid out)"
proof (induction E topo zap_dnode order chunk_base nchunks blkid out rule: fat_loop.induct)
  case (1 E topo zap_dnode order chunk_base nchunks blkid out)
  show ?case
    unfolding fat_loop.simps[of E topo zap_dnode order chunk_base nchunks blkid out]
    by (intro pure_intro 1)
qed

lemma pureZ_zap_entries [pure_intro]: "steady E \<Longrightarrow> pureZ (zap_entries E topo zap_dnode order)"
  unfolding zap_entries_def fat_entries_def fat_entries_raw_def by (intro pure_intro pureZ_fat_loop)

section \<open>Where an operation can panic\<close>

text \<open>\<open>panics_only m P\<close>: the operation leaves the members unchanged, and panics only on members with \<open>P\<close>.\<close>

definition panics_only :: "('r, 'a) zio \<Rightarrow> ('r pool_member list \<Rightarrow> bool) \<Rightarrow> bool" where
  "panics_only m P \<longleftrightarrow> (\<forall>ms. snd (m ms) = ms \<and> (fst (m ms) = Panic \<longrightarrow> P ms))"

lemma panics_only_safe: "pureZ m \<Longrightarrow> safeZ m \<Longrightarrow> panics_only m P"
  by (simp add: panics_only_def pureZ_def safeZ_def)

lemma panics_only_bind:
  assumes "panics_only m P" "\<And>x. panics_only (f x) P"
  shows "panics_only (bindZ m f) P"
  unfolding panics_only_def
proof (intro allI)
  fix ms
  obtain r ms' where r: "m ms = (r, ms')" by (cases "m ms")
  then have "ms' = ms" "r = Panic \<Longrightarrow> P ms" using assms(1) unfolding panics_only_def by (metis fst_conv snd_conv)+
  with assms(2) r show "snd (bindZ m f ms) = ms \<and> (fst (bindZ m f ms) = Panic \<longrightarrow> P ms)"
    unfolding panics_only_def bindZ_def by (cases r) auto
qed

lemma panics_only_lift: "m \<noteq> Panic \<Longrightarrow> panics_only (liftZ m) P"
  by (simp add: panics_only_def liftZ_def)

lemma panics_only_return: "panics_only (returnZ x) P"
  by (simp add: panics_only_def returnZ_def)

text \<open>The pool has a ZAP, as an object of the meta object set, whose first block is too short for its type.\<close>

definition has_short_zap ::
  "'r env \<Rightarrow> topology \<Rightarrow> dnode \<Rightarrow> endian_order \<Rightarrow> 'r pool_member list \<Rightarrow> bool" where
  "has_short_zap E topo mos order ms \<longleftrightarrow> (\<exists>obj zap block.
     fst (read_object_dnode E topo mos obj order ms) = Ok zap \<and> data_block_size zap \<noteq> 0 \<and>
     fst (read_dnode_block E topo zap 0 order ms) = Ok (Some block) \<and> length block < 8)"

lemma panics_only_zap:
  assumes "steady E" "\<And>entries. panics_only (f entries) (has_short_zap E topo mos order)"
  shows "panics_only (bindZ (read_object_dnode E topo mos obj order) (\<lambda>zap. bindZ (zap_entries E topo zap order) f))
    (has_short_zap E topo mos order)"
  unfolding panics_only_def
proof (intro allI)
  fix ms
  let ?zap = "\<lambda>zap. bindZ (zap_entries E topo zap order) f"
  obtain r where r: "read_object_dnode E topo mos obj order ms = (r, ms)"
    using pureZ_read_object_dnode[OF assms(1)] unfolding pureZ_def by (metis prod.collapse)
  have "r \<noteq> Panic" using safeZ_read_object_dnode[of E topo mos obj order] r unfolding safeZ_def by (metis fst_conv)
  moreover have "snd (?zap zap ms) = ms \<and> (fst (?zap zap ms) = Panic \<longrightarrow> has_short_zap E topo mos order ms)" if "r = Ok zap" for zap
  proof -
    obtain e where e: "zap_entries E topo zap order ms = (e, ms)"
      using pureZ_zap_entries[OF assms(1)] unfolding pureZ_def by (metis prod.collapse)
    have "e = Panic \<Longrightarrow> has_short_zap E topo mos order ms"
      using zap_entries_Panic_iff[of E topo zap order ms] e r that unfolding has_short_zap_def by (metis fst_conv)
    with assms(2) e show ?thesis unfolding panics_only_def bindZ_def by (cases e) auto
  qed
  ultimately show "snd (bindZ (read_object_dnode E topo mos obj order) ?zap ms) = ms \<and>
      (fst (bindZ (read_object_dnode E topo mos obj order) ?zap ms) = Panic \<longrightarrow> has_short_zap E topo mos order ms)"
    by (cases r) (simp_all add: bindZ_def r)
qed

section \<open>Datasets\<close>

lemma safeZ_dsl_dir: "safeZ (dsl_dir E topo mos obj order)"
  unfolding dsl_dir_def
  using with_decoder_not_Panic[of dsl_directory_from_decoder order, OF decoder_contract.dsl_directory_safe[OF endian_decoder_contract]]
  by (intro zio_intro) simp

lemma panics_only_dsl_dir: "steady E \<Longrightarrow> panics_only (dsl_dir E topo mos obj order) P"
  by (rule panics_only_safe[OF _ safeZ_dsl_dir]) (simp add: dsl_dir_def pureZ_bind pureZ_read_object pureZ_lift)

lemma panics_only_lookup:
  assumes "steady E" "\<And>v. panics_only (f v) (has_short_zap E topo mos order)"
  shows "panics_only (bindZ (read_object_dnode E topo mos obj order) (\<lambda>zap. bindZ (zap_lookup E topo zap name order) f))
    (has_short_zap E topo mos order)"
  unfolding zap_lookup_def bindZ_assoc bindZ_return by (intro panics_only_zap assms)

lemma panics_only_root_dataset_obj:
  "steady E \<Longrightarrow> panics_only (root_dataset_obj E topo mos order) (has_short_zap E topo mos order)"
  unfolding root_dataset_obj_def by (intro panics_only_lookup panics_only_lift ok_or_not_Panic)

lemma panics_only_descend_datasets:
  "steady E \<Longrightarrow> panics_only (descend_datasets E topo mos order dir_obj names) (has_short_zap E topo mos order)"
proof (induction names arbitrary: dir_obj)
  case (Cons name names)
  show ?case
    unfolding descend_datasets.simps
    by (intro panics_only_bind[OF panics_only_dsl_dir] panics_only_lookup panics_only_bind[OF panics_only_lift[OF ok_or_not_Panic]]
        Cons)
qed (simp add: panics_only_return)

lemma panics_only_child_dataset_names:
  assumes "steady E"
  shows "panics_only (child_dataset_names E topo mos order parent) (has_short_zap E topo mos order)"
  unfolding child_dataset_names_def
  by (intro panics_only_bind[OF panics_only_root_dataset_obj] panics_only_bind[OF panics_only_descend_datasets]
      panics_only_bind[OF panics_only_dsl_dir] panics_only_zap panics_only_return assms)

end
