(* ===== verification/Zfs.thy ===== *)
theory Zfs
  imports Pool Dataset_Props
begin

text \<open>
  \<open>lib.rs\<close>: the interface of the crate on an imported pool. A method takes the pool and returns its
  result together with the members, which it reads.
\<close>

datatype entry_kind = Kind_Regular | Kind_Directory | Kind_Symlink | Kind_Other

record dir_entry =
  de_name :: bytes
  de_kind :: entry_kind
  de_object_id :: u64

record zfs_stat_info =
  st_kind :: entry_kind
  st_size :: u64

definition MAX_FILE_BYTES :: u64 where "MAX_FILE_BYTES = 256 * 1024 * 1024"
definition MAX_DATASETS :: nat where "MAX_DATASETS = 256"
definition MAX_DATASET_DEPTH :: nat where "MAX_DATASET_DEPTH = 16"

definition dirent_kind :: "u64 \<Rightarrow> entry_kind" where
  "dirent_kind value =
     (let t = drop_bit 60 value in
      if t = 4 then Kind_Directory else if t = 8 then Kind_Regular else if t = 10 then Kind_Symlink else Kind_Other)"

definition pool_guid :: "imported_pool \<Rightarrow> u64" where
  "pool_guid z = ip_pool_guid z"

definition pool_name :: "imported_pool \<Rightarrow> bytes" where
  "pool_name z = ip_pool_name z"

definition pool_txg :: "imported_pool \<Rightarrow> u64" where
  "pool_txg z = ub_txg (ip_uberblock z)"

section \<open>Datasets\<close>

definition child_datasets :: "'r env \<Rightarrow> imported_pool \<Rightarrow> bytes list \<Rightarrow> ('r, bytes list) zio" where
  "child_datasets E z parent = child_dataset_names E (ip_topology z) (ip_mos_dnode z) (ip_order z) parent"

text \<open>The loop over the children of a dataset, on the output and the queue.\<close>

fun push_children :: "bytes list \<Rightarrow> bytes list \<Rightarrow> bytes list list \<Rightarrow> bytes list list \<Rightarrow> bytes list list \<times> bytes list list" where
  "push_children parent [] out queue = (out, queue)"
| "push_children parent (child # children) out queue =
     (if length out \<ge> MAX_DATASETS then (out, queue)
      else let path = parent @ [child] in push_children parent children (out @ [path]) (queue @ [path]))"

lemma push_children_grows:
  assumes "push_children parent children out queue = (out', queue')"
  shows "length out \<le> length out'" "length out' = length out \<Longrightarrow> queue' = queue"
    "length out \<le> MAX_DATASETS \<Longrightarrow> length out' \<le> MAX_DATASETS"
  using assms by (induction parent children out queue rule: push_children.induct)
    (auto simp: Let_def split: if_splits)

lemma push_children_measure:
  assumes "queue \<noteq> []" "\<not> MAX_DATASETS \<le> length out"
    "\<not> MAX_DATASETS - length (fst (push_children parent children out (butlast queue))) < MAX_DATASETS - length out"
  shows "length (fst (push_children parent children out (butlast queue))) = length out"
    "length (snd (push_children parent children out (butlast queue))) < length queue"
proof -
  let ?r = "push_children parent children out (butlast queue)"
  note grows = push_children_grows[of parent children out "butlast queue" "fst ?r" "snd ?r", simplified]
  show same: "length (fst ?r) = length out"
    using assms(2,3) grows(1) by linarith
  show "length (snd ?r) < length queue"
    using assms(1) grows(2)[OF same] by simp
qed

text \<open>
  The traversal: the queue is a stack, whose top is its last element. Every path that is pushed is also
  added to the output, whose length is bounded, so the loop ends.
\<close>

function datasets_loop ::
  "'r env \<Rightarrow> imported_pool \<Rightarrow> bytes list list \<Rightarrow> bytes list list \<Rightarrow> ('r, bytes list list) zio" where
  "datasets_loop E z queue out =
     (if queue = [] then returnZ out
      else
        let parent = last queue; queue = butlast queue in
        if length out \<ge> MAX_DATASETS \<or> length parent \<ge> MAX_DATASET_DEPTH then datasets_loop E z queue out
        else
          bindZ (okZ (child_datasets E z parent)) (\<lambda>children.
          case children of
            None \<Rightarrow> datasets_loop E z queue out
          | Some children \<Rightarrow>
              (let r = push_children parent children out queue in datasets_loop E z (snd r) (fst r))))"
  by pat_completeness auto
termination
  apply (relation "measures [\<lambda>(E, z, queue, out). MAX_DATASETS - length out, \<lambda>(E, z, queue, out). length queue]")
  by (auto dest: push_children_measure)

declare datasets_loop.simps [simp del]

definition datasets :: "'r env \<Rightarrow> imported_pool \<Rightarrow> ('r, bytes list list) zio" where
  "datasets E z = datasets_loop E z [[]] [[]]"

text \<open>
  What the list of datasets satisfies: it has the root, it is bounded, and it is closed under parents.
\<close>

definition dataset_list :: "bytes list list \<Rightarrow> bool" where
  "dataset_list out \<longleftrightarrow> [] \<in> set out \<and> length out \<le> MAX_DATASETS \<and>
     list_all (\<lambda>path. length path \<le> MAX_DATASET_DEPTH \<and> (path \<noteq> [] \<longrightarrow> butlast path \<in> set out)) out"

lemma push_children_list:
  assumes "push_children parent children out queue = (out', queue')"
    "dataset_list out" "parent \<in> set out" "length parent < MAX_DATASET_DEPTH" "set queue \<subseteq> set out"
  shows "dataset_list out' \<and> set queue' \<subseteq> set out'"
  using assms
proof (induction parent children out queue rule: push_children.induct)
  case (2 parent child children out queue)
  show ?case
  proof (cases "MAX_DATASETS \<le> length out")
    case True
    with 2 show ?thesis by simp
  next
    case False
    have "dataset_list (out @ [parent @ [child]])"
      using False "2.prems"(2-4) by (auto simp: dataset_list_def list_all_iff)
    with False show ?thesis
      using "2.IH"[OF False refl] "2.prems" by (auto simp: Let_def)
  qed
qed simp

text \<open>The only place at which the listing can panic.\<close>

abbreviation pool_short_zap :: "'r env \<Rightarrow> imported_pool \<Rightarrow> 'r pool_member list \<Rightarrow> bool" where
  "pool_short_zap E z \<equiv> has_short_zap E (ip_topology z) (ip_mos_dnode z) (ip_order z)"

lemma datasets_loop_list:
  assumes "dataset_list out" "set queue \<subseteq> set out"
  shows "case fst (datasets_loop E z queue out ms) of Ok out' \<Rightarrow> dataset_list out' | Err _ \<Rightarrow> False
    | Panic \<Rightarrow> steady E \<longrightarrow> pool_short_zap E z ms"
  using assms
proof (induction E z queue out arbitrary: ms rule: datasets_loop.induct)
  case (1 E z queue out)
  show ?case
  proof (cases "queue = []")
    case True
    with 1 show ?thesis by (simp add: datasets_loop.simps returnZ_def)
  next
    case queue: False
    then have sub: "set (butlast queue) \<subseteq> set out" and parent: "last queue \<in> set out"
      using "1.prems"(2) by (auto dest: in_set_butlastD)
    show ?thesis
    proof (cases "length out \<ge> MAX_DATASETS \<or> length (last queue) \<ge> MAX_DATASET_DEPTH")
      case True
      then show ?thesis
        using "1.IH"(1)[OF queue refl refl True "1.prems"(1) sub] queue
        by (subst datasets_loop.simps) (simp add: Let_def)
    next
      case False
      obtain r ms' where r: "child_datasets E z (last queue) ms = (r, ms')"
        by (cases "child_datasets E z (last queue) ms")
      have steady: "ms' = ms" "r = Panic \<Longrightarrow> pool_short_zap E z ms" if "steady E"
        using panics_only_child_dataset_names[OF that] r unfolding child_datasets_def panics_only_def by (metis fst_conv snd_conv)+
      note unfold = datasets_loop.simps[of E z queue out] queue False r
      show ?thesis
      proof (cases r)
        case (Ok children)
        let ?p = "push_children (last queue) children out (butlast queue)"
        have "dataset_list (fst ?p) \<and> set (snd ?p) \<subseteq> set (fst ?p)"
          using push_children_list[OF _ "1.prems"(1) parent _ sub, of children "fst ?p" "snd ?p"] False by simp
        then show ?thesis
          using "1.IH"(3)[OF queue refl refl False refl, of children ms'] Ok steady(1)
          by (auto simp: unfold Let_def bindZ_def okZ_def split: result.splits)
      next
        case (Err e)
        then show ?thesis
          using "1.IH"(2)[OF queue refl refl False "1.prems"(1) sub, of ms'] steady(1)
          by (auto simp: unfold Let_def bindZ_def okZ_def split: result.splits)
      qed (use steady(2) in \<open>simp add: unfold Let_def bindZ_def okZ_def\<close>)
    qed
  qed
qed

text \<open>
  C10. Listing the datasets ends on every pool, however its DSL tree is crafted, and never reports an
  error: it returns a list, or it panics, and with readers without a state of their own it panics only if
  the meta object set has a ZAP whose first block is shorter than 8 bytes. The list has the root
  dataset, at most 256 datasets, paths of at most 16 names, and with every path the path of its parent.
\<close>

theorem datasets_bounded:
  "case fst (datasets E z ms) of
     Ok out \<Rightarrow> [] \<in> set out \<and> length out \<le> 256 \<and>
       list_all (\<lambda>path. length path \<le> 16 \<and> (path = [] \<or> butlast path \<in> set out)) out
   | Err _ \<Rightarrow> False
   | Panic \<Rightarrow> steady E \<longrightarrow> has_short_zap E (ip_topology z) (ip_mos_dnode z) (ip_order z) ms"
proof -
  have "dataset_list [[]]"
    by (simp add: dataset_list_def MAX_DATASETS_def)
  from datasets_loop_list[OF this, of "[[]]" E z ms] show ?thesis
    by (auto simp: datasets_def dataset_list_def list_all_iff MAX_DATASETS_def MAX_DATASET_DEPTH_def split: result.splits)
qed

text \<open>A pool whose meta object set cannot be read: no ZAP is found, and the list is that of the root.\<close>

definition unreadable_pool :: imported_pool where
  "unreadable_pool = \<lparr>ip_pool_guid = 1, ip_pool_name = [], ip_topology = sample_topology, ip_uberblock = sample_uberblock,
     ip_mos_dnode = sample_dnode\<lparr>dn_data_block_size_sectors := 0\<rparr>, ip_order = Little\<rparr>"

theorem datasets_bounded_witness:
  "steady mem_env \<and> (\<exists>out. fst (datasets mem_env unreadable_pool []) = Ok out \<and> [] \<in> set out \<and> length out \<le> 256)"
proof -
  have "fst (read_object_dnode mem_env (ip_topology unreadable_pool) (ip_mos_dnode unreadable_pool) obj Little []) \<noteq> Ok zap" for obj zap
    by (simp add: read_object_dnode_def read_object_def read_dnode_range_def unreadable_pool_def data_block_size_def
        bindZ_def failZ_def split: option.split)
  then have "\<not> has_short_zap mem_env (ip_topology unreadable_pool) (ip_mos_dnode unreadable_pool) (ip_order unreadable_pool) []"
    by (auto simp: has_short_zap_def unreadable_pool_def)
  with datasets_bounded[of mem_env unreadable_pool "[]"] mem_steady show ?thesis
    by (auto split: result.splits)
qed

section \<open>Files and directories\<close>

definition zfs_open_dataset :: "'r env \<Rightarrow> imported_pool \<Rightarrow> bytes list \<Rightarrow> ('r, dataset) zio" where
  "zfs_open_dataset E z dataset_path = open_dataset E (ip_topology z) (ip_mos_dnode z) (ip_order z) dataset_path"

definition read_dir :: "'r env \<Rightarrow> imported_pool \<Rightarrow> bytes list \<Rightarrow> bytes list \<Rightarrow> ('r, dir_entry list) zio" where
  "read_dir E z dataset_path dir_path =
     (let order = ip_order z; topo = ip_topology z in
      (
      bindZ (zfs_open_dataset E z dataset_path) (\<lambda>ds.
      bindZ ((if dir_path = [] then root_dir_obj E topo ds order
         else bindZ (resolve_path E topo ds order dir_path) (\<lambda>(obj, value).
           if dirent_kind value \<noteq> Kind_Directory then failZ NotADirectory else returnZ obj))) (\<lambda>dir_obj.
      bindZ (list_dir E topo ds dir_obj order) (\<lambda>entries.
      returnZ (map (\<lambda>(name, value). \<lparr>de_name = name, de_kind = dirent_kind value, de_object_id = value AND DIRENT_OBJ_MASK\<rparr>)
        entries))))))"

definition zfs_stat :: "'r env \<Rightarrow> imported_pool \<Rightarrow> bytes list \<Rightarrow> bytes list \<Rightarrow> ('r, zfs_stat_info) zio" where
  "zfs_stat E z dataset_path path =
     (let order = ip_order z; topo = ip_topology z in
      (
      bindZ (zfs_open_dataset E z dataset_path) (\<lambda>ds.
      if path = [] then returnZ \<lparr>st_kind = Kind_Directory, st_size = 0\<rparr>
      else
        bindZ (resolve_path E topo ds order path) (\<lambda>r.
        let kind = dirent_kind (snd r) in
        bindZ ((if kind = Kind_Regular then
            bindZ (read_object E topo (meta_dnode ds) (fst r) order) (\<lambda>object. liftZ (sa_file_size (od_bonus object) order))
          else returnZ 0)) (\<lambda>file_size.
        returnZ \<lparr>st_kind = kind, st_size = file_size\<rparr>)))))"

definition zfs_exists :: "'r env \<Rightarrow> imported_pool \<Rightarrow> bytes list \<Rightarrow> bytes list \<Rightarrow> ('r, bool) zio" where
  "zfs_exists E z dataset_path path ms =
     (case zfs_stat E z dataset_path path ms of
        (Ok _, ms') \<Rightarrow> (Ok True, ms')
      | (Err (NotFound _), ms') \<Rightarrow> (Ok False, ms')
      | (Err e, ms') \<Rightarrow> (Err e, ms')
      | (Panic, ms') \<Rightarrow> (Panic, ms'))"

definition regular_file :: "'r env \<Rightarrow> imported_pool \<Rightarrow> dataset \<Rightarrow> bytes list \<Rightarrow> ('r, dnode \<times> u64) zio" where
  "regular_file E z ds file_path =
     (let order = ip_order z; topo = ip_topology z in
      (
      bindZ (resolve_path E topo ds order file_path) (\<lambda>r.
      if dirent_kind (snd r) \<noteq> Kind_Regular then failZ NotARegularFile
      else
        bindZ (read_object E topo (meta_dnode ds) (fst r) order) (\<lambda>object.
        bindZ (liftZ (sa_file_size (od_bonus object) order)) (\<lambda>file_size.
        returnZ (od_dnode object, file_size))))))"

definition zfs_read :: "'r env \<Rightarrow> imported_pool \<Rightarrow> bytes list \<Rightarrow> bytes list \<Rightarrow> ('r, bytes) zio" where
  "zfs_read E z dataset_path file_path =
     bindZ (zfs_open_dataset E z dataset_path) (\<lambda>ds.
     bindZ (regular_file E z ds file_path) (\<lambda>f.
     if snd f > MAX_FILE_BYTES then failZ (FileTooLarge (snd f) MAX_FILE_BYTES)
     else read_dnode_range E (ip_topology z) (fst f) 0 (unat (snd f)) (ip_order z)))"

definition zfs_read_at ::
  "'r env \<Rightarrow> imported_pool \<Rightarrow> bytes list \<Rightarrow> bytes list \<Rightarrow> u64 \<Rightarrow> nat \<Rightarrow> ('r, bytes) zio" where
  "zfs_read_at E z dataset_path file_path offset len =
     bindZ (zfs_open_dataset E z dataset_path) (\<lambda>ds.
     bindZ (regular_file E z ds file_path) (\<lambda>f.
     if offset \<ge> snd f then returnZ []
     else
       let want = min (of_nat len) (snd f - offset) in
       if want > MAX_FILE_BYTES then failZ (FileTooLarge want MAX_FILE_BYTES)
       else read_dnode_range E (ip_topology z) (fst f) offset (unat want) (ip_order z)))"

section \<open>Ranges of a file\<close>

lemma read_dnode_range_bytes:
  assumes "steady E" "len < 2 ^ 64" "fst (read_dnode_range E topo dnode off len order ms) = Ok out"
  shows "length out = len" "i < len \<Longrightarrow> object_byte E topo dnode order ms (unat off + i) = Some (out ! i)"
    "data_block_size dnode \<noteq> 0"
proof -
  show dbsz: "data_block_size dnode \<noteq> 0"
    using assms(3) by (auto simp: read_dnode_range_def Let_def failZ_def split: if_splits)
  obtain ms' where "range_loop E topo dnode order off len (data_block_size dnode) 0 (replicate len 0) ms = (Ok out, ms')"
    using assms(3) dbsz by (simp add: read_dnode_range_def Let_def) (metis prod.collapse)
  from range_loop_refines[OF this assms(1) refl dbsz assms(2)]
  show "length out = len" "i < len \<Longrightarrow> object_byte E topo dnode order ms (unat off + i) = Some (out ! i)"
    by simp_all
qed

lemma read_dnode_range_exists:
  assumes "steady E" "len < 2 ^ 64" "data_block_size dnode \<noteq> 0" "unat off + len \<le> 2 ^ 64"
    "\<And>i. i < len \<Longrightarrow> object_byte E topo dnode order ms (unat off + i) \<noteq> None"
  shows "\<exists>out. fst (read_dnode_range E topo dnode off len order ms) = Ok out"
  using range_loop_succeeds[OF assms(1) refl assms(3,2,4), of 0 topo order ms "replicate len 0"] assms(3,5)
  by (simp add: read_dnode_range_def Let_def)

text \<open>Within a range that can be read, every smaller range can be read, and holds the same bytes.\<close>

lemma read_dnode_range_sub:
  assumes E: "steady E" and len: "len < 2 ^ 64"
    and whole: "fst (read_dnode_range E topo dnode 0 len order ms) = Ok bs" and n: "unat off + n \<le> len"
  shows "fst (read_dnode_range E topo dnode off n order ms) = Ok (take n (drop (unat off) bs))"
proof -
  note bytes = read_dnode_range_bytes[OF E len whole]
  have byte: "object_byte E topo dnode order ms (unat off + i) = Some (bs ! (unat off + i))" if "i < n" for i
    using bytes(2)[of "unat off + i"] that n by simp
  have n64: "n < 2 ^ 64"
    using len n by simp
  obtain out where out: "fst (read_dnode_range E topo dnode off n order ms) = Ok out"
    using read_dnode_range_exists[OF E n64 bytes(3), of off topo order ms] byte n len by auto
  have "out = take n (drop (unat off) bs)"
    using read_dnode_range_bytes(1,2)[OF E n64 out] byte bytes(1) n by (intro nth_equalityI) auto
  with out show ?thesis
    by simp
qed

text \<open>
  \<open>read_at\<close> is a slice of \<open>read\<close>: when a file can be read, every range of it can be read, and it is the
  part of the contents that lies in the range, cut at the end of the file.
\<close>

lemma read_at_slices_read:
  assumes E: "steady E" and len: "len < 2 ^ 64" and read: "fst (zfs_read E z dataset_path file_path ms) = Ok bs"
  shows "fst (zfs_read_at E z dataset_path file_path off len ms) = Ok (take len (drop (unat off) bs))"
proof -
  obtain ds ms1 dnode file_size ms2 where
    ds: "zfs_open_dataset E z dataset_path ms = (Ok ds, ms1)" and
    found: "regular_file E z ds file_path ms1 = (Ok (dnode, file_size), ms2)" and
    small: "\<not> file_size > MAX_FILE_BYTES" and
    whole: "fst (read_dnode_range E (ip_topology z) dnode 0 (unat file_size) (ip_order z) ms2) = Ok bs"
    using read by (auto simp: zfs_read_def bindZ_def failZ_def split: prod.splits result.splits if_splits)
  have size: "unat file_size < 2 ^ 64"
    using unat_less[of file_size] by simp
  note bs = read_dnode_range_bytes(1)[OF E size whole]
  show ?thesis
  proof (cases "off \<ge> file_size")
    case True
    then show ?thesis
      using bs by (simp add: zfs_read_at_def bindZ_def ds found returnZ_def word_le_nat_alt)
  next
    case False
    define want where "want = min (of_nat len) (file_size - off)"
    have want: "unat want = min len (unat file_size - unat off)"
      using False len by (simp add: want_def min_def word_le_nat_alt unsigned_of_nat take_bit_nat_eq_self unat_sub)
    then have "\<not> want > MAX_FILE_BYTES" "unat off + unat want \<le> unat file_size"
      using small False by (auto simp: word_less_nat_alt word_le_nat_alt)
    moreover have "take (unat want) (drop (unat off) bs) = take len (drop (unat off) bs)"
      using bs by (simp add: want min_def)
    ultimately show ?thesis
      using read_dnode_range_sub[OF E size whole, of off "unat want"] False
      by (simp add: zfs_read_at_def bindZ_def ds found Let_def flip: want_def)
  qed
qed

end
