(* ===== verification/Import.thy ===== *)
theory Import
  imports Nv Label Zfs Walk_Props
begin

text \<open>
  The rest of \<open>pool.rs\<close>: the configuration in a label, the topology it describes, and the import of a pool,
  with the functions of \<open>lib.rs\<close> that call it.
\<close>

definition L0_NVPAIRS_BYTE :: u64 where "L0_NVPAIRS_BYTE = 16 * 1024"
definition L0_NVPAIRS_SECTOR :: u64 where "L0_NVPAIRS_SECTOR = drop_bit 9 L0_NVPAIRS_BYTE"

section \<open>The configuration\<close>

abbreviation nv_error :: "string \<Rightarrow> error" where
  "nv_error token \<equiv> Inconsistent token (Loc_Vdev 0)"

definition nv_find :: "nv_list \<Rightarrow> string \<Rightarrow> (error, nv_pair) result" where
  "nv_find l key =
     and_then (map_err (\<lambda>_. nv_error ''nv_decode'') (nv_list_find l (str_bytes key))) (\<lambda>pair.
     ok_or (NotFound key) pair)"

definition nv_has :: "nv_list \<Rightarrow> string \<Rightarrow> (error, bool) result" where
  "nv_has l key = (case nv_find l key of
     Ok _ \<Rightarrow> Ok True | Err (NotFound _) \<Rightarrow> Ok False | Err e \<Rightarrow> Err e | Panic \<Rightarrow> Panic)"

definition nv_u64 :: "nv_list \<Rightarrow> string \<Rightarrow> (error, u64) result" where
  "nv_u64 l key = and_then (nv_find l key) (\<lambda>pair. map_err (\<lambda>_. nv_error ''nv_u64'') (np_get_u64 pair))"

definition nv_str :: "nv_list \<Rightarrow> string \<Rightarrow> (error, bytes) result" where
  "nv_str l key = and_then (nv_find l key) (\<lambda>pair. map_err (\<lambda>_. nv_error ''nv_str'') (np_get_str pair))"

definition nv_nvlist :: "nv_list \<Rightarrow> string \<Rightarrow> (error, nv_list) result" where
  "nv_nvlist l key = and_then (nv_find l key) (\<lambda>pair. map_err (\<lambda>_. nv_error ''nv_nvlist'') (np_get_nv_list pair))"

text \<open>The guids of the children of a vdev. An empty array does not look at its bytes.\<close>

function child_guids_loop :: "nv_array \<Rightarrow> nat \<Rightarrow> buffer \<Rightarrow> u64 list \<Rightarrow> (error, u64 list) result" where
  "child_guids_loop a idx b out =
     (case nv_list_array_next a idx b of
        Ok None \<Rightarrow> Ok out
      | Ok (Some (child, idx', b')) \<Rightarrow>
          and_then (nv_u64 child ''guid'') (\<lambda>guid. child_guids_loop a idx' b' (out @ [guid]))
      | Err _ \<Rightarrow> Err (nv_error ''nv_child'')
      | Panic \<Rightarrow> Panic)"
  by pat_completeness auto
termination
  by (relation "measure (\<lambda>(a, idx, b, out). na_count a - idx)")
    (auto simp: nv_list_array_next_def Let_def and_then_Ok_iff split: if_splits)

declare child_guids_loop.simps [simp del]

definition nv_child_guids :: "nv_list \<Rightarrow> (error, u64 list) result" where
  "nv_child_guids vtree =
     and_then (nv_find vtree ''children'') (\<lambda>pair.
     and_then (map_err (\<lambda>_. nv_error ''nv_children'') (np_get_nv_list_array pair)) (\<lambda>a.
     if na_count a = 0 then Ok []
     else and_then (map_err (\<lambda>_. nv_error ''nv_child'') (nv_array_iter a)) (\<lambda>b. child_guids_loop a 0 b [])))"

lemma nv_u64_safe: "nv_u64 l name \<noteq> Panic"
  by (auto simp: nv_u64_def nv_find_def np_get_u64_def and_then_Panic_iff nv_list_find_safe split: nv_data_value.splits)

lemma child_guids_loop_safe: "wf_buf b \<Longrightarrow> child_guids_loop a idx b out \<noteq> Panic"
proof (induction a idx b out rule: child_guids_loop.induct)
  case (1 a idx b out)
  show ?case
    using nv_list_array_next_safe[OF "1.prems", of a idx] "1.IH" nv_u64_safe
    by (subst child_guids_loop.simps) (auto simp: and_then_Panic_iff split: result.splits prod.splits option.splits)
qed

text \<open>
  C17. Decoding name/value lists never panics, on any bytes: opening a list, the search for a name in any list, the
  whole iteration over any array of lists, and the loop of the import over the children of a device return a value
  or an error, and all of them end.
\<close>

theorem nv_decoding_safe:
  "nv_list_from_bytes data \<noteq> Panic \<and> nv_list_find l name \<noteq> Panic \<and> nv_list_array_collect a \<noteq> Panic \<and>
   nv_child_guids l \<noteq> Panic"
proof (intro conjI)
  show "nv_child_guids l \<noteq> Panic"
    using nv_array_iter_safe child_guids_loop_safe
    by (auto simp: nv_child_guids_def nv_find_def np_get_nv_list_array_def and_then_Panic_iff nv_list_find_safe
        split: nv_data_value.splits)
qed (rule nv_list_from_bytes_safe nv_list_find_safe nv_list_array_collect_safe)+

function feature_pairs_loop :: "nv_list \<Rightarrow> buffer \<Rightarrow> (error, unit) result" where
  "feature_pairs_loop l b =
     (case nv_next_pair l b of
        Ok (None, _) \<Rightarrow> Ok ()
      | Ok (Some pair, b') \<Rightarrow> and_then (check_read_feature (np_name pair)) (\<lambda>_. feature_pairs_loop l b')
      | Err _ \<Rightarrow> Err (nv_error ''nv_decode'')
      | Panic \<Rightarrow> Panic)"
  by pat_completeness auto
termination
  by (relation "measure (\<lambda>(l, b). buf_len b)") (auto dest: nv_next_pair_Some_moves)

declare feature_pairs_loop.simps [simp del]

definition check_label_features :: "nv_list \<Rightarrow> (error, unit) result" where
  "check_label_features config =
     and_then (nv_has config ''features_for_read'') (\<lambda>has.
     if has then
       and_then (nv_nvlist config ''features_for_read'') (\<lambda>l.
       and_then (map_err (\<lambda>_. nv_error ''nv_decode'') (nv_list_iter l)) (\<lambda>b.
       feature_pairs_loop l b))
     else Ok ())"

section \<open>Members and topology\<close>

definition read_nvpairs :: "'r env \<Rightarrow> nat \<Rightarrow> ('r, bytes) zio" where
  "read_nvpairs E mi = read_exact E mi L0_NVPAIRS_BYTE LABEL_NV_PAIRS_SIZE 0 ''io_nvpairs''"

definition label_config :: "bytes \<Rightarrow> sha256 \<Rightarrow> (error, nv_list) result" where
  "label_config buf sha =
     and_then (map_err (\<lambda>_. BadLabel BadChecksum) (label_nv_pairs_from_bytes buf L0_NVPAIRS_SECTOR sha)) (\<lambda>nvp.
     map_err (\<lambda>_. BadLabel BadMagic) (nv_list_from_bytes (lnv_payload nvp)))"

definition new_sha :: "(error, sha256) result" where
  "new_sha = ok_or (Inconsistent ''sha_init'' Loc_Uberblock) (sha256_new Sha_Generic)"

definition peek_pool_id :: "'r env \<Rightarrow> nat \<Rightarrow> ('r, u64 \<times> bytes) zio" where
  "peek_pool_id E mi =
     bindZ (liftZ new_sha) (\<lambda>sha.
     bindZ (read_nvpairs E mi) (\<lambda>buf.
     bindZ (liftZ (label_config buf sha)) (\<lambda>config.
     bindZ (liftZ (nv_u64 config ''pool_guid'')) (\<lambda>guid.
     bindZ (liftZ (nv_str config ''name'')) (\<lambda>name.
     returnZ (guid, name))))))"

fun find_member_loop :: "'r env \<Rightarrow> sha256 \<Rightarrow> u64 \<Rightarrow> nat list \<Rightarrow> ('r, nat) zio" where
  "find_member_loop E sha guid [] = failZ (BadLabel PoolGuidMismatch)"
| "find_member_loop E sha guid (i # is) =
     bindZ (read_nvpairs E i) (\<lambda>buf.
     case and_then (label_config buf sha) (\<lambda>config. nv_u64 config ''guid'') of
       Ok g \<Rightarrow> if g = guid then returnZ i else find_member_loop E sha guid is
     | Err _ \<Rightarrow> find_member_loop E sha guid is
     | Panic \<Rightarrow> liftZ Panic)"

definition find_member_by_guid :: "'r env \<Rightarrow> sha256 \<Rightarrow> u64 \<Rightarrow> ('r, nat) zio" where
  "find_member_by_guid E sha guid ms = find_member_loop E sha guid [0..<length ms] ms"

fun find_members :: "'r env \<Rightarrow> sha256 \<Rightarrow> u64 list \<Rightarrow> nat list \<Rightarrow> ('r, nat list) zio" where
  "find_members E sha [] idx = returnZ idx"
| "find_members E sha (guid # guids) idx =
     bindZ (find_member_by_guid E sha guid) (\<lambda>i. find_members E sha guids (idx @ [i]))"

fun find_present_members ::
  "'r env \<Rightarrow> sha256 \<Rightarrow> u64 list \<Rightarrow> nat option list \<Rightarrow> nat \<Rightarrow> ('r, nat option list \<times> nat) zio" where
  "find_present_members E sha [] idx present = returnZ (idx, present)"
| "find_present_members E sha (guid # guids) idx present =
     bindZ (okZ (find_member_by_guid E sha guid)) (\<lambda>m.
     find_present_members E sha guids (idx @ [m]) (if m \<noteq> None then present + 1 else present))"

text \<open>\<open>u8::try_from(v).unwrap_or(default)\<close>.\<close>

definition u8_or :: "u64 \<Rightarrow> u8 \<Rightarrow> u8" where
  "u8_or v default_value = (if v < 256 then ucast v else default_value)"

definition build_topology :: "'r env \<Rightarrow> nv_list \<Rightarrow> sha256 \<Rightarrow> ('r, layout) zio" where
  "build_topology E vtree sha =
     bindZ (liftZ (nv_str vtree ''type'')) (\<lambda>vtype.
     if vtype = str_bytes ''disk'' \<or> vtype = str_bytes ''file'' then returnZ (Single 0)
     else if vtype = str_bytes ''mirror'' then
       (
       bindZ (liftZ (nv_child_guids vtree)) (\<lambda>children.
       bindZ (find_members E sha children []) (\<lambda>idx.
       returnZ (Mirror idx))))
     else if vtype = str_bytes ''raidz'' then
       (
       bindZ (liftZ (case nv_u64 vtree ''nparity'' of Ok n \<Rightarrow> Ok n | Err _ \<Rightarrow> Ok 1 | Panic \<Rightarrow> Panic)) (\<lambda>nparity.
       if nparity \<noteq> 1 then failZ (UnsupportedTopology ''topo_raidz_multiparity'')
       else
         bindZ (liftZ (and_then (nv_has vtree ''raidz_expand_txgs'') (\<lambda>has.
           if has then Ok True else nv_has vtree ''raidz_expanding''))) (\<lambda>expanding.
         if expanding then failZ (UnsupportedFeature ''raidz_expansion'')
         else
           bindZ (liftZ (nv_u64 vtree ''ashift'')) (\<lambda>ashift.
           bindZ (liftZ (nv_child_guids vtree)) (\<lambda>children.
           bindZ (find_present_members E sha children [] 0) (\<lambda>r.
           if snd r + 1 < length (fst r) then failZ (UnsupportedTopology ''topo_raidz_degraded'')
           else returnZ (RaidZ1 (fst r) (u8_or ashift 9))))))))
     else if vtype = str_bytes ''draid'' then failZ (UnsupportedTopology ''topo_draid'')
     else failZ (UnsupportedTopology ''topo_unknown''))"

section \<open>Import\<close>

definition import_config :: "'r env \<Rightarrow> sha256 \<Rightarrow> ('r, u64 \<times> bytes \<times> u8 \<times> topology) zio" where
  "import_config E sha =
     bindZ (read_nvpairs E 0) (\<lambda>buf.
     bindZ (liftZ (label_config buf sha)) (\<lambda>config.
     bindZ (liftZ (nv_u64 config ''pool_guid'')) (\<lambda>guid.
     bindZ (liftZ (nv_str config ''name'')) (\<lambda>name.
     bindZ (liftZ (check_label_features config)) (\<lambda>checked.
     bindZ (liftZ (and_then (nv_has config ''vdev_children'') (\<lambda>has.
       if has then and_then (nv_u64 config ''vdev_children'') (\<lambda>n. Ok (n \<noteq> 1)) else Ok False))) (\<lambda>multiple.
     if multiple then failZ (UnsupportedTopology ''topo_multi_toplevel'')
     else
       bindZ (liftZ (nv_nvlist config ''vdev_tree'')) (\<lambda>vtree.
       bindZ (liftZ (nv_u64 vtree ''ashift'')) (\<lambda>ashift.
       bindZ (build_topology E vtree sha) (\<lambda>layout.
       returnZ (guid, name, u8_or ashift UBERBLOCK_SHIFT_MIN, \<lparr>topo_layout = layout, topo_checksum_salt = None\<rparr>))))))))))"

text \<open>The import after the test that there are members.\<close>

definition import_members :: "'r env \<Rightarrow> ('r, imported_pool) zio" where
  "import_members E =
     bindZ (liftZ new_sha) (\<lambda>sha.
     bindZ (import_config E sha) (\<lambda>config.
     let (guid, name, ashift, topo) = config in
     bindZ (select_uberblock E topo ashift sha) (\<lambda>ub.
     if ub_raidz_reflow_info ub \<noteq> 0 then failZ (UnsupportedFeature ''raidz_expansion'')
     else
       let order = block_pointer_order (ub_ptr ub) in
       bindZ (read_objset E topo (ub_ptr ub) order) (\<lambda>mos.
       bindZ (read_object_dnode E topo (os_dnode mos) MOS_OBJECT_DIRECTORY order) (\<lambda>objdir.
       bindZ (check_mos_features E topo (os_dnode mos) objdir order) (\<lambda>checked.
       bindZ (checksum_salt E topo objdir order) (\<lambda>salt.
       returnZ \<lparr>ip_pool_guid = guid, ip_pool_name = name, ip_topology = topo\<lparr>topo_checksum_salt := salt\<rparr>,
         ip_uberblock = ub, ip_mos_dnode = os_dnode mos, ip_order = order\<rparr>)))))))"

definition pool_import :: "'r env \<Rightarrow> ('r, imported_pool) zio" where
  "pool_import E ms = (if ms = [] then failZ (BadLabel NoLabels) ms else import_members E ms)"

section \<open>The entry points of the crate\<close>

record pool_id =
  pid_guid :: u64
  pid_name :: bytes

definition zfs_peek_pool_id :: "'r env \<Rightarrow> nat \<Rightarrow> ('r, pool_id) zio" where
  "zfs_peek_pool_id E mi =
     bindZ (peek_pool_id E mi) (\<lambda>r.
     returnZ \<lparr>pid_guid = fst r, pid_name = snd r\<rparr>)"

definition zfs_import :: "'r env \<Rightarrow> ('r, imported_pool) zio" where
  "zfs_import E = pool_import E"

definition member_count :: "'r pool_member list \<Rightarrow> nat" where
  "member_count ms = length ms"

section \<open>The topology fits the members\<close>

definition topology_fits :: "nat \<Rightarrow> layout \<Rightarrow> bool" where
  "topology_fits n layout = (case layout of
     Single i \<Rightarrow> i < n
   | Mirror idx \<Rightarrow> list_all (\<lambda>i. i < n) idx
   | RaidZ1 children ashift \<Rightarrow> list_all (\<lambda>i. i < n) (flatten children) \<and>
       length children \<le> length (flatten children) + 1)"

text \<open>
  \<open>runsZ n m P\<close>: on \<open>n\<close> members, \<open>m\<close> keeps their number, and what it returns satisfies \<open>P\<close>.
\<close>

definition runsZ :: "nat \<Rightarrow> ('r, 'a) zio \<Rightarrow> ('a \<Rightarrow> bool) \<Rightarrow> bool" where
  "runsZ n m P \<longleftrightarrow> (\<forall>ms. length ms = n \<longrightarrow> length (snd (m ms)) = n \<and> (\<forall>x. fst (m ms) = Ok x \<longrightarrow> P x))"

lemma runsZ_return: "P x \<Longrightarrow> runsZ n (returnZ x) P"
  by (simp add: runsZ_def returnZ_def)

lemma runsZ_fail: "runsZ n (failZ e) P"
  by (simp add: runsZ_def failZ_def)

lemma runsZ_lift: "runsZ n (liftZ r) (\<lambda>x. r = Ok x)"
  by (simp add: runsZ_def liftZ_def)

lemma runsZ_lift_any: "runsZ n (liftZ r) (\<lambda>_. True)"
  by (simp add: runsZ_def liftZ_def)

lemma runsZ_bind: "runsZ n m Q \<Longrightarrow> (\<And>x. Q x \<Longrightarrow> runsZ n (f x) P) \<Longrightarrow> runsZ n (bindZ m f) P"
  unfolding runsZ_def bindZ_def by (fastforce split: prod.splits result.splits)

lemma runsZ_safe: "safeZ m \<Longrightarrow> runsZ n m (\<lambda>_. True)"
  by (simp add: runsZ_def safeZ_def)

lemma runsZ_gives: "safeZ m \<Longrightarrow> givesZ m P \<Longrightarrow> runsZ n m P"
  unfolding runsZ_def safeZ_def givesZ_def by (metis prod.collapse)

lemma runsZ_if: "(b \<Longrightarrow> runsZ n m P) \<Longrightarrow> (\<not> b \<Longrightarrow> runsZ n m' P) \<Longrightarrow> runsZ n (if b then m else m') P"
  by simp

lemma runsZ_okZ: "runsZ n m P \<Longrightarrow> runsZ n (okZ m) (\<lambda>r. case r of None \<Rightarrow> True | Some x \<Rightarrow> P x)"
  unfolding runsZ_def okZ_def by (fastforce split: prod.splits result.splits)

lemma runsZ_weaken: "runsZ n m Q \<Longrightarrow> (\<And>x. Q x \<Longrightarrow> P x) \<Longrightarrow> runsZ n m P"
  by (simp add: runsZ_def)

lemma runsZ_read_nvpairs: "runsZ n (read_nvpairs E mi) (\<lambda>_. True)"
  unfolding read_nvpairs_def by (intro runsZ_safe safeZ_read_exact)

lemma find_member_loop_runs: "runsZ n (find_member_loop E sha guid is) (\<lambda>i. i \<in> set is)"
proof (induction "is")
  case (Cons i "is")
  then have "runsZ n (find_member_loop E sha guid is) (\<lambda>j. j \<in> set (i # is))"
    by (auto intro: runsZ_weaken)
  moreover have "runsZ n (liftZ Panic) (\<lambda>j. j \<in> set (i # is))"
    by (simp add: runsZ_def liftZ_def)
  ultimately show ?case
    unfolding find_member_loop.simps
    by (intro runsZ_bind[OF runsZ_read_nvpairs]) (auto intro: runsZ_return split: result.split)
qed (simp add: runsZ_fail)

lemma find_member_by_guid_runs: "runsZ n (find_member_by_guid E sha guid) (\<lambda>i. i < n)"
  using find_member_loop_runs[of n E sha guid "[0..<n]"] by (simp add: runsZ_def find_member_by_guid_def)

lemma find_members_runs:
  "list_all (\<lambda>i. i < n) idx \<Longrightarrow> runsZ n (find_members E sha guids idx) (list_all (\<lambda>i. i < n))"
  by (induction guids arbitrary: idx)
    (auto intro!: runsZ_return runsZ_bind[OF find_member_by_guid_runs])

lemma flatten_snoc: "flatten (xs @ [x]) = flatten xs @ (case x of None \<Rightarrow> [] | Some y \<Rightarrow> [y])"
  by (simp add: flatten_def List.map_filter_def split: option.split)

lemma find_present_members_runs:
  "list_all (\<lambda>i. i < n) (flatten idx) \<Longrightarrow> present = length (flatten idx) \<Longrightarrow>
   runsZ n (find_present_members E sha guids idx present)
     (\<lambda>r. list_all (\<lambda>i. i < n) (flatten (fst r)) \<and> snd r = length (flatten (fst r)))"
proof (induction guids arbitrary: idx present)
  case (Cons guid guids)
  show ?case
    unfolding find_present_members.simps
    by (rule runsZ_bind[OF runsZ_okZ[OF find_member_by_guid_runs]], rule Cons.IH)
      (use Cons.prems in \<open>auto simp: flatten_snoc split: option.splits\<close>)
qed (simp add: runsZ_return)

lemma build_topology_runs:
  assumes "0 < n"
  shows "runsZ n (build_topology E vtree sha) (topology_fits n)"
proof -
  have none: "list_all (\<lambda>i. i < n) []" "list_all (\<lambda>i. i < n) (flatten [])" "0 = length (flatten [])"
    by (simp_all add: flatten_def List.map_filter_def)
  show ?thesis
    unfolding build_topology_def
    by (intro runsZ_bind[OF runsZ_lift_any] runsZ_if runsZ_fail runsZ_return runsZ_bind[OF find_members_runs[OF none(1)]]
        runsZ_bind[OF find_present_members_runs[OF none(2,3)]]) (use assms in \<open>auto simp: topology_fits_def\<close>)
qed

lemma import_config_runs:
  assumes "0 < n"
  shows "runsZ n (import_config E sha) (\<lambda>(guid, name, ashift, topo). topology_fits n (topo_layout topo))"
  unfolding import_config_def
  by (intro runsZ_bind[OF runsZ_lift_any] runsZ_bind[OF runsZ_read_nvpairs] runsZ_if runsZ_fail
      runsZ_bind[OF build_topology_runs[OF assms]] runsZ_return) simp

lemma runsZ_zap_entries: "runsZ n (zap_entries E topo dn order) (\<lambda>_. True)"
  unfolding zap_entries_def Let_def
  by (intro runsZ_if runsZ_fail runsZ_bind[OF runsZ_safe[OF safeZ_read_dnode_block]] runsZ_bind[OF runsZ_lift_any]
      runsZ_lift_any runsZ_safe safeZ_fat_entries)

lemma runsZ_zap_lookup: "runsZ n (zap_lookup E topo dn name order) (\<lambda>_. True)"
  unfolding zap_lookup_def by (intro runsZ_bind[OF runsZ_zap_entries] runsZ_return TrueI)

lemma runsZ_zap_lookup_bytes: "runsZ n (zap_lookup_bytes E topo dn name order) (\<lambda>_. True)"
proof -
  have fat: "runsZ n (if c then bindZ (liftZ r) (\<lambda>bt. returnZ (bt = t)) else returnZ False) (\<lambda>_. True)"
    for c and r :: "(error, u64) result" and t
    by (intro runsZ_if runsZ_bind[OF runsZ_lift_any] runsZ_return TrueI)
  show ?thesis
    unfolding zap_lookup_bytes_def Let_def
    by (intro runsZ_bind[OF runsZ_safe[OF safeZ_read_dnode_block]] runsZ_bind[OF runsZ_lift_any] runsZ_bind[OF fat] runsZ_if
        runsZ_bind[OF runsZ_safe[OF safeZ_fat_entries_raw]] runsZ_bind[OF runsZ_zap_lookup] runsZ_return TrueI)
qed

lemma runsZ_option:
  "(x = None \<Longrightarrow> runsZ n m P) \<Longrightarrow> (\<And>y. x = Some y \<Longrightarrow> runsZ n (f y) P) \<Longrightarrow> runsZ n (case x of None \<Rightarrow> m | Some y \<Rightarrow> f y) P"
  by (cases x) simp_all

lemma runsZ_check_mos_features: "runsZ n (check_mos_features E topo mos objdir order) (\<lambda>_. True)"
  unfolding check_mos_features_def
  by (intro runsZ_bind[OF runsZ_zap_lookup] runsZ_option runsZ_return TrueI runsZ_bind[OF runsZ_safe[OF safeZ_read_object_dnode]]
      runsZ_bind[OF runsZ_zap_entries] runsZ_lift_any)

lemma runsZ_checksum_salt: "runsZ n (checksum_salt E topo objdir order) (\<lambda>_. True)"
  unfolding checksum_salt_def
  by (intro runsZ_bind[OF runsZ_zap_lookup_bytes] runsZ_option runsZ_if runsZ_return TrueI runsZ_fail)

lemma runsZ_select_slots: "runsZ n (select_slots E sha slot mi offs best) (\<lambda>_. True)"
proof (induction offs arbitrary: best)
  case (Cons off offs)
  have "runsZ n (liftZ Panic) (\<lambda>_. True)"
    by (rule runsZ_lift_any)
  with Cons show ?case
    unfolding select_slots.simps
    by (intro runsZ_bind[OF runsZ_okZ[OF runsZ_safe[OF safeZ_read_exact]]]) (auto split: option.split result.split)
qed (simp add: runsZ_return)

lemma runsZ_select_labels: "runsZ n (select_labels E sha slot count mi labels best) (\<lambda>_. True)"
  by (induction labels arbitrary: best) (auto intro: runsZ_return runsZ_bind[OF runsZ_select_slots])

lemma runsZ_select_members: "runsZ n (select_members E sha slot count mis best) (\<lambda>_. True)"
proof (induction mis arbitrary: best)
  case (Cons mi mis)
  have "runsZ n (bindZ (select_labels E sha slot count mi labels best) (\<lambda>best. select_members E sha slot count mis best)) (\<lambda>_. True)"
    for labels
    by (intro runsZ_bind[OF runsZ_select_labels] Cons)
  with Cons[of best] show ?case
    by (auto simp: runsZ_def split: option.split)
qed (simp add: runsZ_def returnZ_def)

lemma runsZ_select_uberblock: "runsZ n (select_uberblock E topo ashift sha) (\<lambda>_. True)"
  unfolding select_uberblock_def Let_def by (intro runsZ_bind[OF runsZ_select_members] runsZ_lift_any)

text \<open>
  C11. An imported pool is well formed: its topology refers to members that were passed, a raidz topology lacks at
  most one of its children, the pool is not in the middle of a raidz expansion, and its meta dnode is well formed.
\<close>

theorem pool_import_wf:
  "case fst (pool_import E ms) of
     Ok p \<Rightarrow> topology_fits (length ms) (topo_layout (ip_topology p)) \<and> ub_raidz_reflow_info (ip_uberblock p) = 0 \<and>
       wf_dnode (ip_mos_dnode p)
   | Err _ \<Rightarrow> True | Panic \<Rightarrow> True"
proof (cases "ms = []")
  case False
  then have "runsZ (length ms) (import_members E)
      (\<lambda>p. topology_fits (length ms) (topo_layout (ip_topology p)) \<and> ub_raidz_reflow_info (ip_uberblock p) = 0 \<and>
        wf_dnode (ip_mos_dnode p))"
    unfolding import_members_def Let_def
    by (auto intro!: runsZ_bind[OF runsZ_lift_any] runsZ_bind[OF import_config_runs] runsZ_bind[OF runsZ_select_uberblock]
        runsZ_fail runsZ_bind[OF runsZ_gives[OF safeZ_read_objset read_objset_gives]]
        runsZ_bind[OF runsZ_safe[OF safeZ_read_object_dnode]] runsZ_bind[OF runsZ_check_mos_features]
        runsZ_bind[OF runsZ_checksum_salt] runsZ_return)
  with False show ?thesis
    by (auto simp: runsZ_def pool_import_def split: result.split)
qed (simp add: pool_import_def failZ_def)

end
