(* ===== verification/Spec2Isabelle.thy ===== *)
theory Spec2Isabelle
  imports Fletcher_Props Sha256_Props Lzjb_Roundtrip Raidz_Props Nv_Props Import
begin

text \<open>
  A verification development of \<open>lamzfs\<close>, a \<open>no_std\<close> reader of ZFS pools (the crate under
  \<open>src/src\<close>). The crate parses the labels and uberblocks of the member devices, follows block
  pointers from the uberblock through the meta object set to datasets, directories and files, and
  never writes. Every block below the label is reached through a block pointer that carries its
  size, its compression and its checksum.

  \<^bold>\<open>Parts and theories.\<close>

  \<^item> \<open>Prelude\<close>, \<open>Utf8\<close>: machine integers as words, \<open>usize\<close> as \<^typ>\<open>nat\<close> on a 64-bit target, results
    with a value for a panic, slices, checked arithmetic, byte order, and UTF-8 validation of the
    standard library.
  \<^item> \<open>Binary\<close>, \<open>Codec\<close> (\<open>phys/binary.rs\<close>): the decoder and encoder buffers, and the decoder and
    encoder traits as records of methods with one value per implementation (big endian, little
    endian, XDR). The locale \<open>decoder_contract\<close> is what every client of a decoder relies on, the
    locale \<open>codec\<close> what an encoder and a decoder promise each other; both are interpreted for the
    three implementations.
  \<^item> \<open>Phys_Types\<close>, \<open>Dva\<close>, \<open>Block_Pointer\<close> (\<open>phys/checksum.rs\<close>, \<open>phys/compression.rs\<close>, \<open>phys/dmu.rs\<close>,
    \<open>phys/dva.rs\<close>, \<open>phys/block_pointer.rs\<close>): the on-disk enumerations and block pointers, their
    decoders and encoders, that decoding never panics, and the round trip.
  \<^item> \<open>Fletcher\<close>, \<open>Fletcher_Equiv\<close>, \<open>Fletcher_Props\<close> (\<open>checksum/fletcher2.rs\<close>, \<open>checksum/fletcher4.rs\<close>):
    the streaming hashers with their portable implementations. The locale \<open>stream_step\<close> is the
    contract of a loop over interleaved streams, \<open>block_hasher\<close> and \<open>fletcher_impl\<close> that of buffering;
    they are interpreted for all six implementations, and all of them compute the same iterated sums.
  \<^item> \<open>Sha256\<close>, \<open>Sha256_Props\<close> (\<open>checksum/sha256.rs\<close>): the streaming hasher with its generic implementation, which
    computes the function of FIPS 180-4.
  \<^item> \<open>Lzjb\<close>, \<open>Lzjb_Roundtrip\<close> (\<open>compression/lzjb.rs\<close>): both encoders and the decoder; the encoders never
    panic and the decoder undoes them.
  \<^item> \<open>Pool_Env\<close> (\<open>error.rs\<close>, \<open>block_read.rs\<close>): errors, pool members, and the code outside the crate as
    a record that is an argument of its users. The locale \<open>pool_env\<close> has the only assumptions: a
    buffer passed by reference keeps its length. It is interpreted for the in-memory reader of the
    fuzz targets.
  \<^item> \<open>Compress\<close> (\<open>compress.rs\<close>), \<open>Cksum\<close> (\<open>cksum.rs\<close>): decompression to the logical size, and
    verification of a block.
  \<^item> \<open>Vdev\<close>, \<open>Vdev_Props\<close>, \<open>Raidz_Props\<close> (\<open>vdev.rs\<close>): reading a block from a single device, a mirror or a
    raidz1 group. Only verified data is returned, a good copy on any device of a mirror is found, and any one column of a
    raidz1 stripe may be lost.
  \<^item> \<open>Dnode\<close> (\<open>phys/dnode.rs\<close>): dnodes, their decoder, which never panics and only accepts well-formed
    dnodes, and their encoder, which never succeeds.
  \<^item> \<open>Decode_Props\<close>, \<open>Decode_Progress\<close>: what a decoded value satisfies, and how far a decoder step moves in
    its buffer, as two small logics of decoder steps that the theories of on-disk structures share.
  \<^item> \<open>File_Read\<close> (\<open>file.rs\<close>): the walk through indirect blocks to a block of an object, and reads of a range
    of bytes, which refine a byte-by-byte view of the object.
  \<^item> \<open>Object_Set\<close> (\<open>phys/object_set.rs\<close>, \<open>phys/zil.rs\<close>), \<open>Dsl\<close> (\<open>phys/dsl.rs\<close>), \<open>Label_Checksum\<close>
    (\<open>checksum/label.rs\<close>), \<open>Uberblock\<close>, \<open>Uberblock_Props\<close> (\<open>phys/uberblock.rs\<close>, \<open>phys/spa.rs\<close>), \<open>Zap\<close>
    (\<open>phys/zap.rs\<close>): the structures above dnodes; decoding them never panics, and the round trips where the
    encoder and the decoder are inverse.
  \<^item> \<open>Walk\<close>, \<open>Walk_Props\<close> (\<open>walk.rs\<close>), \<open>Dataset\<close>, \<open>Dataset_Props\<close> (\<open>dataset.rs\<close>): objects of an object set, the entries of a ZAP,
    datasets, directories, paths and file sizes. Reading an object never panics; listing a ZAP panics on
    one kind of object only, and returns the entries of a micro ZAP; naming the children of a dataset
    panics on pools with such an object only.
  \<^item> \<open>Pool\<close> (\<open>pool.rs\<close>), \<open>Zfs\<close> (\<open>lib.rs\<close>): the choice of the active uberblock, which is the newest, the feature
    checks, and the methods of an imported pool. Listing datasets is bounded and has
    no error but the panic of such an object, and a read at an offset
    is a slice of the whole file.
  \<^item> \<open>Label\<close> (\<open>phys/label.rs\<close>): the sections of a label, their round trip, and where the labels of a device are,
    which agrees with \<open>Pool\<close>.
  \<^item> \<open>Nv\<close>, \<open>Nv_Props\<close> (\<open>phys/nv.rs\<close>): name/value lists in the XDR encoding. Opening, searching and iterating
    never panic, iteration ends, and
    a search finds what the layout of a list holds.
  \<^item> \<open>Import\<close> (\<open>pool.rs\<close>, \<open>lib.rs\<close>): the configuration of a label, the topology and the import of a pool, which only
    accepts a topology that fits the members. Its use of name/value lists never panics.

  \<^bold>\<open>Conventions.\<close> A function that reads the pool takes the members and returns its result with the
  members as the reads left them. A loop that returns early is a recursion over what it iterates
  over; a \<open>while\<close> loop is a \<open>function\<close> with a termination proof, so nothing is bounded by fuel. Additions
  on \<open>u64\<close> that the source does not check wrap, as in a release build. Features of the crate are flags
  of the environment, so both branches of each \<open>cfg\<close> are modelled. The x86 form of the SHA-256 sums
  is the one modelled.

  \<^bold>\<open>Not modelled.\<close> The vector implementations of the checksums (their features are not declared by
  the crate); \<open>Display\<close> and \<open>std::error::Error\<close>; \<open>phys/endian.rs\<close>, which is not part of the module tree;
  the codecs and hashes of other crates, which are parameters. The decoded label
  configurations (the import reads the name/value list itself), and the ACL, ZPL, feature and space map structures,
  which the reader does not use, are not modelled yet.
\<close>

end
